(* ===== verification/Prelude.thy ===== *)
theory Prelude
  imports Main "HOL-Library.Word" "HOL-Library.Monad_Syntax"
begin

text \<open>
  The part of the Go language and of its standard library that the package uses, and the
  vocabulary every component shares:
  \<^item> machine integers, byte slices (with \<open>nil\<close> kept apart from the empty slice),
    fixed-size byte arrays and strings;
  \<^item> run-time panics: a definition that may panic returns an \<open>option\<close> and \<open>None\<close>
    is the panic; an \<open>error\<close> result is a value of type \<open>error option\<close>, \<open>None\<close>
    being Go's \<open>nil\<close> error;
  \<^item> \<open>encoding/binary.LittleEndian\<close>: the byte order of the whole protocol;
  \<^item> \<open>emit\<close>: the abstract output channel that the builder of the package implements.
\<close>

unbundle bit_operations_syntax

section \<open>Types\<close>

type_synonym byte = "8 word"
type_synonym u8 = "8 word"
type_synonym u16 = "16 word"
type_synonym u32 = "32 word"
type_synonym u64 = "64 word"

text \<open>
  A Go slice of bytes: \<open>None\<close> is \<open>nil\<close>. Only the reader of the package tells the two
  apart; where nothing depends on it a plain \<open>byte list\<close> is used.
\<close>

type_synonym slice = "byte list option"

text \<open>
  One constructor per \<open>errors.New\<close> of the package, in the order of the files;
  \<open>Errorf\<close> is \<open>fmt.Errorf\<close> with the text before the wrapped error, \<open>External\<close>
  an error made by code outside the package; \<open>IO_EOF\<close>, \<open>IO_ErrUnexpectedEOF\<close> and
  \<open>Net_ErrClosed\<close> are the sentinel errors of the standard library.
\<close>

datatype error =
    AddStr_len_gt_255 | AddBin32_len_gt_32 | AddBin255_len_gt_255 | AddBin64K_len_gt_65535
  | AddBin16M_len_gt_limit | AddSeq1_len_gt_1 | AddSeq255_len_gt_255 | AddSeq64K_len_gt_65535
  | Reader_EOF | ReadBool_invalid | ReadSeq1_len_gt_1 | ReadBin32_len_gt_32 | Seek_out_of_bounds
  | Frame_MessageLength_gt_MaxU24 | Frame_MessageLength_neq_len
  | SetBytes_len_not_32 | SetString_len_not_64 | Hex_invalid | Unknown_message_type
  | IO_EOF | IO_ErrUnexpectedEOF | Net_ErrClosed
  | Cert_invalid_length | Cert_unsupported_version | Cert_not_yet_valid | Cert_expired
  | Nonce_space_exhausted | Header_too_short | Payload_too_short | Errorf string error
  | T_not_found | Authority_key_version
  | External string

named_theorems go_reader \<open>what the reads of the package do on a well-placed cursor\<close>
named_theorems go_view \<open>what the writes of the package do to a builder, as emitted output\<close>

section \<open>Slices, indexing and arrays\<close>

definition slice_len :: "slice \<Rightarrow> int" where
  "slice_len s = (case s of None \<Rightarrow> 0 | Some bs \<Rightarrow> int (length bs))"

definition slice_bytes :: "slice \<Rightarrow> byte list" where
  "slice_bytes s = (case s of None \<Rightarrow> [] | Some bs \<Rightarrow> bs)"

text \<open>
  \<open>s[lo:hi]\<close> for \<open>hi \<le> len(s)\<close>, which is how the reader uses it; a bound that is
  negative or out of order panics. Slicing \<open>nil\<close> gives \<open>nil\<close>.
\<close>

definition slice_range :: "slice \<Rightarrow> int \<Rightarrow> int \<Rightarrow> slice option" where
  "slice_range s lo hi =
     (if 0 \<le> lo \<and> lo \<le> hi \<and> hi \<le> slice_len s
      then Some (map_option (\<lambda>bs. take (nat (hi - lo)) (drop (nat lo) bs)) s) else None)"

text \<open>\<open>b[i]\<close> on a slice: out of range is a panic.\<close>

definition index :: "'a list \<Rightarrow> nat \<Rightarrow> 'a option" where
  "index bs i = (if i < length bs then Some (bs ! i) else None)"

text \<open>
  \<open>[N]byte\<close>. The size is part of the type, as it is in Go, so a 32-byte value has
  exactly 32 bytes without a side condition.
\<close>

typedef (overloaded) ('n::len) byte_array = "{bs :: byte list. length bs = LENGTH('n)}"
  morphisms array_bytes Array
  by (rule exI [where x = "replicate LENGTH('n) 0"]) simp

text \<open>\<open>[N]byte(s)\<close>: the conversion panics when the slice is shorter than the array.\<close>

definition array_of_slice :: "byte list \<Rightarrow> 'n::len byte_array option" where
  "array_of_slice bs =
     (if LENGTH('n) \<le> length bs then Some (Array (take LENGTH('n) bs)) else None)"

definition zero_array :: "'n::len byte_array" where
  "zero_array = Array (replicate LENGTH('n) 0)"

lemma length_array_bytes [simp]: "length (array_bytes (a :: 'n::len byte_array)) = LENGTH('n)"
  using array_bytes [of a] by simp

lemma array_bytes_Array [simp]:
  "length bs = LENGTH('n::len) \<Longrightarrow> array_bytes (Array bs :: 'n byte_array) = bs"
  by (rule Array_inverse) simp

lemma Array_array_bytes [simp]: "Array (array_bytes a) = a"
  by (rule array_bytes_inverse)

lemma array_bytes_inj: "array_bytes a = array_bytes b \<longleftrightarrow> a = b"
  by (rule array_bytes_inject)

lemma array_of_slice_bytes [simp]: "array_of_slice (array_bytes a) = Some a"
  by (simp add: array_of_slice_def)

lemma array_of_slice_None [simp]:
  "(array_of_slice bs :: 'n::len byte_array option) = None \<longleftrightarrow> length bs < LENGTH('n)"
  by (simp add: array_of_slice_def)

lemma array_of_slice_Some:
  "length bs = LENGTH('n::len) \<Longrightarrow> array_of_slice bs = Some (Array bs :: 'n byte_array)"
  by (simp add: array_of_slice_def)

lemma array_bytes_zero [simp]:
  "array_bytes (zero_array :: 'n::len byte_array) = replicate LENGTH('n) 0"
  by (simp add: zero_array_def)

section \<open>Strings and bytes\<close>

text \<open>
  A Go string is a sequence of bytes and \<open>len\<close> counts bytes; HOL's \<open>char\<close> is exactly
  one byte, so \<open>string\<close> is the same data.
\<close>

definition byte_of_char :: "char \<Rightarrow> byte" where
  "byte_of_char c = word_of_nat (of_char c)"

definition char_of_byte :: "byte \<Rightarrow> char" where
  "char_of_byte b = char_of (unat b)"

definition string_bytes :: "string \<Rightarrow> byte list" where
  "string_bytes s = map byte_of_char s"

definition bytes_string :: "byte list \<Rightarrow> string" where
  "bytes_string bs = map char_of_byte bs"

lemma char_of_byte_of_char [simp]: "char_of_byte (byte_of_char c) = c"
  by (simp add: char_of_byte_def byte_of_char_def unat_of_nat)

lemma byte_of_char_of_byte [simp]: "byte_of_char (char_of_byte b) = b"
proof -
  have "unat b mod 256 = unat b"
    using unsigned_less [of b, where ?'a = nat] by simp
  then show ?thesis
    by (simp add: char_of_byte_def byte_of_char_def)
qed

lemma bytes_string_bytes [simp]: "bytes_string (string_bytes s) = s"
  by (simp add: bytes_string_def string_bytes_def comp_def)

lemma string_bytes_string [simp]: "string_bytes (bytes_string bs) = bs"
  by (simp add: bytes_string_def string_bytes_def comp_def)

lemma length_string_bytes [simp]: "length (string_bytes s) = length s"
  by (simp add: string_bytes_def)

lemma length_bytes_string [simp]: "length (bytes_string bs) = length bs"
  by (simp add: bytes_string_def)

section \<open>encoding/binary.LittleEndian\<close>

text \<open>
  The bytes that \<open>AppendUint16/32/64\<close> append, and \<open>Uint16/32/64\<close>, which panic on a
  slice that is too short and ignore what follows.
\<close>

definition le16 :: "u16 \<Rightarrow> byte list" where
  "le16 v = [ucast v, ucast (drop_bit 8 v)]"

definition le32 :: "u32 \<Rightarrow> byte list" where
  "le32 v = [ucast v, ucast (drop_bit 8 v), ucast (drop_bit 16 v), ucast (drop_bit 24 v)]"

definition le64 :: "u64 \<Rightarrow> byte list" where
  "le64 v = [ucast v, ucast (drop_bit 8 v), ucast (drop_bit 16 v), ucast (drop_bit 24 v),
     ucast (drop_bit 32 v), ucast (drop_bit 40 v), ucast (drop_bit 48 v), ucast (drop_bit 56 v)]"

fun ble_Uint16 :: "byte list \<Rightarrow> u16 option" where
  "ble_Uint16 (b0 # b1 # bs) = Some (ucast b0 OR push_bit 8 (ucast b1))"
| "ble_Uint16 _ = None"

fun ble_Uint32 :: "byte list \<Rightarrow> u32 option" where
  "ble_Uint32 (b0 # b1 # b2 # b3 # bs) =
     Some (ucast b0 OR push_bit 8 (ucast b1) OR push_bit 16 (ucast b2) OR push_bit 24 (ucast b3))"
| "ble_Uint32 _ = None"

fun ble_Uint64 :: "byte list \<Rightarrow> u64 option" where
  "ble_Uint64 (b0 # b1 # b2 # b3 # b4 # b5 # b6 # b7 # bs) =
     Some (ucast b0 OR push_bit 8 (ucast b1) OR push_bit 16 (ucast b2) OR push_bit 24 (ucast b3)
       OR push_bit 32 (ucast b4) OR push_bit 40 (ucast b5) OR push_bit 48 (ucast b6)
       OR push_bit 56 (ucast b7))"
| "ble_Uint64 _ = None"

lemma length_le [simp]: "length (le16 a) = 2" "length (le32 b) = 4" "length (le64 c) = 8"
  by (simp_all add: le16_def le32_def le64_def)

text \<open>
  One reference for all widths: the value of a byte string, least significant byte
  first, and its \<open>i\<close>-th byte.
\<close>

fun le_word :: "byte list \<Rightarrow> 'a::len word" where
  "le_word [] = 0"
| "le_word (b # bs) = ucast b OR push_bit 8 (le_word bs)"

lemma bit_le_word:
  "bit (le_word bs :: 'a::len word) n \<longleftrightarrow>
     n < LENGTH('a) \<and> n div 8 < length bs \<and> bit (bs ! (n div 8)) (n mod 8)"
proof (induction bs arbitrary: n)
  case Nil
  then show ?case by simp
next
  case (Cons b bs)
  show ?case
  proof (cases "n < 8")
    case True
    then show ?thesis by (auto simp: bit_simps)
  next
    case False
    then obtain m where m: "n = m + 8" by (metis add.commute le_Suc_ex not_less)
    have "\<not> bit b (m + 8)" by (auto dest: bit_imp_le_length)
    moreover have "(m + 8) div 8 = Suc (m div 8)" by simp
    ultimately show ?thesis
      using m by (auto simp: bit_simps Cons.IH)
  qed
qed

lemma le_word_bytes:
  "LENGTH('a) = 8 * k \<Longrightarrow>
     (le_word (map (\<lambda>i. ucast (drop_bit (8 * i) (v :: 'a::len word))) [0..<k]) :: 'a word) = v"
  by (rule bit_word_eqI) (auto simp: bit_le_word bit_simps)

lemma byte_le_word:
  assumes "LENGTH('a::len) = 8 * length bs" and "i < length bs"
  shows "ucast (drop_bit (8 * i) (le_word bs :: 'a word)) = (bs ! i :: byte)"
proof (rule bit_word_eqI)
  fix n assume "n < LENGTH(8)"
  then have "n < 8" by simp
  then have "(8 * i + n) div 8 = i" "(8 * i + n) mod 8 = n"
    by (simp_all add: div_add1_eq)
  with assms \<open>n < 8\<close> show "bit (ucast (drop_bit (8 * i) (le_word bs :: 'a word)) :: byte) n = bit (bs ! i) n"
    by (simp add: bit_simps bit_le_word)
qed

lemma ble_Uint16_le_word: "length bs = 2 \<Longrightarrow> ble_Uint16 (bs @ s) = Some (le_word bs)"
  by (auto simp: numeral_eq_Suc length_Suc_conv)

lemma ble_Uint32_le_word: "length bs = 4 \<Longrightarrow> ble_Uint32 (bs @ s) = Some (le_word bs)"
  by (auto simp: numeral_eq_Suc length_Suc_conv push_bit_or ac_simps)

lemma ble_Uint64_le_word: "length bs = 8 \<Longrightarrow> ble_Uint64 (bs @ s) = Some (le_word bs)"
  by (auto simp: numeral_eq_Suc length_Suc_conv push_bit_or ac_simps)

lemma le_map:
  "le16 u = map (\<lambda>i. ucast (drop_bit (8 * i) u)) [0..<2]"
  "le32 v = map (\<lambda>i. ucast (drop_bit (8 * i) v)) [0..<4]"
  "le64 w = map (\<lambda>i. ucast (drop_bit (8 * i) w)) [0..<8]"
  by (simp_all add: le16_def le32_def le64_def numeral_eq_Suc)

lemma le_word_le [simp]: "le_word (le16 u) = u" "le_word (le32 v) = v" "le_word (le64 w) = w"
  unfolding le_map by (rule le_word_bytes, simp)+

lemma le_le_word:
  "length bs = 2 \<Longrightarrow> le16 (le_word bs) = bs"
  "length bs = 4 \<Longrightarrow> le32 (le_word bs) = bs"
  "length bs = 8 \<Longrightarrow> le64 (le_word bs) = bs"
  unfolding le_map by (auto intro!: nth_equalityI simp: byte_le_word)

lemma ble_le [simp]:
  "ble_Uint16 (le16 u @ s) = Some u"
  "ble_Uint32 (le32 v @ s) = Some v"
  "ble_Uint64 (le64 w @ s) = Some w"
  by (simp_all add: ble_Uint16_le_word ble_Uint32_le_word ble_Uint64_le_word)

text \<open>
  A \<open>U24\<close> is a \<open>uint32\<close> whose top byte is dropped on the wire and read as zero.
\<close>

definition le24 :: "u32 \<Rightarrow> byte list" where
  "le24 v = take 3 (le32 v)"

lemma length_le24 [simp]: "length (le24 v) = 3"
  by (simp add: le24_def)

lemma u24_top_byte: "v < 16777216 \<longleftrightarrow> ucast (drop_bit 24 v) = (0 :: byte)" for v :: u32
proof -
  have "v < 16777216 \<longleftrightarrow> unat v div 2 ^ 24 = 0"
    by (simp add: word_less_nat_alt div_eq_0_iff)
  also have "\<dots> \<longleftrightarrow> unat (drop_bit 24 v) = 0"
    by (simp add: drop_bit_eq_div unat_div)
  also have "\<dots> \<longleftrightarrow> unat (ucast (drop_bit 24 v) :: byte) = 0"
  proof -
    have "unat (drop_bit 24 v) < 2 ^ 8"
      using unsigned_less [of v, where ?'a = nat]
      by (simp add: drop_bit_eq_div unat_div less_mult_imp_div_less)
    then show ?thesis by (simp add: unsigned_ucast_eq take_bit_nat_eq_self)
  qed
  finally show ?thesis by (simp add: unat_eq_0)
qed

lemma le24_le32: "le32 v = le24 v @ [ucast (drop_bit 24 v)]"
  by (simp add: le24_def le32_def)

lemma ble_le24: "v < 16777216 \<Longrightarrow> ble_Uint32 (le24 v @ [0]) = Some v"
  using ble_le(2) [of v "[]"] by (simp add: le24_le32 u24_top_byte)

lemma le24_inv:
  assumes "length bs = 3" and "ble_Uint32 (bs @ [0]) = Some v"
  shows "le24 v = bs \<and> v < 16777216"
proof -
  from assms have "v = le_word (bs @ [0])"
    using ble_Uint32_le_word [of "bs @ [0]" "[]"] by simp
  then have "le32 v = bs @ [0]"
    using assms(1) by (simp add: le_le_word)
  then show ?thesis
    using assms(1) by (simp add: le24_le32 u24_top_byte)
qed

lemma uint_of_unat: "unat w = n \<Longrightarrow> uint w = int n"
  by auto

section \<open>Emitted output\<close>

text \<open>
  What a sequence of writes has produced: the bytes so far and the first error. The
  output of one field is either its bytes or the error that stops the encoding; after an
  error nothing more is written, and the bytes up to it stay.
\<close>

type_synonym written = "byte list \<times> error option"

fun emit :: "error + byte list \<Rightarrow> written \<Rightarrow> written" where
  "emit (Inr bs) (out, None) = (out @ bs, None)"
| "emit (Inl e) (out, None) = (out, Some e)"
| "emit _ (out, Some e) = (out, Some e)"

lemma emit_err [simp]: "snd o1 \<noteq> None \<Longrightarrow> emit f o1 = o1"
  by (cases "(f, o1)" rule: emit.cases) auto

lemma emit_prefix: "\<exists>bs. fst (emit f o1) = fst o1 @ bs"
  by (cases "(f, o1)" rule: emit.cases) auto

lemma emit_ok: "emit f o1 = (out, None) \<longleftrightarrow> (\<exists>bs pre. f = Inr bs \<and> o1 = (pre, None) \<and> out = pre @ bs)"
  by (cases "(f, o1)" rule: emit.cases) auto

end
