(* ===== verification/Binary_Builder.thy ===== *)
theory Binary_Builder
  imports Prelude
begin

text \<open>
  \<open>BinaryBuilder\<close> of \<open>src/binary.go\<close>: the encoder every message is written with.
  The record has the bytes written, the capacity of the backing slice and the sticky
  error. Every method takes the builder and returns the one the Go method leaves behind.
  The \<open>AddSeq*\<close> methods need the sequences of \<open>types.go\<close> and are in
  \<open>Sequences\<close>.

  \<open>append\<close> reallocates exactly to the length it needs: the language leaves the
  over-allocation open, and nothing but \<open>Cap\<close> reads it. Allocation always succeeds.

  Lemmas: every write is an \<open>emit\<close> of the bytes of its field (the contract
  \<open>field_writer\<close>, interpreted for each method), capacity bounds, and the behaviour of
  the length limits.
\<close>

section \<open>State and operations\<close>

record BinaryBuilder =
  bb_data :: "byte list"
  bb_cap :: nat
  bb_err :: "error option"

definition limit64k :: nat where
  "limit64k = 65535"

text \<open>
  \<open>2 ^ 24 - 1\<close> is exclusive or in Go: the operators \<open>^\<close> and \<open>-\<close> have the same
  precedence and associate to the left.
\<close>

definition limit16m :: int where
  "limit16m = (2 XOR 24) - 1"

definition NewBinaryBuilder :: BinaryBuilder where
  "NewBinaryBuilder = \<lparr>bb_data = [], bb_cap = 0, bb_err = None\<rparr>"

text \<open>\<open>bb.data = append(bb.data, bs...)\<close>\<close>

definition append_data :: "BinaryBuilder \<Rightarrow> byte list \<Rightarrow> BinaryBuilder" where
  "append_data bb bs =
     (let l = length (bb_data bb) + length bs
      in bb\<lparr>bb_data := bb_data bb @ bs, bb_cap := (if l \<le> bb_cap bb then bb_cap bb else l)\<rparr>)"

definition Grow :: "BinaryBuilder \<Rightarrow> int \<Rightarrow> BinaryBuilder" where
  "Grow bb sz =
     (if sz \<le> 0 then bb
      else let l = int (length (bb_data bb)); c = int (bb_cap bb)
           in if c - l < sz then bb\<lparr>bb_cap := nat (c + sz)\<rparr> else bb)"

definition Bytes :: "BinaryBuilder \<Rightarrow> byte list \<times> error option" where
  "Bytes bb = (if bb_err bb \<noteq> None then (bb_data bb, bb_err bb) else (bb_data bb, None))"

definition Len :: "BinaryBuilder \<Rightarrow> nat" where
  "Len bb = length (bb_data bb)"

definition Cap :: "BinaryBuilder \<Rightarrow> nat" where
  "Cap bb = bb_cap bb"

definition AddBool :: "BinaryBuilder \<Rightarrow> bool \<Rightarrow> BinaryBuilder" where
  "AddBool bb boo =
     (if bb_err bb \<noteq> None then bb else if boo then append_data bb [1] else append_data bb [0])"

definition AddU8 :: "BinaryBuilder \<Rightarrow> u8 \<Rightarrow> BinaryBuilder" where
  "AddU8 bb u = (if bb_err bb \<noteq> None then bb else append_data bb [u])"

definition AddU16 :: "BinaryBuilder \<Rightarrow> u16 \<Rightarrow> BinaryBuilder" where
  "AddU16 bb u = (if bb_err bb \<noteq> None then bb else append_data bb (le16 u))"

definition AddU24 :: "BinaryBuilder \<Rightarrow> u32 \<Rightarrow> BinaryBuilder" where
  "AddU24 bb u =
     (if bb_err bb \<noteq> None then bb else let enc = le32 u in append_data bb (take 3 enc))"

definition AddU32 :: "BinaryBuilder \<Rightarrow> u32 \<Rightarrow> BinaryBuilder" where
  "AddU32 bb u = (if bb_err bb \<noteq> None then bb else append_data bb (le32 u))"

definition AddU64 :: "BinaryBuilder \<Rightarrow> u64 \<Rightarrow> BinaryBuilder" where
  "AddU64 bb u = (if bb_err bb \<noteq> None then bb else append_data bb (le64 u))"

definition AddBytes :: "BinaryBuilder \<Rightarrow> byte list \<Rightarrow> BinaryBuilder" where
  "AddBytes bb bin =
     (if bb_err bb \<noteq> None then bb else if length bin = 0 then bb else append_data bb bin)"

type_synonym U256 = "32 byte_array"

definition AddU256 :: "BinaryBuilder \<Rightarrow> U256 \<Rightarrow> BinaryBuilder" where
  "AddU256 bb u =
     (if bb_err bb \<noteq> None then bb else AddBytes (Grow bb 32) (array_bytes u))"

definition AddStr255 :: "BinaryBuilder \<Rightarrow> string \<Rightarrow> BinaryBuilder" where
  "AddStr255 bb s =
     (if bb_err bb \<noteq> None then bb
      else let l = length s
           in if 255 < l then bb\<lparr>bb_err := Some AddStr_len_gt_255\<rparr>
              else AddBytes (AddU8 (Grow bb (int l + 1)) (word_of_nat l)) (string_bytes s))"

text \<open>A \<open>float32\<close> is its IEEE bit pattern; \<open>math.Float32bits\<close> reads it.\<close>

datatype float32 = Float32frombits (Float32bits: u32)

definition AddF32 :: "BinaryBuilder \<Rightarrow> float32 \<Rightarrow> BinaryBuilder" where
  "AddF32 bb f = (if bb_err bb \<noteq> None then bb else append_data bb (le32 (Float32bits f)))"

definition AddBin32 :: "BinaryBuilder \<Rightarrow> byte list \<Rightarrow> BinaryBuilder" where
  "AddBin32 bb s =
     (if bb_err bb \<noteq> None then bb
      else let l = length s
           in if 32 < l then bb\<lparr>bb_err := Some AddBin32_len_gt_32\<rparr>
              else AddBytes (AddU8 (Grow bb (int l + 1)) (word_of_nat l)) s)"

definition AddBin255 :: "BinaryBuilder \<Rightarrow> byte list \<Rightarrow> BinaryBuilder" where
  "AddBin255 bb s =
     (if bb_err bb \<noteq> None then bb
      else let l = length s
           in if 255 < l then bb\<lparr>bb_err := Some AddBin255_len_gt_255\<rparr>
              else AddBytes (AddU8 (Grow bb (int l + 1)) (word_of_nat l)) s)"

definition AddBin64K :: "BinaryBuilder \<Rightarrow> byte list \<Rightarrow> BinaryBuilder" where
  "AddBin64K bb s =
     (if bb_err bb \<noteq> None then bb
      else let l = length s
           in if limit64k < l then bb\<lparr>bb_err := Some AddBin64K_len_gt_65535\<rparr>
              else AddBytes (AddU16 (Grow bb (int l + 2)) (word_of_nat l)) s)"

definition AddBin16M :: "BinaryBuilder \<Rightarrow> byte list \<Rightarrow> BinaryBuilder" where
  "AddBin16M bb s =
     (if bb_err bb \<noteq> None then bb
      else let l = length s
           in if limit16m < int l then bb\<lparr>bb_err := Some AddBin16M_len_gt_limit\<rparr>
              else AddBytes (AddU24 (Grow bb (int l + 3)) (word_of_nat l)) s)"

definition AddMAC :: "BinaryBuilder \<Rightarrow> 16 byte_array \<Rightarrow> BinaryBuilder" where
  "AddMAC bb mac = AddBytes bb (array_bytes mac)"

type_synonym Pubkey = "32 byte_array"
type_synonym EllswiftPubkey = "64 byte_array"
type_synonym Signature = "64 byte_array"

definition AddPubkey :: "BinaryBuilder \<Rightarrow> Pubkey \<Rightarrow> BinaryBuilder" where
  "AddPubkey bb pubkey = AddBytes bb (array_bytes pubkey)"

definition AddEllswiftPubkey :: "BinaryBuilder \<Rightarrow> EllswiftPubkey \<Rightarrow> BinaryBuilder" where
  "AddEllswiftPubkey bb pubkey = AddBytes bb (array_bytes pubkey)"

definition AddSignature :: "BinaryBuilder \<Rightarrow> Signature \<Rightarrow> BinaryBuilder" where
  "AddSignature bb sig =
     (if bb_err bb \<noteq> None then bb else append_data bb (array_bytes sig))"

definition AddShortTXID :: "BinaryBuilder \<Rightarrow> 6 byte_array \<Rightarrow> BinaryBuilder" where
  "AddShortTXID bb txid =
     (if bb_err bb \<noteq> None then bb else append_data bb (array_bytes txid))"

section \<open>Writes as emitted output\<close>

text \<open>What a caller of \<open>Bytes\<close> sees of a builder.\<close>

definition view :: "BinaryBuilder \<Rightarrow> written" where
  "view bb = (bb_data bb, bb_err bb)"

lemma Bytes_view: "Bytes bb = view bb"
  by (simp add: Bytes_def view_def)

lemma view_NewBinaryBuilder [simp]: "view NewBinaryBuilder = ([], None)"
  by (simp add: view_def NewBinaryBuilder_def)

lemma view_append_data [simp]: "view (append_data bb bs) = (bb_data bb @ bs, bb_err bb)"
  by (simp add: view_def append_data_def Let_def)

lemma view_Grow [simp]: "view (Grow bb n) = view bb"
  by (simp add: view_def Grow_def Let_def)

lemma bb_Grow [simp]: "bb_data (Grow bb n) = bb_data bb" "bb_err (Grow bb n) = bb_err bb"
  using view_Grow [of bb n] by (simp_all only: view_def prod.inject)

lemma view_err [simp]: "snd (view bb) = bb_err bb"
  by (simp add: view_def)

text \<open>The bytes, or the error, that each kind of field contributes.\<close>

definition fld_raw :: "byte list \<Rightarrow> error + byte list" where
  "fld_raw bs = Inr bs"

definition enc_bool :: "bool \<Rightarrow> byte list" where
  "enc_bool b = [if b then 1 else 0]"

definition fld_bool :: "bool \<Rightarrow> error + byte list" where
  "fld_bool b = Inr (enc_bool b)"

definition enc_u8 :: "u8 \<Rightarrow> byte list" where
  "enc_u8 u = [u]"

definition fld_u8 :: "u8 \<Rightarrow> error + byte list" where
  "fld_u8 u = Inr (enc_u8 u)"

definition fld_u16 :: "u16 \<Rightarrow> error + byte list" where
  "fld_u16 u = Inr (le16 u)"

definition fld_u24 :: "u32 \<Rightarrow> error + byte list" where
  "fld_u24 u = Inr (le24 u)"

definition fld_u32 :: "u32 \<Rightarrow> error + byte list" where
  "fld_u32 u = Inr (le32 u)"

definition fld_u64 :: "u64 \<Rightarrow> error + byte list" where
  "fld_u64 u = Inr (le64 u)"

definition fld_f32 :: "float32 \<Rightarrow> error + byte list" where
  "fld_f32 f = Inr (le32 (Float32bits f))"

definition fld_array :: "'n::len byte_array \<Rightarrow> error + byte list" where
  "fld_array a = Inr (array_bytes a)"

text \<open>A byte string behind a length prefix of one, two and three bytes.\<close>

definition enc_bin8 :: "byte list \<Rightarrow> byte list" where
  "enc_bin8 s = word_of_nat (length s) # s"

definition enc_bin16 :: "byte list \<Rightarrow> byte list" where
  "enc_bin16 s = le16 (word_of_nat (length s)) @ s"

definition enc_bin24 :: "byte list \<Rightarrow> byte list" where
  "enc_bin24 s = le24 (word_of_nat (length s)) @ s"

definition fld_str255 :: "string \<Rightarrow> error + byte list" where
  "fld_str255 s = (if 255 < length s then Inl AddStr_len_gt_255
     else Inr (enc_bin8 (string_bytes s)))"

definition fld_bin32 :: "byte list \<Rightarrow> error + byte list" where
  "fld_bin32 s = (if 32 < length s then Inl AddBin32_len_gt_32
     else Inr (enc_bin8 s))"

definition fld_bin255 :: "byte list \<Rightarrow> error + byte list" where
  "fld_bin255 s = (if 255 < length s then Inl AddBin255_len_gt_255
     else Inr (enc_bin8 s))"

definition fld_bin64k :: "byte list \<Rightarrow> error + byte list" where
  "fld_bin64k s = (if 65535 < length s then Inl AddBin64K_len_gt_65535
     else Inr (enc_bin16 s))"

definition fld_bin16m :: "byte list \<Rightarrow> error + byte list" where
  "fld_bin16m s = (if 25 < length s then Inl AddBin16M_len_gt_limit
     else Inr (enc_bin24 s))"

lemmas fld_defs = fld_raw_def fld_bool_def fld_u8_def fld_u16_def fld_u24_def fld_u32_def
  fld_u64_def fld_f32_def fld_array_def fld_str255_def fld_bin32_def fld_bin255_def
  fld_bin64k_def fld_bin16m_def

lemmas enc_defs = enc_bool_def enc_u8_def enc_bin8_def enc_bin16_def enc_bin24_def

lemma length_enc [simp]:
  "length (enc_bool b) = 1" "length (enc_u8 u) = 1" "length (enc_bin8 s) = 1 + length s"
  "length (enc_bin16 s) = 2 + length s" "length (enc_bin24 s) = 3 + length s"
  by (simp_all add: enc_defs)

section \<open>The contract of a write\<close>

locale field_writer =
  fixes add :: "BinaryBuilder \<Rightarrow> 'a \<Rightarrow> BinaryBuilder"
    and fld :: "'a \<Rightarrow> error + byte list"
  assumes view_add: "view (add bb x) = emit (fld x) (view bb)"
begin

lemma sticky: "bb_err bb = Some e \<Longrightarrow> view (add bb x) = view bb"
  by (simp add: view_add)

lemma keeps_written: "\<exists>bs. bb_data (add bb x) = bb_data bb @ bs"
  using emit_prefix [of "fld x" "view bb"] by (metis fst_conv view_add view_def)

lemma fails: "bb_err bb = None \<Longrightarrow> fld x = Inl e \<Longrightarrow> view (add bb x) = (bb_data bb, Some e)"
  unfolding view_add by (simp add: view_def)

lemma writes: "bb_err bb = None \<Longrightarrow> fld x = Inr bs \<Longrightarrow> view (add bb x) = (bb_data bb @ bs, None)"
  unfolding view_add by (simp add: view_def)

end

lemma limit16m_value: "limit16m = 25"
  by (simp add: limit16m_def)

interpretation wRaw: field_writer AddBytes fld_raw
  by unfold_locales (auto simp: AddBytes_def fld_defs view_def append_data_def Let_def)

interpretation wBool: field_writer AddBool fld_bool
  by unfold_locales (auto simp: AddBool_def fld_defs enc_defs view_def append_data_def Let_def)

interpretation wU8: field_writer AddU8 fld_u8
  by unfold_locales (auto simp: AddU8_def fld_defs enc_defs view_def append_data_def Let_def)

interpretation wU16: field_writer AddU16 fld_u16
  by unfold_locales (auto simp: AddU16_def fld_defs view_def append_data_def Let_def)

interpretation wU24: field_writer AddU24 fld_u24
  by unfold_locales (auto simp: AddU24_def fld_defs le24_def view_def append_data_def Let_def)

interpretation wU32: field_writer AddU32 fld_u32
  by unfold_locales (auto simp: AddU32_def fld_defs view_def append_data_def Let_def)

interpretation wU64: field_writer AddU64 fld_u64
  by unfold_locales (auto simp: AddU64_def fld_defs view_def append_data_def Let_def)

interpretation wF32: field_writer AddF32 fld_f32
  by unfold_locales (auto simp: AddF32_def fld_defs view_def append_data_def Let_def)

interpretation wSignature: field_writer AddSignature fld_array
  by unfold_locales (auto simp: AddSignature_def fld_defs view_def append_data_def Let_def)

interpretation wShortTXID: field_writer AddShortTXID fld_array
  by unfold_locales (auto simp: AddShortTXID_def fld_defs view_def append_data_def Let_def)

lemmas view_base = wRaw.view_add wBool.view_add wU8.view_add wU16.view_add wU24.view_add
  wU32.view_add wU64.view_add wF32.view_add wSignature.view_add wShortTXID.view_add

declare view_base [go_view]

text \<open>The composed writes: their \<open>Grow\<close> is invisible and their parts add up.\<close>

lemma emit_emit: "emit (Inr b) (emit (Inr a) o1) = emit (Inr (a @ b)) o1"
  by (cases "(Inr a :: error + byte list, o1)" rule: emit.cases) auto

interpretation wMAC: field_writer AddMAC fld_array
  by unfold_locales (simp add: AddMAC_def go_view fld_defs)

interpretation wPubkey: field_writer AddPubkey fld_array
  by unfold_locales (simp add: AddPubkey_def go_view fld_defs)

interpretation wEllswiftPubkey: field_writer AddEllswiftPubkey fld_array
  by unfold_locales (simp add: AddEllswiftPubkey_def go_view fld_defs)

interpretation wU256: field_writer AddU256 fld_array
  by unfold_locales (simp add: AddU256_def go_view fld_defs)

interpretation wStr255: field_writer AddStr255 fld_str255
  by unfold_locales (auto simp: AddStr255_def go_view fld_defs enc_defs Let_def emit_emit, simp_all add: view_def)

interpretation wBin32: field_writer AddBin32 fld_bin32
  by unfold_locales (auto simp: AddBin32_def go_view fld_defs enc_defs Let_def emit_emit, simp_all add: view_def)

interpretation wBin255: field_writer AddBin255 fld_bin255
  by unfold_locales (auto simp: AddBin255_def go_view fld_defs enc_defs Let_def emit_emit, simp_all add: view_def)

interpretation wBin64K: field_writer AddBin64K fld_bin64k
  by unfold_locales
    (auto simp: AddBin64K_def go_view fld_defs enc_defs Let_def emit_emit limit64k_def, simp_all add: view_def)

interpretation wBin16M: field_writer AddBin16M fld_bin16m
  by unfold_locales
    (auto simp: AddBin16M_def go_view fld_defs enc_defs Let_def emit_emit limit16m_value, simp_all add: view_def)

lemmas view_composed = wMAC.view_add wPubkey.view_add wEllswiftPubkey.view_add wU256.view_add
  wStr255.view_add wBin32.view_add wBin255.view_add wBin64K.view_add wBin16M.view_add

declare view_composed [go_view]

section \<open>Capacity\<close>

definition cap_ok :: "BinaryBuilder \<Rightarrow> bool" where
  "cap_ok bb \<longleftrightarrow> length (bb_data bb) \<le> bb_cap bb"

lemma cap_ok_New [simp]: "cap_ok NewBinaryBuilder"
  by (simp add: cap_ok_def NewBinaryBuilder_def)

lemma cap_ok_append [simp]: "cap_ok bb \<Longrightarrow> cap_ok (append_data bb bs)"
  by (auto simp: cap_ok_def append_data_def Let_def)

lemma cap_ok_Grow [simp]: "cap_ok bb \<Longrightarrow> cap_ok (Grow bb n)"
  by (auto simp: cap_ok_def Grow_def Let_def nat_less_iff le_nat_iff)

lemma Grow_room:
  assumes "cap_ok bb"
  shows "int (length (bb_data bb)) + n \<le> int (bb_cap (Grow bb n))"
    and "bb_cap bb \<le> bb_cap (Grow bb n)"
  using assms by (auto simp: cap_ok_def Grow_def Let_def)

lemma Grow_append_keeps_cap:
  assumes "cap_ok bb" and "int (length bs) \<le> n"
  shows "bb_cap (append_data (Grow bb n) bs) = bb_cap (Grow bb n)"
  using Grow_room(1) [OF assms(1), of n] assms(2) by (auto simp: append_data_def Let_def)

end
