(* ===== verification/Binary_Reader.thy ===== *)
theory Binary_Reader
  imports Binary_Builder
begin

text \<open>
  \<open>BinaryReader\<close> of \<open>src/binary.go\<close>: the decoder of every message. The record has
  the bytes (a slice, possibly \<open>nil\<close>), the position and the sticky error. Every read
  takes the reader and returns the value and the reader the Go method leaves behind;
  \<open>None\<close> is a run-time panic. The reads of sequences are in \<open>Sequences\<close>.

  \<open>cursor pre s\<close> is a reader without error that has consumed \<open>pre\<close> and has
  \<open>s\<close> ahead of it; the lemmas say what each read does on a cursor, on every input:
  it returns the value and moves the cursor on, or panics, or fails with an error.
\<close>

section \<open>State and operations\<close>

record BinaryReader =
  br_data :: slice
  br_pos :: int
  br_err :: "error option"

definition NewBinaryReader :: "slice \<Rightarrow> BinaryReader" where
  "NewBinaryReader bin = \<lparr>br_data = bin, br_pos = 0, br_err = None\<rparr>"

definition Error :: "BinaryReader \<Rightarrow> error option" where
  "Error br = br_err br"

definition Remaining :: "BinaryReader \<Rightarrow> int" where
  "Remaining br = slice_len (br_data br) - br_pos br"

text \<open>
  \<open>br.pos + l\<close> is a 64-bit sum. A slice is never longer than \<open>2 ^ 63 - 1\<close>, so a sum
  within the slice does not wrap; one that reaches \<open>2 ^ 63\<close> turns negative, passes the
  end-of-data test and makes the slice expression panic.
\<close>

definition read :: "BinaryReader \<Rightarrow> int \<Rightarrow> (slice \<times> BinaryReader) option" where
  "read br l =
     (if br_err br \<noteq> None then Some (None, br)
      else let hi = br_pos br + l; n = slice_len (br_data br)
           in if hi > n then
                (if hi \<ge> 2 ^ 63 then None
                 else do {
                   let br = br\<lparr>br_err := Some Reader_EOF, br_pos := n\<rparr>;
                   b \<leftarrow> slice_range (br_data br) (br_pos br) n;
                   Some (b, br) })
              else do {
                b \<leftarrow> slice_range (br_data br) (br_pos br) hi;
                Some (b, br\<lparr>br_pos := hi\<rparr>) })"

definition ReadBool :: "BinaryReader \<Rightarrow> (bool \<times> BinaryReader) option" where
  "ReadBool br =
     (if br_err br \<noteq> None then Some (False, br)
      else do {
        (b, br) \<leftarrow> read br 1;
        case b of None \<Rightarrow> Some (False, br)
        | Some bs \<Rightarrow> do {
            b0 \<leftarrow> index bs 0;
            Some (if b0 = 1 then (True, br)
                  else if b0 = 0 then (False, br)
                  else (False, br\<lparr>br_err := Some ReadBool_invalid\<rparr>)) } })"

definition ReadU8 :: "BinaryReader \<Rightarrow> (u8 \<times> BinaryReader) option" where
  "ReadU8 br =
     (if br_err br \<noteq> None then Some (0, br)
      else do {
        (b, br) \<leftarrow> read br 1;
        case b of None \<Rightarrow> Some (0, br)
        | Some bs \<Rightarrow> do { b0 \<leftarrow> index bs 0; Some (b0, br) } })"

definition ReadU16 :: "BinaryReader \<Rightarrow> (u16 \<times> BinaryReader) option" where
  "ReadU16 br =
     (if br_err br \<noteq> None then Some (0, br)
      else do {
        (b, br) \<leftarrow> read br 2;
        case b of None \<Rightarrow> Some (0, br)
        | Some bs \<Rightarrow> do { v \<leftarrow> ble_Uint16 bs; Some (v, br) } })"

definition ReadU24 :: "BinaryReader \<Rightarrow> (u32 \<times> BinaryReader) option" where
  "ReadU24 br =
     (if br_err br \<noteq> None then Some (0, br)
      else do {
        (b, br) \<leftarrow> read br 3;
        case b of None \<Rightarrow> Some (0, br)
        | Some bs \<Rightarrow> do { v \<leftarrow> ble_Uint32 (bs @ [0]); Some (v, br) } })"

definition ReadU32 :: "BinaryReader \<Rightarrow> (u32 \<times> BinaryReader) option" where
  "ReadU32 br =
     (if br_err br \<noteq> None then Some (0, br)
      else do {
        (b, br) \<leftarrow> read br 4;
        case b of None \<Rightarrow> Some (0, br)
        | Some bs \<Rightarrow> do { v \<leftarrow> ble_Uint32 bs; Some (v, br) } })"

definition ReadU64 :: "BinaryReader \<Rightarrow> (u64 \<times> BinaryReader) option" where
  "ReadU64 br =
     (if br_err br \<noteq> None then Some (0, br)
      else do {
        (b, br) \<leftarrow> read br 8;
        case b of None \<Rightarrow> Some (0, br)
        | Some bs \<Rightarrow> do { v \<leftarrow> ble_Uint64 bs; Some (v, br) } })"

text \<open>\<open>U256.SetBytes\<close> of \<open>types.go\<close>: the receiver is unchanged on error.\<close>

definition SetBytes :: "U256 \<Rightarrow> byte list \<Rightarrow> U256 \<times> error option" where
  "SetBytes u b =
     (if length b \<noteq> 32 then (u, Some SetBytes_len_not_32) else (Array b, None))"

definition ReadU256 :: "BinaryReader \<Rightarrow> (U256 \<times> BinaryReader) option" where
  "ReadU256 br =
     (let h = zero_array
      in if br_err br \<noteq> None then Some (h, br)
         else do {
           (b, br) \<leftarrow> read br 32;
           case b of None \<Rightarrow> Some (h, br)
           | Some bs \<Rightarrow> (let (h, e) = SetBytes h bs in Some (h, br\<lparr>br_err := e\<rparr>)) })"

definition ReadF32 :: "BinaryReader \<Rightarrow> (float32 \<times> BinaryReader) option" where
  "ReadF32 br =
     (if br_err br \<noteq> None then Some (Float32frombits 0, br)
      else do {
        (b, br) \<leftarrow> read br 4;
        case b of None \<Rightarrow> Some (Float32frombits 0, br)
        | Some bs \<Rightarrow> do { v \<leftarrow> ble_Uint32 bs; Some (Float32frombits v, br) } })"

definition ReadStr255 :: "BinaryReader \<Rightarrow> (string \<times> BinaryReader) option" where
  "ReadStr255 br =
     (if br_err br \<noteq> None then Some ([], br)
      else do {
        (l, br) \<leftarrow> ReadU8 br;
        (b, br) \<leftarrow> read br (uint l);
        Some (bytes_string (slice_bytes b), br) })"

definition ReadBin32 :: "BinaryReader \<Rightarrow> (slice \<times> BinaryReader) option" where
  "ReadBin32 br =
     (if br_err br \<noteq> None then Some (None, br)
      else do {
        (l, br) \<leftarrow> ReadU8 br;
        if uint l > 32 then Some (None, br\<lparr>br_err := Some ReadBin32_len_gt_32\<rparr>)
        else read br (uint l) })"

definition ReadBin255 :: "BinaryReader \<Rightarrow> (slice \<times> BinaryReader) option" where
  "ReadBin255 br =
     (if br_err br \<noteq> None then Some (None, br)
      else do { (l, br) \<leftarrow> ReadU8 br; read br (uint l) })"

definition ReadBin64K :: "BinaryReader \<Rightarrow> (slice \<times> BinaryReader) option" where
  "ReadBin64K br =
     (if br_err br \<noteq> None then Some (None, br)
      else do { (l, br) \<leftarrow> ReadU16 br; read br (uint l) })"

definition ReadBin16M :: "BinaryReader \<Rightarrow> (slice \<times> BinaryReader) option" where
  "ReadBin16M br =
     (if br_err br \<noteq> None then Some (None, br)
      else do { (l, br) \<leftarrow> ReadU24 br; read br (uint l) })"

definition ReadBytes :: "BinaryReader \<Rightarrow> int \<Rightarrow> (slice \<times> BinaryReader) option" where
  "ReadBytes br len = (if br_err br \<noteq> None then Some (None, br) else read br len)"

definition ReadPubkey :: "BinaryReader \<Rightarrow> (Pubkey \<times> BinaryReader) option" where
  "ReadPubkey br =
     (if br_err br \<noteq> None then Some (zero_array, br)
      else do {
        (b, br) \<leftarrow> read br 32;
        a \<leftarrow> array_of_slice (slice_bytes b);
        Some (a, br) })"

definition ReadEllswiftPubkey :: "BinaryReader \<Rightarrow> (EllswiftPubkey \<times> BinaryReader) option" where
  "ReadEllswiftPubkey br =
     (if br_err br \<noteq> None then Some (zero_array, br)
      else do {
        (b, br) \<leftarrow> read br 64;
        a \<leftarrow> array_of_slice (slice_bytes b);
        Some (a, br) })"

definition ReadSignature :: "BinaryReader \<Rightarrow> (Signature \<times> BinaryReader) option" where
  "ReadSignature br =
     (if br_err br \<noteq> None then Some (zero_array, br)
      else do {
        (b, br) \<leftarrow> read br 64;
        a \<leftarrow> array_of_slice (slice_bytes b);
        Some (a, br) })"

text \<open>
  The \<open>io.Reader\<close> method: \<open>dest\<close> counts only by its length; the bytes copied into its
  front are returned with their number and the error.
\<close>

definition Read :: "BinaryReader \<Rightarrow> int \<Rightarrow> ((byte list \<times> error option) \<times> BinaryReader) option" where
  "Read br l =
     (if br_err br \<noteq> None then Some (([], br_err br), br)
      else if l \<le> 0 then Some (([], Some IO_EOF), br)
      else do {
        (b, br) \<leftarrow> read br l;
        Some ((take (nat l) (slice_bytes b), br_err br), br) })"

text \<open>The \<open>io.Seeker\<close> method; any other \<open>whence\<close> leaves the offset as it is.\<close>

definition Seek :: "BinaryReader \<Rightarrow> int \<Rightarrow> int \<Rightarrow> (int \<times> error option) \<times> BinaryReader" where
  "Seek br offset whence =
     (if br_err br \<noteq> None then ((0, br_err br), br)
      else let newPos = (if whence = 0 then offset
                         else if whence = 1 then signed_take_bit 63 (offset + br_pos br)
                         else if whence = 2 then signed_take_bit 63 (slice_len (br_data br) - offset)
                         else offset)
           in if newPos < 0 \<or> newPos > slice_len (br_data br)
              then ((0, Some Seek_out_of_bounds), br\<lparr>br_err := Some Seek_out_of_bounds\<rparr>)
              else ((newPos, None), br\<lparr>br_pos := newPos\<rparr>))"

section \<open>Cursors\<close>

definition cursor :: "byte list \<Rightarrow> byte list \<Rightarrow> BinaryReader" where
  "cursor pre s = \<lparr>br_data = Some (pre @ s), br_pos = int (length pre), br_err = None\<rparr>"

text \<open>The reader that a read past the end leaves behind.\<close>

definition exhausted :: "byte list \<Rightarrow> BinaryReader" where
  "exhausted d = \<lparr>br_data = Some d, br_pos = int (length d), br_err = Some Reader_EOF\<rparr>"

lemma cursor_err [simp]: "br_err (cursor pre s) = None"
  by (simp add: cursor_def)

lemma exhausted_err [simp]: "br_err (exhausted d) = Some Reader_EOF"
  by (simp add: exhausted_def)

lemma NewBinaryReader_cursor: "NewBinaryReader (Some d) = cursor [] d"
  by (simp add: NewBinaryReader_def cursor_def)

lemma cursor_inj [simp]: "cursor pre s = cursor pre' s' \<longleftrightarrow> pre = pre' \<and> s = s'"
  by (auto simp: cursor_def)

lemma Error_cursor [simp]: "Error (cursor pre s) = None"
  by (simp add: Error_def)

lemma read_cursor:
  "n \<le> length s \<Longrightarrow>
     read (cursor pre s) (int n) = Some (Some (take n s), cursor (pre @ take n s) (drop n s))"
  by (auto simp: read_def cursor_def slice_len_def slice_range_def Let_def)

lemma read_cursor_append [go_reader]:
  "l = int (length bs) \<Longrightarrow> read (cursor pre (bs @ s)) l = Some (Some bs, cursor (pre @ bs) s)"
  using read_cursor [of "length bs" "bs @ s" pre] by simp

lemma read_cursor_short:
  "length s < n \<Longrightarrow>
     read (cursor pre s) (int n) =
       (if 2 ^ 63 \<le> length pre + n then None else Some (Some [], exhausted (pre @ s)))"
  by (auto simp: read_def cursor_def exhausted_def slice_len_def slice_range_def Let_def
      simp del: of_nat_add simp add: of_nat_add [symmetric])

lemma read_err [simp]: "br_err r \<noteq> None \<Longrightarrow> read r l = Some (None, r)"
  by (simp add: read_def)

text \<open>After an error every read returns the zero value and leaves the reader alone.\<close>

lemma reads_err [simp]:
  assumes "br_err r \<noteq> None"
  shows "ReadBool r = Some (False, r)" "ReadU8 r = Some (0, r)" "ReadU16 r = Some (0, r)"
    "ReadU24 r = Some (0, r)" "ReadU32 r = Some (0, r)" "ReadU64 r = Some (0, r)"
    "ReadU256 r = Some (zero_array, r)" "ReadF32 r = Some (Float32frombits 0, r)"
    "ReadStr255 r = Some ([], r)" "ReadBin32 r = Some (None, r)" "ReadBin255 r = Some (None, r)"
    "ReadBin64K r = Some (None, r)" "ReadBin16M r = Some (None, r)" "ReadBytes r l = Some (None, r)"
    "ReadPubkey r = Some (zero_array, r)" "ReadEllswiftPubkey r = Some (zero_array, r)"
    "ReadSignature r = Some (zero_array, r)"
  using assms by (simp_all add: ReadBool_def ReadU8_def ReadU16_def ReadU24_def ReadU32_def
      ReadU64_def ReadU256_def ReadF32_def ReadStr255_def ReadBin32_def ReadBin255_def
      ReadBin64K_def ReadBin16M_def ReadBytes_def ReadPubkey_def ReadEllswiftPubkey_def
      ReadSignature_def)

text \<open>
  The width-\<open>n\<close> reads share one shape: take \<open>n\<close> bytes and convert them, where the
  conversion panics on the empty slice that the end of the data leaves.
\<close>

lemma fixed_read:
  assumes "f [] = None"
  shows "do { (b, br) \<leftarrow> read (cursor pre s) (int n);
              case b of None \<Rightarrow> Some (z, br) | Some bs \<Rightarrow> do { v \<leftarrow> f bs; Some (g v, br) } } =
         (if length s < n then None
          else do { v \<leftarrow> f (take n s); Some (g v, cursor (pre @ take n s) (drop n s)) })"
  using assms by (auto simp: read_cursor read_cursor_short not_less)

lemma ReadU8_cursor:
  "ReadU8 (cursor pre s) =
     (if length s < 1 then None else Some (hd s, cursor (pre @ take 1 s) (drop 1 s)))"
  using fixed_read [of "\<lambda>bs. index bs 0" pre s 1 0 "\<lambda>v. v"]
  by (cases s) (auto simp: ReadU8_def index_def)

lemma ReadU16_cursor:
  "ReadU16 (cursor pre s) =
     (if length s < 2 then None
      else Some (le_word (take 2 s), cursor (pre @ take 2 s) (drop 2 s)))"
  using fixed_read [of ble_Uint16 pre s 2 0 "\<lambda>v. v"] ble_Uint16_le_word [of "take 2 s" "[]"]
  by (auto simp: ReadU16_def)

lemma ReadU32_cursor:
  "ReadU32 (cursor pre s) =
     (if length s < 4 then None
      else Some (le_word (take 4 s), cursor (pre @ take 4 s) (drop 4 s)))"
  using fixed_read [of ble_Uint32 pre s 4 0 "\<lambda>v. v"] ble_Uint32_le_word [of "take 4 s" "[]"]
  by (auto simp: ReadU32_def)

lemma ReadU64_cursor:
  "ReadU64 (cursor pre s) =
     (if length s < 8 then None
      else Some (le_word (take 8 s), cursor (pre @ take 8 s) (drop 8 s)))"
  using fixed_read [of ble_Uint64 pre s 8 0 "\<lambda>v. v"] ble_Uint64_le_word [of "take 8 s" "[]"]
  by (auto simp: ReadU64_def)

lemma ReadU24_cursor:
  "ReadU24 (cursor pre s) =
     (if length s < 3 then None
      else Some (le_word (take 3 s @ [0]), cursor (pre @ take 3 s) (drop 3 s)))"
  using fixed_read [of "\<lambda>bs. ble_Uint32 (bs @ [0])" pre s 3 0 "\<lambda>v. v"]
    ble_Uint32_le_word [of "take 3 s @ [0]" "[]"]
  by (auto simp: ReadU24_def)

lemma ReadF32_cursor:
  "ReadF32 (cursor pre s) =
     (if length s < 4 then None
      else Some (Float32frombits (le_word (take 4 s)), cursor (pre @ take 4 s) (drop 4 s)))"
  using fixed_read [of ble_Uint32 pre s 4 "Float32frombits 0" Float32frombits]
    ble_Uint32_le_word [of "take 4 s" "[]"]
  by (auto simp: ReadF32_def)

lemma ReadBool_cursor:
  "ReadBool (cursor pre s) =
     (if length s < 1 then None
      else let r = cursor (pre @ take 1 s) (drop 1 s)
           in Some (if hd s = 1 then (True, r) else if hd s = 0 then (False, r)
                    else (False, r\<lparr>br_err := Some ReadBool_invalid\<rparr>)))"
  using read_cursor [of 1 s pre] read_cursor_short [of s 1 pre]
  by (cases s) (auto simp: ReadBool_def index_def)

text \<open>
  Reads into arrays. \<open>ReadU256\<close> turns a short read into the error of
  \<open>SetBytes\<close>; the three conversions to an array type panic.
\<close>

lemma ReadU256_cursor:
  "32 \<le> length s \<Longrightarrow>
     ReadU256 (cursor pre s) = Some (Array (take 32 s), cursor (pre @ take 32 s) (drop 32 s))"
  using read_cursor [of 32 s pre] by (auto simp: ReadU256_def SetBytes_def cursor_def)

lemma ReadU256_short:
  "length s < 32 \<Longrightarrow>
     ReadU256 (cursor pre s) =
       (if 2 ^ 63 \<le> length pre + 32 then None
        else Some (zero_array, (exhausted (pre @ s))\<lparr>br_err := Some SetBytes_len_not_32\<rparr>))"
  using read_cursor_short [of s 32 pre] by (auto simp: ReadU256_def SetBytes_def)

lemma array_read:
  "do { (b, br) \<leftarrow> read (cursor pre s) (int LENGTH('n));
        a \<leftarrow> array_of_slice (slice_bytes b);
        Some (a :: 'n::len byte_array, br) } =
   (if length s < LENGTH('n) then None
    else Some (Array (take LENGTH('n) s), cursor (pre @ take LENGTH('n) s) (drop LENGTH('n) s)))"
  by (auto simp: read_cursor read_cursor_short not_less slice_bytes_def array_of_slice_def)

lemma ReadPubkey_cursor:
  "ReadPubkey (cursor pre s) =
     (if length s < 32 then None else Some (Array (take 32 s), cursor (pre @ take 32 s) (drop 32 s)))"
  using array_read [of pre s, where ?'n = 32] by (simp add: ReadPubkey_def)

lemma ReadEllswiftPubkey_cursor:
  "ReadEllswiftPubkey (cursor pre s) =
     (if length s < 64 then None else Some (Array (take 64 s), cursor (pre @ take 64 s) (drop 64 s)))"
  using array_read [of pre s, where ?'n = 64] by (simp add: ReadEllswiftPubkey_def)

lemma ReadSignature_cursor:
  "ReadSignature (cursor pre s) =
     (if length s < 64 then None else Some (Array (take 64 s), cursor (pre @ take 64 s) (drop 64 s)))"
  using array_read [of pre s, where ?'n = 64] by (simp add: ReadSignature_def)

section \<open>The contract of a field: writing and reading it\<close>

text \<open>
  \<open>parsed fld ok r x r'\<close>: from a cursor \<open>r\<close>, exactly the bytes of the field
  \<open>x\<close> were consumed on the way to \<open>r'\<close>.
\<close>

definition parsed ::
  "('a \<Rightarrow> error + byte list) \<Rightarrow> ('a \<Rightarrow> bool) \<Rightarrow> BinaryReader \<Rightarrow> 'a \<Rightarrow> BinaryReader \<Rightarrow> bool" where
  "parsed fld ok r x r' \<longleftrightarrow>
     (\<forall>pre s. r = cursor pre s \<longrightarrow>
        (\<exists>bs t. ok x \<and> fld x = Inr bs \<and> s = bs @ t \<and> r' = cursor (pre @ bs) t))"

lemma parsed_cursor [simp]:
  "parsed fld ok (cursor pre s) x r' \<longleftrightarrow>
     (\<exists>bs t. ok x \<and> fld x = Inr bs \<and> s = bs @ t \<and> r' = cursor (pre @ bs) t)"
  by (auto simp: parsed_def)

locale field_codec = field_writer +
  fixes rd :: "BinaryReader \<Rightarrow> ('a \<times> BinaryReader) option"
    and dom_ok :: "'a \<Rightarrow> bool"
  assumes read_back:
      "dom_ok x \<Longrightarrow> fld x = Inr bs \<Longrightarrow>
         rd (cursor pre (bs @ s)) = Some (x, cursor (pre @ bs) s)"
    and read_inv:
      "rd (cursor pre s) = Some (x, r) \<Longrightarrow> br_err r = None \<Longrightarrow>
         \<exists>bs t. dom_ok x \<and> fld x = Inr bs \<and> s = bs @ t \<and> r = cursor (pre @ bs) t"
    and read_sticky: "br_err r \<noteq> None \<Longrightarrow> rd r = Some (x, r') \<Longrightarrow> br_err r' \<noteq> None"
begin

lemma read_clean: "rd r = Some (x, r') \<Longrightarrow> br_err r' = None \<Longrightarrow> br_err r = None"
  using read_sticky [of r x r'] by (cases "br_err r") auto

lemma read_parsedE:
  assumes "rd r = Some (x, r')" and "br_err r' = None"
  obtains "br_err r = None" and "parsed fld dom_ok r x r'"
proof -
  have "parsed fld dom_ok r x r'"
    unfolding parsed_def using read_inv assms by blast
  with read_clean [OF assms] show thesis by (rule that)
qed

lemma prefix_free:
  assumes "dom_ok x" "dom_ok y" "fld x = Inr a" "fld y = Inr b" "a @ s = b @ t"
  shows "x = y \<and> s = t"
proof -
  have "rd (cursor [] (a @ s)) = Some (x, cursor a s)"
    using read_back [OF assms(1,3), of "[]" s] by simp
  moreover have "rd (cursor [] (a @ s)) = Some (y, cursor b t)"
    unfolding assms(5) using read_back [OF assms(2,4), of "[]" t] by simp
  ultimately show ?thesis by simp
qed

end

text \<open>A field of constant width: bytes in, value out, with the two conversions inverse.\<close>

locale fixed_field = field_writer +
  fixes rd :: "BinaryReader \<Rightarrow> ('a \<times> BinaryReader) option"
    and dom_ok :: "'a \<Rightarrow> bool"
    and width :: nat
    and enc :: "'a \<Rightarrow> byte list"
    and dec :: "byte list \<Rightarrow> 'a"
  assumes fld_enc: "fld x = Inr (enc x)"
    and enc_width: "length (enc x) = width"
    and dec_enc: "dom_ok x \<Longrightarrow> dec (enc x) = x"
    and enc_dec: "length bs = width \<Longrightarrow> enc (dec bs) = bs \<and> dom_ok (dec bs)"
    and read_full: "width \<le> length s \<Longrightarrow>
          rd (cursor pre s) = Some (dec (take width s), cursor (pre @ take width s) (drop width s))"
    and read_short: "length s < width \<Longrightarrow> rd (cursor pre s) = Some (x, r) \<Longrightarrow> br_err r \<noteq> None"
    and sticky_read: "br_err r \<noteq> None \<Longrightarrow> rd r = Some (x, r') \<Longrightarrow> br_err r' \<noteq> None"
begin

lemma read_inv_fixed:
  assumes "rd (cursor pre s) = Some (x, r)" and "br_err r = None"
  shows "\<exists>bs t. dom_ok x \<and> fld x = Inr bs \<and> s = bs @ t \<and> r = cursor (pre @ bs) t"
proof -
  have n: "width \<le> length s"
    using assms read_short [of s pre x r] by (cases "width \<le> length s") auto
  with assms(1) have "x = dec (take width s)" "r = cursor (pre @ take width s) (drop width s)"
    using read_full [OF n, of pre] by simp_all
  then show ?thesis
    using n enc_dec [of "take width s"] by (auto simp: fld_enc)
qed

end

sublocale fixed_field \<subseteq> field_codec
proof unfold_locales
  fix x bs pre s assume "dom_ok x" "fld x = Inr bs"
  then show "rd (cursor pre (bs @ s)) = Some (x, cursor (pre @ bs) s)"
    using read_full [of "bs @ s" pre] enc_width [of x] dec_enc [of x] by (auto simp: fld_enc)
next
  fix pre s x r assume "rd (cursor pre s) = Some (x, r)" "br_err r = None"
  then show "\<exists>bs t. dom_ok x \<and> fld x = Inr bs \<and> s = bs @ t \<and> r = cursor (pre @ bs) t"
    by (rule read_inv_fixed)
next
  fix r x r' assume "br_err r \<noteq> None" "rd r = Some (x, r')"
  then show "br_err r' \<noteq> None" by (rule sticky_read)
qed

interpretation cU8: fixed_field AddU8 fld_u8 ReadU8 "\<lambda>_. True" 1 enc_u8 hd
  by unfold_locales
    (auto simp: fld_defs enc_defs ReadU8_cursor length_Suc_conv hd_append)

interpretation cU16: fixed_field AddU16 fld_u16 ReadU16 "\<lambda>_. True" 2 le16 le_word
  by unfold_locales (auto simp: fld_defs ReadU16_cursor le_le_word)

interpretation cU24: fixed_field AddU24 fld_u24 ReadU24 "\<lambda>u. u < 16777216" 3 le24 "\<lambda>bs. le_word (bs @ [0])"
proof unfold_locales
  fix x :: u32 assume "x < 16777216"
  then show "le_word (le24 x @ [0]) = x"
    using ble_le24 [of x] ble_Uint32_le_word [of "le24 x @ [0]" "[]"] by simp
next
  fix bs :: "byte list" assume "length bs = 3"
  then show "le24 (le_word (bs @ [0])) = bs \<and> (le_word (bs @ [0]) :: u32) < 16777216"
    using le24_inv [of bs] ble_Uint32_le_word [of "bs @ [0]" "[]"] by simp
qed (auto simp: fld_defs ReadU24_cursor)

interpretation cU32: fixed_field AddU32 fld_u32 ReadU32 "\<lambda>_. True" 4 le32 le_word
  by unfold_locales (auto simp: fld_defs ReadU32_cursor le_le_word)

interpretation cU64: fixed_field AddU64 fld_u64 ReadU64 "\<lambda>_. True" 8 le64 le_word
  by unfold_locales (auto simp: fld_defs ReadU64_cursor le_le_word)

interpretation cF32: fixed_field AddF32 fld_f32 ReadF32 "\<lambda>_. True" 4
    "\<lambda>f. le32 (Float32bits f)" "\<lambda>bs. Float32frombits (le_word bs)"
  by unfold_locales (auto simp: fld_defs ReadF32_cursor le_le_word)

interpretation cU256: fixed_field AddU256 fld_array ReadU256 "\<lambda>_. True" 32 array_bytes Array
  by unfold_locales (auto simp: fld_defs ReadU256_cursor ReadU256_short split: if_splits)

interpretation cPubkey: fixed_field AddPubkey fld_array ReadPubkey "\<lambda>_. True" 32 array_bytes Array
  by unfold_locales (auto simp: fld_defs ReadPubkey_cursor)

interpretation cEllswiftPubkey:
  fixed_field AddEllswiftPubkey fld_array ReadEllswiftPubkey "\<lambda>_. True" 64 array_bytes Array
  by unfold_locales (auto simp: fld_defs ReadEllswiftPubkey_cursor)

interpretation cSignature: fixed_field AddSignature fld_array ReadSignature "\<lambda>_. True" 64 array_bytes Array
  by unfold_locales (auto simp: fld_defs ReadSignature_cursor)

interpretation cBool: field_codec AddBool fld_bool ReadBool "\<lambda>_. True"
proof unfold_locales
  fix pre s x r assume "ReadBool (cursor pre s) = Some (x, r)" "br_err r = None"
  then show "\<exists>bs t. True \<and> fld_bool x = Inr bs \<and> s = bs @ t \<and> r = cursor (pre @ bs) t"
    by (cases s) (auto simp: ReadBool_cursor fld_defs enc_defs Let_def split: if_splits)
qed (auto simp: fld_defs enc_defs ReadBool_cursor)

section \<open>Length-prefixed fields\<close>

lemma read_ok_range:
  assumes "read (cursor pre s) (int n) = Some (b, r)" and "br_err r = None"
  shows "n \<le> length s \<and> b = Some (take n s) \<and> r = cursor (pre @ take n s) (drop n s)"
  using assms by (cases "n \<le> length s") (auto simp: read_cursor read_cursor_short split: if_splits)

lemma uint_of_nat_small:
  "n \<le> 255 \<Longrightarrow> uint (word_of_nat n :: u8) = int n"
  "m \<le> 65535 \<Longrightarrow> uint (word_of_nat m :: u16) = int m"
  "k < 16777216 \<Longrightarrow> uint (word_of_nat k :: u32) = int k"
  by (simp_all add: unsigned_of_nat take_bit_nat_eq_self uint_nat)

text \<open>A slice result read as the bytes it holds, as the messages use it.\<close>

definition bytes_result :: "(slice \<times> BinaryReader) option \<Rightarrow> (byte list \<times> BinaryReader) option" where
  "bytes_result x = map_option (\<lambda>(b, r). (slice_bytes b, r)) x"

lemma bytes_result_simps [simp]:
  "bytes_result None = None" "bytes_result (Some (b, r)) = Some (slice_bytes b, r)"
  by (simp_all add: bytes_result_def)

lemma bytes_result_Some:
  "bytes_result x = Some (bs, r) \<longleftrightarrow> (\<exists>b. x = Some (b, r) \<and> bs = slice_bytes b)"
  by (auto simp: bytes_result_def)

lemma slice_bytes_simps [simp]: "slice_bytes None = []" "slice_bytes (Some bs) = bs"
  by (simp_all add: slice_bytes_def)

lemma ReadBin255_enc [go_reader]:
  "length bs \<le> 255 \<Longrightarrow>
     ReadBin255 (cursor pre (enc_bin8 bs @ s)) = Some (Some bs, cursor (pre @ enc_bin8 bs) s)"
  using read_cursor [of "length bs" "bs @ s" "pre @ [word_of_nat (length bs)]"]
  by (simp add: ReadBin255_def ReadU8_cursor enc_bin8_def uint_of_nat_small)

lemma ReadBin32_enc [go_reader]:
  "length bs \<le> 32 \<Longrightarrow>
     ReadBin32 (cursor pre (enc_bin8 bs @ s)) = Some (Some bs, cursor (pre @ enc_bin8 bs) s)"
  using read_cursor [of "length bs" "bs @ s" "pre @ [word_of_nat (length bs)]"]
  by (simp add: ReadBin32_def ReadU8_cursor enc_bin8_def uint_of_nat_small)

lemma ReadStr255_enc [go_reader]:
  "length str \<le> 255 \<Longrightarrow>
     ReadStr255 (cursor pre (enc_bin8 (string_bytes str) @ s)) =
       Some (str, cursor (pre @ enc_bin8 (string_bytes str)) s)"
  using read_cursor [of "length str" "string_bytes str @ s" "pre @ [word_of_nat (length str)]"]
  by (simp add: ReadStr255_def ReadU8_cursor enc_bin8_def uint_of_nat_small)

lemma ReadBin64K_enc [go_reader]:
  "length bs \<le> 65535 \<Longrightarrow>
     ReadBin64K (cursor pre (enc_bin16 bs @ s)) = Some (Some bs, cursor (pre @ enc_bin16 bs) s)"
  using read_cursor [of "length bs" "bs @ s" "pre @ le16 (word_of_nat (length bs))"]
  by (simp add: ReadBin64K_def ReadU16_cursor enc_bin16_def uint_of_nat_small)

lemma ReadBin16M_enc [go_reader]:
  assumes "length bs < 16777216"
  shows "ReadBin16M (cursor pre (enc_bin24 bs @ s)) = Some (Some bs, cursor (pre @ enc_bin24 bs) s)"
proof -
  have "(word_of_nat (length bs) :: u32) < 16777216"
    using assms by (simp add: word_less_nat_alt unat_of_nat take_bit_nat_eq_self)
  then show ?thesis
    using read_cursor [of "length bs" "bs @ s" "pre @ le24 (word_of_nat (length bs))"] assms
      cU24.read_back [of "word_of_nat (length bs)"]
    by (simp add: ReadBin16M_def enc_bin24_def uint_of_nat_small fld_defs)
qed

lemma read_uint_clean:
  fixes l :: "'a::len word"
  assumes "read (cursor pre s) (uint l) = Some (b, r)" and "br_err r = None"
  shows "\<exists>bs t. b = Some bs \<and> length bs = unat l \<and> s = bs @ t \<and> r = cursor (pre @ bs) t"
proof -
  have "read (cursor pre s) (int (unat l)) = Some (b, r)"
    using assms(1) by simp
  from read_ok_range [OF this assms(2)] show ?thesis
    by (intro exI [of _ "take (unat l) s"] exI [of _ "drop (unat l) s"]) simp
qed

lemma prefixed8_inv:
  assumes "ReadU8 (cursor pre s) = Some (l, r1)" and "read r1 (uint l) = Some (b, r)"
    and "br_err r = None"
  shows "\<exists>bs t. b = Some bs \<and> length bs = unat l \<and> s = enc_bin8 bs @ t \<and> r = cursor (pre @ enc_bin8 bs) t"
proof (cases s)
  case Nil
  with assms(1) show ?thesis by (simp add: ReadU8_cursor)
next
  case (Cons a u)
  with assms(1) have "l = a" "r1 = cursor (pre @ [a]) u"
    by (auto simp: ReadU8_cursor)
  with read_uint_clean [of "pre @ [a]" u l b r] assms(2,3) Cons show ?thesis
    by (auto simp: enc_bin8_def)
qed

lemma prefixed16_inv:
  assumes "ReadU16 (cursor pre s) = Some (l, r1)" and "read r1 (uint l) = Some (b, r)"
    and "br_err r = None"
  shows "\<exists>bs t. b = Some bs \<and> length bs = unat l \<and> s = enc_bin16 bs @ t \<and> r = cursor (pre @ enc_bin16 bs) t"
proof -
  from assms(1) have "s = le16 l @ drop 2 s" "r1 = cursor (pre @ le16 l) (drop 2 s)"
    by (auto simp: ReadU16_cursor le_le_word split: if_splits)
  with read_uint_clean [of "pre @ le16 l" "drop 2 s" l b r] assms(2,3) show ?thesis
    by (auto simp: enc_bin16_def)
qed

lemma prefixed24_inv:
  assumes "ReadU24 (cursor pre s) = Some (l, r1)" and "read r1 (uint l) = Some (b, r)"
    and "br_err r = None"
  shows "\<exists>bs t. b = Some bs \<and> length bs = unat l \<and> unat l < 16777216 \<and> s = enc_bin24 bs @ t \<and>
    r = cursor (pre @ enc_bin24 bs) t"
proof -
  have "br_err r1 = None"
    using assms(2,3) by (cases "br_err r1") auto
  with assms(1) obtain u where u: "l < 16777216" "s = le24 l @ u" "r1 = cursor (pre @ le24 l) u"
    using cU24.read_inv [of pre s l r1] by (auto simp: fld_defs)
  then have "unat l < 16777216" by (simp add: word_less_nat_alt)
  with read_uint_clean [of "pre @ le24 l" u l b r] assms(2,3) u show ?thesis
    by (auto simp: enc_bin24_def)
qed

lemma unat_u8_le: "unat (l :: u8) \<le> 255"
  using unsigned_less [of l, where ?'a = nat] by simp

lemma unat_u16_le: "unat (l :: u16) \<le> 65535"
  using unsigned_less [of l, where ?'a = nat] by simp

interpretation cStr255: field_codec AddStr255 fld_str255 ReadStr255 "\<lambda>_. True"
proof unfold_locales
  fix pre s x r assume *: "ReadStr255 (cursor pre s) = Some (x, r)" "br_err r = None"
  then obtain l r1 b where "ReadU8 (cursor pre s) = Some (l, r1)" "read r1 (uint l) = Some (b, r)"
    "x = bytes_string (slice_bytes b)"
    by (auto simp: ReadStr255_def bind_eq_Some_conv)
  with prefixed8_inv [of pre s l r1 b r] *(2) unat_u8_le [of l]
  show "\<exists>bs t. True \<and> fld_str255 x = Inr bs \<and> s = bs @ t \<and> r = cursor (pre @ bs) t"
    by (auto simp: fld_defs)
qed (auto simp: fld_defs go_reader split: if_splits)

interpretation cBin255: field_codec AddBin255 fld_bin255 "\<lambda>r. bytes_result (ReadBin255 r)" "\<lambda>_. True"
proof unfold_locales
  fix pre s x r assume *: "bytes_result (ReadBin255 (cursor pre s)) = Some (x, r)" "br_err r = None"
  then obtain l r1 b where "ReadU8 (cursor pre s) = Some (l, r1)" "read r1 (uint l) = Some (b, r)"
    "x = slice_bytes b"
    by (auto simp: ReadBin255_def bind_eq_Some_conv bytes_result_Some)
  with prefixed8_inv [of pre s l r1 b r] *(2) unat_u8_le [of l]
  show "\<exists>bs t. True \<and> fld_bin255 x = Inr bs \<and> s = bs @ t \<and> r = cursor (pre @ bs) t"
    by (auto simp: fld_defs)
qed (auto simp: fld_defs go_reader split: if_splits)

interpretation cBin32: field_codec AddBin32 fld_bin32 "\<lambda>r. bytes_result (ReadBin32 r)" "\<lambda>_. True"
proof unfold_locales
  fix pre s x r assume *: "bytes_result (ReadBin32 (cursor pre s)) = Some (x, r)" "br_err r = None"
  then obtain l r1 b where "ReadU8 (cursor pre s) = Some (l, r1)" "read r1 (uint l) = Some (b, r)"
    "x = slice_bytes b" and "uint l \<le> 32"
    by (auto simp: ReadBin32_def bind_eq_Some_conv bytes_result_Some split: if_splits)
  moreover from \<open>uint l \<le> 32\<close> have "unat l \<le> 32"
    using nat_mono [of "uint l" 32] by simp
  ultimately show "\<exists>bs t. True \<and> fld_bin32 x = Inr bs \<and> s = bs @ t \<and> r = cursor (pre @ bs) t"
    using prefixed8_inv [of pre s l r1 b r] *(2) by (auto simp: fld_defs)
qed (auto simp: fld_defs go_reader split: if_splits)

interpretation cBin64K: field_codec AddBin64K fld_bin64k "\<lambda>r. bytes_result (ReadBin64K r)" "\<lambda>_. True"
proof unfold_locales
  fix pre s x r assume *: "bytes_result (ReadBin64K (cursor pre s)) = Some (x, r)" "br_err r = None"
  then obtain l r1 b where "ReadU16 (cursor pre s) = Some (l, r1)" "read r1 (uint l) = Some (b, r)"
    "x = slice_bytes b"
    by (auto simp: ReadBin64K_def bind_eq_Some_conv bytes_result_Some)
  with prefixed16_inv [of pre s l r1 b r] *(2) unat_u16_le [of l]
  show "\<exists>bs t. True \<and> fld_bin64k x = Inr bs \<and> s = bs @ t \<and> r = cursor (pre @ bs) t"
    by (auto simp: fld_defs)
qed (auto simp: fld_defs go_reader split: if_splits)

section \<open>Properties\<close>

text \<open>Reading back what was written: the value, and the reader right behind it.\<close>

definition reads_back ::
    "(BinaryBuilder \<Rightarrow> 'a \<Rightarrow> BinaryBuilder) \<Rightarrow> (BinaryReader \<Rightarrow> ('a \<times> BinaryReader) option) \<Rightarrow>
       ('a \<Rightarrow> bool) \<Rightarrow> bool" where
  "reads_back add rd ok \<longleftrightarrow>
     (\<forall>x b pre s. ok x \<longrightarrow> Bytes (add NewBinaryBuilder x) = (b, None) \<longrightarrow>
        rd (cursor pre (b @ s)) = Some (x, cursor (pre @ b) s))"

context field_codec
begin

lemma codec_reads_back: "reads_back add rd dom_ok"
  unfolding reads_back_def
proof (intro allI impI)
  fix x b pre s assume "dom_ok x" "Bytes (add NewBinaryBuilder x) = (b, None)"
  then show "rd (cursor pre (b @ s)) = Some (x, cursor (pre @ b) s)"
    by (cases "fld x") (auto simp: Bytes_view view_add intro: read_back)
qed

end

text \<open>
  C10. Every primitive data type of the protocol is read back from its encoding, whatever
  follows it, and the reader stops exactly behind it; a U24 must fit in its three bytes.
\<close>

theorem primitive_roundtrip:
  "reads_back AddBool ReadBool (\<lambda>_. True) \<and> reads_back AddU8 ReadU8 (\<lambda>_. True) \<and>
   reads_back AddU16 ReadU16 (\<lambda>_. True) \<and> reads_back AddU24 ReadU24 (\<lambda>u. u < 16777216) \<and>
   reads_back AddU32 ReadU32 (\<lambda>_. True) \<and> reads_back AddU64 ReadU64 (\<lambda>_. True) \<and>
   reads_back AddF32 ReadF32 (\<lambda>_. True) \<and> reads_back AddU256 ReadU256 (\<lambda>_. True) \<and>
   reads_back AddPubkey ReadPubkey (\<lambda>_. True) \<and>
   reads_back AddEllswiftPubkey ReadEllswiftPubkey (\<lambda>_. True) \<and>
   reads_back AddSignature ReadSignature (\<lambda>_. True) \<and> reads_back AddStr255 ReadStr255 (\<lambda>_. True) \<and>
   reads_back AddBin32 (\<lambda>r. bytes_result (ReadBin32 r)) (\<lambda>_. True) \<and>
   reads_back AddBin255 (\<lambda>r. bytes_result (ReadBin255 r)) (\<lambda>_. True) \<and>
   reads_back AddBin64K (\<lambda>r. bytes_result (ReadBin64K r)) (\<lambda>_. True)"
  by (intro conjI cBool.codec_reads_back cU8.codec_reads_back cU16.codec_reads_back
      cU24.codec_reads_back cU32.codec_reads_back cU64.codec_reads_back cF32.codec_reads_back
      cU256.codec_reads_back cPubkey.codec_reads_back cEllswiftPubkey.codec_reads_back
      cSignature.codec_reads_back cStr255.codec_reads_back cBin32.codec_reads_back
      cBin255.codec_reads_back cBin64K.codec_reads_back)

text \<open>
  C35. On truncated input that is not \<open>nil\<close>, the fixed-width reads of integers, floats,
  booleans, keys and signatures do not report the end of the data: they panic.
\<close>

theorem truncated_read_panics:
  "(s = [] \<longrightarrow> ReadBool (cursor pre s) = None \<and> ReadU8 (cursor pre s) = None) \<and>
   (length s < 2 \<longrightarrow> ReadU16 (cursor pre s) = None) \<and>
   (length s < 3 \<longrightarrow> ReadU24 (cursor pre s) = None) \<and>
   (length s < 4 \<longrightarrow> ReadU32 (cursor pre s) = None \<and> ReadF32 (cursor pre s) = None) \<and>
   (length s < 8 \<longrightarrow> ReadU64 (cursor pre s) = None) \<and>
   (length s < 32 \<longrightarrow> ReadPubkey (cursor pre s) = None) \<and>
   (length s < 64 \<longrightarrow> ReadEllswiftPubkey (cursor pre s) = None \<and> ReadSignature (cursor pre s) = None)"
  by (simp add: ReadBool_cursor ReadU8_cursor ReadU16_cursor ReadU24_cursor ReadU32_cursor
      ReadF32_cursor ReadU64_cursor ReadPubkey_cursor ReadEllswiftPubkey_cursor
      ReadSignature_cursor)

theorem truncated_read_panics_witness: "ReadU32 (cursor [1] [2, 3, 4]) = None"
  using truncated_read_panics [of "[2, 3, 4]" "[1]"] by simp

text \<open>
  \<open>Seek\<close> from the end counts backwards: an offset \<open>k\<close> moves to \<open>k\<close> bytes before
  the end, and the negative offset with which the \<open>io.Seeker\<close> contract expresses that
  fails.
\<close>

lemma Seek_from_end:
  assumes "k \<le> length (pre @ s)" and "length (pre @ s) < 2 ^ 62" and "0 < m" and "m < 2 ^ 62"
  shows "Seek (cursor pre s) (int k) 2 =
      ((int (length (pre @ s) - k), None),
       cursor (take (length (pre @ s) - k) (pre @ s)) (drop (length (pre @ s) - k) (pre @ s))) \<and>
    fst (Seek (cursor pre s) (- int m) 2) = (0, Some Seek_out_of_bounds)"
proof -
  let ?n = "length (pre @ s)"
  have "signed_take_bit 63 (int ?n - int k) = int ?n - int k"
    "signed_take_bit 63 (int ?n + int m) = int ?n + int m"
    using assms by (auto intro!: signed_take_bit_int_eq_self)
  then show ?thesis
    using assms(1,3) by (auto simp: Seek_def cursor_def slice_len_def Let_def of_nat_diff
        simp del: take_append drop_append)
qed

end
