(* ===== verification/Sequences.thy ===== *)
theory Sequences
  imports Binary_Reader
begin

text \<open>
  The \<open>Sequence\<close> types of \<open>src/types.go\<close> (\<open>SEQ0_N[T]\<close> and \<open>OPTION[T]\<close> on
  the wire) and the builder and reader methods of \<open>src/binary.go\<close> that use them. The
  interface value is a datatype with one constructor per implementing type; its method
  calls dispatch on the constructor. A \<open>nil\<close> interface value is \<open>None\<close>.
\<close>

section \<open>The sequence types\<close>

datatype Sequence =
    BoolSequence "bool list" | U8Sequence "u8 list" | U16Sequence "u16 list"
  | U24Sequence "u32 list" | U32Sequence "u32 list" | U64Sequence "u64 list"
  | U256Sequence "U256 list"

fun Sequence_Len :: "Sequence \<Rightarrow> nat" where
  "Sequence_Len (BoolSequence a) = length a"
| "Sequence_Len (U8Sequence a) = length a"
| "Sequence_Len (U16Sequence a) = length a"
| "Sequence_Len (U24Sequence a) = length a"
| "Sequence_Len (U32Sequence a) = length a"
| "Sequence_Len (U64Sequence a) = length a"
| "Sequence_Len (U256Sequence a) = length a"

fun Sequence_Encode :: "Sequence \<Rightarrow> byte list \<times> error option" where
  "Sequence_Encode (BoolSequence a) =
     Bytes (foldl AddBool (Grow NewBinaryBuilder (int (length a) * 4)) a)"
| "Sequence_Encode (U8Sequence a) =
     Bytes (foldl AddU8 (Grow NewBinaryBuilder (int (length a) * 4)) a)"
| "Sequence_Encode (U16Sequence a) =
     Bytes (foldl AddU16 (Grow NewBinaryBuilder (int (length a) * 4)) a)"
| "Sequence_Encode (U24Sequence a) =
     Bytes (foldl AddU24 (Grow NewBinaryBuilder (int (length a) * 4)) a)"
| "Sequence_Encode (U32Sequence a) =
     Bytes (foldl AddU32 (Grow NewBinaryBuilder (int (length a) * 4)) a)"
| "Sequence_Encode (U64Sequence a) =
     Bytes (foldl AddU64 (Grow NewBinaryBuilder (int (length a) * 8)) a)"
| "Sequence_Encode (U256Sequence a) =
     Bytes (foldl (\<lambda>out v. AddBytes out (array_bytes v))
       (Grow NewBinaryBuilder (int (length a) * 32)) a)"

text \<open>\<open>for range l { a = append(a, br.ReadT()) }\<close>\<close>

fun read_n :: "(BinaryReader \<Rightarrow> ('a \<times> BinaryReader) option) \<Rightarrow> nat \<Rightarrow> BinaryReader \<Rightarrow>
    ('a list \<times> BinaryReader) option" where
  "read_n rd 0 br = Some ([], br)"
| "read_n rd (Suc l) br = do {
     (v, br) \<leftarrow> rd br;
     (a, br) \<leftarrow> read_n rd l br;
     Some (v # a, br) }"

fun Sequence_Decode :: "Sequence \<Rightarrow> nat \<Rightarrow> BinaryReader \<Rightarrow>
    ((Sequence \<times> error option) \<times> BinaryReader) option" where
  "Sequence_Decode (BoolSequence _) l br = do {
     (a, br) \<leftarrow> read_n ReadBool l br; Some ((BoolSequence a, Error br), br) }"
| "Sequence_Decode (U8Sequence _) l br = do {
     (a, br) \<leftarrow> read_n ReadU8 l br; Some ((U8Sequence a, Error br), br) }"
| "Sequence_Decode (U16Sequence _) l br = do {
     (a, br) \<leftarrow> read_n ReadU16 l br; Some ((U16Sequence a, Error br), br) }"
| "Sequence_Decode (U24Sequence _) l br = do {
     (a, br) \<leftarrow> read_n ReadU24 l br; Some ((U24Sequence a, Error br), br) }"
| "Sequence_Decode (U32Sequence _) l br = do {
     (a, br) \<leftarrow> read_n ReadU32 l br; Some ((U32Sequence a, Error br), br) }"
| "Sequence_Decode (U64Sequence _) l br = do {
     (a, br) \<leftarrow> read_n ReadU64 l br; Some ((U64Sequence a, Error br), br) }"
| "Sequence_Decode (U256Sequence _) l br = do {
     (a, br) \<leftarrow> read_n ReadU256 l br; Some ((U256Sequence a, Error br), br) }"

section \<open>Builder and reader methods for sequences\<close>

definition AddSeq1 :: "BinaryBuilder \<Rightarrow> Sequence \<Rightarrow> BinaryBuilder" where
  "AddSeq1 bb things =
     (if bb_err bb \<noteq> None then bb
      else let l = Sequence_Len things
           in if 1 < l then bb\<lparr>bb_err := Some AddSeq1_len_gt_1\<rparr>
              else let (enc, err) = Sequence_Encode things
                   in if err \<noteq> None then bb\<lparr>bb_err := err\<rparr>
                      else AddBytes (AddU8 (Grow bb (int (length enc) + 1)) (word_of_nat l)) enc)"

definition AddOptionT :: "BinaryBuilder \<Rightarrow> Sequence \<Rightarrow> BinaryBuilder" where
  "AddOptionT bb things = AddSeq1 bb things"

definition AddSeq255 :: "BinaryBuilder \<Rightarrow> Sequence \<Rightarrow> BinaryBuilder" where
  "AddSeq255 bb things =
     (if bb_err bb \<noteq> None then bb
      else let l = Sequence_Len things
           in if 255 < l then bb\<lparr>bb_err := Some AddSeq255_len_gt_255\<rparr>
              else let (enc, err) = Sequence_Encode things
                   in if err \<noteq> None then bb\<lparr>bb_err := err\<rparr>
                      else AddBytes (AddU8 (Grow bb (int (length enc) + 1)) (word_of_nat l)) enc)"

definition AddSeq64K :: "BinaryBuilder \<Rightarrow> Sequence \<Rightarrow> BinaryBuilder" where
  "AddSeq64K bb things =
     (if bb_err bb \<noteq> None then bb
      else let l = Sequence_Len things
           in if 65535 < l then bb\<lparr>bb_err := Some AddSeq64K_len_gt_65535\<rparr>
              else let (enc, err) = Sequence_Encode things
                   in if err \<noteq> None then bb\<lparr>bb_err := err\<rparr>
                      else AddBytes (AddU16 (Grow bb (int (length enc) + 2)) (word_of_nat l)) enc)"

definition ReadSeq1 :: "BinaryReader \<Rightarrow> Sequence \<Rightarrow> (Sequence option \<times> BinaryReader) option" where
  "ReadSeq1 br dest =
     (if br_err br \<noteq> None then Some (None, br)
      else do {
        (l, br) \<leftarrow> ReadU8 br;
        if l > 1 then Some (None, br\<lparr>br_err := Some ReadSeq1_len_gt_1\<rparr>)
        else do {
          ((n, err), br) \<leftarrow> Sequence_Decode dest (unat l) br;
          Some (if err \<noteq> None then (None, br\<lparr>br_err := err\<rparr>) else (Some n, br)) } })"

definition ReadOptionT :: "BinaryReader \<Rightarrow> Sequence \<Rightarrow> (Sequence option \<times> BinaryReader) option" where
  "ReadOptionT br dest = ReadSeq1 br dest"

definition ReadSeq255 :: "BinaryReader \<Rightarrow> Sequence \<Rightarrow> (Sequence option \<times> BinaryReader) option" where
  "ReadSeq255 br dest =
     (if br_err br \<noteq> None then Some (None, br)
      else do {
        (l, br) \<leftarrow> ReadU8 br;
        ((n, err), br) \<leftarrow> Sequence_Decode dest (unat l) br;
        Some (if err \<noteq> None then (None, br\<lparr>br_err := err\<rparr>) else (Some n, br)) })"

definition ReadSeq64K :: "BinaryReader \<Rightarrow> Sequence \<Rightarrow> (Sequence option \<times> BinaryReader) option" where
  "ReadSeq64K br dest =
     (if br_err br \<noteq> None then Some (None, br)
      else do {
        (l, br) \<leftarrow> ReadU16 br;
        ((n, err), br) \<leftarrow> Sequence_Decode dest (unat l) br;
        Some (if err \<noteq> None then (None, br\<lparr>br_err := err\<rparr>) else (Some n, br)) })"

text \<open>The type assertions \<open>x.(U32Sequence)\<close> and \<open>x.(U256Sequence)\<close>: any other value,
  \<open>nil\<close> included, panics.\<close>

fun as_U32Sequence :: "Sequence option \<Rightarrow> u32 list option" where
  "as_U32Sequence (Some (U32Sequence a)) = Some a"
| "as_U32Sequence _ = None"

fun as_U256Sequence :: "Sequence option \<Rightarrow> U256 list option" where
  "as_U256Sequence (Some (U256Sequence a)) = Some a"
| "as_U256Sequence _ = None"

section \<open>Writing sequences\<close>

text \<open>The concatenated elements, the reference for \<open>Encode\<close>.\<close>

fun seq_bytes :: "Sequence \<Rightarrow> byte list" where
  "seq_bytes (BoolSequence a) = concat (map enc_bool a)"
| "seq_bytes (U8Sequence a) = concat (map enc_u8 a)"
| "seq_bytes (U16Sequence a) = concat (map le16 a)"
| "seq_bytes (U24Sequence a) = concat (map le24 a)"
| "seq_bytes (U32Sequence a) = concat (map le32 a)"
| "seq_bytes (U64Sequence a) = concat (map le64 a)"
| "seq_bytes (U256Sequence a) = concat (map array_bytes a)"

context field_writer
begin

lemma view_foldl:
  assumes "\<And>x. fld x = Inr (enc x)"
  shows "view (foldl add bb xs) = emit (Inr (concat (map enc xs))) (view bb)"
proof (induction xs arbitrary: bb)
  case Nil
  then show ?case by (cases "(Inr [] :: error + byte list, view bb)" rule: emit.cases) auto
next
  case (Cons x xs)
  then show ?case by (simp add: view_add assms emit_emit)
qed

end

interpretation wRaw256: field_writer "\<lambda>out (v :: U256). AddBytes out (array_bytes v)" fld_array
  by unfold_locales (simp add: go_view fld_defs)

lemma Sequence_Encode_eq: "Sequence_Encode q = (seq_bytes q, None)"
  by (cases q) (simp_all add: Bytes_view
      wBool.view_foldl [where enc = enc_bool, OF fld_bool_def]
      wU8.view_foldl [where enc = enc_u8, OF fld_u8_def]
      wU16.view_foldl [where enc = le16, OF fld_u16_def]
      wU24.view_foldl [where enc = le24, OF fld_u24_def]
      wU32.view_foldl [where enc = le32, OF fld_u32_def]
      wU64.view_foldl [where enc = le64, OF fld_u64_def]
      wRaw256.view_foldl [where enc = array_bytes, OF fld_array_def])

definition fld_seq1 :: "Sequence \<Rightarrow> error + byte list" where
  "fld_seq1 q = (if 1 < Sequence_Len q then Inl AddSeq1_len_gt_1
     else Inr (word_of_nat (Sequence_Len q) # seq_bytes q))"

definition fld_seq255 :: "Sequence \<Rightarrow> error + byte list" where
  "fld_seq255 q = (if 255 < Sequence_Len q then Inl AddSeq255_len_gt_255
     else Inr (word_of_nat (Sequence_Len q) # seq_bytes q))"

definition fld_seq64k :: "Sequence \<Rightarrow> error + byte list" where
  "fld_seq64k q = (if 65535 < Sequence_Len q then Inl AddSeq64K_len_gt_65535
     else Inr (le16 (word_of_nat (Sequence_Len q)) @ seq_bytes q))"

interpretation wSeq1: field_writer AddSeq1 fld_seq1
  by unfold_locales (auto simp: AddSeq1_def Sequence_Encode_eq go_view fld_defs enc_defs Let_def
      emit_emit fld_seq1_def, simp_all add: view_def)

interpretation wSeq255: field_writer AddSeq255 fld_seq255
  by unfold_locales (auto simp: AddSeq255_def Sequence_Encode_eq go_view fld_defs enc_defs Let_def
      emit_emit fld_seq255_def, simp_all add: view_def)

interpretation wSeq64K: field_writer AddSeq64K fld_seq64k
  by unfold_locales (auto simp: AddSeq64K_def Sequence_Encode_eq go_view fld_defs Let_def
      emit_emit fld_seq64k_def, simp_all add: view_def)

lemmas view_seq [go_view] = wSeq1.view_add wSeq255.view_add wSeq64K.view_add

section \<open>Reading sequences\<close>

context field_codec
begin

lemma read_n_back:
  assumes "\<And>x. x \<in> set xs \<Longrightarrow> dom_ok x \<and> fld x = Inr (enc x)"
  shows "read_n rd (length xs) (cursor pre (concat (map enc xs) @ s)) =
    Some (xs, cursor (pre @ concat (map enc xs)) s)"
  using assms
proof (induction xs arbitrary: pre)
  case Nil
  then show ?case by simp
next
  case (Cons x xs)
  then have "rd (cursor pre (enc x @ concat (map enc xs) @ s)) =
      Some (x, cursor (pre @ enc x) (concat (map enc xs) @ s))"
    by (intro read_back) simp_all
  with Cons show ?case by simp
qed

lemma read_n_sticky: "br_err r \<noteq> None \<Longrightarrow> read_n rd n r = Some (xs, r') \<Longrightarrow> br_err r' \<noteq> None"
proof (induction n arbitrary: r xs)
  case 0
  then show ?case by simp
next
  case (Suc n)
  from Suc.prems(2) obtain x r1 ys where "rd r = Some (x, r1)" "read_n rd n r1 = Some (ys, r')"
    by (auto simp: bind_eq_Some_conv)
  with Suc.IH [of r1 ys] read_sticky [OF Suc.prems(1)] show ?case by blast
qed

lemma read_n_inv:
  assumes "read_n rd n (cursor pre s) = Some (xs, r)" and "br_err r = None"
    and "\<And>x. fld x = Inr (enc x)"
  shows "\<exists>t. length xs = n \<and> (\<forall>x \<in> set xs. dom_ok x) \<and> s = concat (map enc xs) @ t \<and>
    r = cursor (pre @ concat (map enc xs)) t"
  using assms(1)
proof (induction n arbitrary: pre s xs)
  case 0
  then show ?case by auto
next
  case (Suc n)
  then obtain x r1 ys where rd: "rd (cursor pre s) = Some (x, r1)"
    and ys: "read_n rd n r1 = Some (ys, r)" "xs = x # ys"
    by (auto simp: bind_eq_Some_conv)
  have "br_err r1 = None"
    using read_n_sticky [OF _ ys(1)] assms(2) by blast
  then obtain t where "dom_ok x" "s = enc x @ t" "r1 = cursor (pre @ enc x) t"
    using read_inv [OF rd] assms(3) by auto
  with Suc.IH [of "pre @ enc x" t ys] ys show ?case by auto
qed

end

lemmas read_n_backs =
  cBool.read_n_back [where enc = enc_bool, simplified fld_bool_def, simplified]
  cU8.read_n_back [where enc = enc_u8, simplified fld_u8_def, simplified]
  cU16.read_n_back [where enc = le16, simplified fld_u16_def, simplified]
  cU24.read_n_back [where enc = le24, simplified fld_u24_def, simplified]
  cU32.read_n_back [where enc = le32, simplified fld_u32_def, simplified]
  cU64.read_n_back [where enc = le64, simplified fld_u64_def, simplified]
  cU256.read_n_back [where enc = array_bytes, simplified fld_array_def, simplified]

text \<open>
  Every element can be written and read back: only a \<open>U24\<close> may hold a value whose top
  byte is lost on the wire.
\<close>

fun seq_ok :: "Sequence \<Rightarrow> bool" where
  "seq_ok (U24Sequence a) \<longleftrightarrow> (\<forall>u \<in> set a. u < 16777216)"
| "seq_ok _ \<longleftrightarrow> True"

text \<open>\<open>dest\<close> has the dynamic type of \<open>q\<close>.\<close>

fun same_type :: "Sequence \<Rightarrow> Sequence \<Rightarrow> bool" where
  "same_type (BoolSequence _) (BoolSequence _) \<longleftrightarrow> True"
| "same_type (U8Sequence _) (U8Sequence _) \<longleftrightarrow> True"
| "same_type (U16Sequence _) (U16Sequence _) \<longleftrightarrow> True"
| "same_type (U24Sequence _) (U24Sequence _) \<longleftrightarrow> True"
| "same_type (U32Sequence _) (U32Sequence _) \<longleftrightarrow> True"
| "same_type (U64Sequence _) (U64Sequence _) \<longleftrightarrow> True"
| "same_type (U256Sequence _) (U256Sequence _) \<longleftrightarrow> True"
| "same_type _ _ \<longleftrightarrow> False"

lemma Sequence_Decode_back:
  assumes "seq_ok q" and "same_type dest q"
  shows "Sequence_Decode dest (Sequence_Len q) (cursor pre (seq_bytes q @ s)) =
    Some ((q, None), cursor (pre @ seq_bytes q) s)"
  using assms by (cases "(dest, q)" rule: same_type.cases) (simp_all add: read_n_backs)

lemma ReadSeq1_back:
  assumes "seq_ok q" "same_type dest q" "fld_seq1 q = Inr bs"
  shows "ReadSeq1 (cursor pre (bs @ s)) dest = Some (Some q, cursor (pre @ bs) s)"
proof -
  let ?l = "word_of_nat (Sequence_Len q) :: u8"
  from assms(3) have l: "Sequence_Len q \<le> 1" and bs: "bs = ?l # seq_bytes q"
    by (auto simp: fld_seq1_def split: if_splits)
  then have "\<not> ?l > 1" "unat ?l = Sequence_Len q"
    by (cases "Sequence_Len q"; simp)+
  with bs Sequence_Decode_back [OF assms(1,2), of "pre @ [?l]" s] show ?thesis
    by (simp add: ReadSeq1_def ReadU8_cursor)
qed

lemma ReadSeq255_back:
  assumes "seq_ok q" "same_type dest q" "fld_seq255 q = Inr bs"
  shows "ReadSeq255 (cursor pre (bs @ s)) dest = Some (Some q, cursor (pre @ bs) s)"
proof -
  let ?l = "word_of_nat (Sequence_Len q) :: u8"
  from assms(3) have l: "Sequence_Len q \<le> 255" and bs: "bs = ?l # seq_bytes q"
    by (auto simp: fld_seq255_def split: if_splits)
  from l have "unat ?l = Sequence_Len q"
    by (simp add: unat_of_nat take_bit_nat_eq_self)
  with bs Sequence_Decode_back [OF assms(1,2), of "pre @ [?l]" s] show ?thesis
    by (simp add: ReadSeq255_def ReadU8_cursor)
qed

lemma ReadSeq64K_back:
  assumes "seq_ok q" "same_type dest q" "fld_seq64k q = Inr bs"
  shows "ReadSeq64K (cursor pre (bs @ s)) dest = Some (Some q, cursor (pre @ bs) s)"
proof -
  let ?l = "word_of_nat (Sequence_Len q) :: u16"
  from assms(3) have l: "Sequence_Len q \<le> 65535" and bs: "bs = le16 ?l @ seq_bytes q"
    by (auto simp: fld_seq64k_def split: if_splits)
  from l have "unat ?l = Sequence_Len q"
    by (simp add: unat_of_nat take_bit_nat_eq_self)
  with bs Sequence_Decode_back [OF assms(1,2), of "pre @ le16 ?l" s] show ?thesis
    by (simp add: ReadSeq64K_def ReadU16_cursor)
qed

text \<open>
  The other direction: a clean read has consumed exactly the encoding of its result. A
  count of one byte, or of two, is followed by that many elements.
\<close>

context field_codec
begin

lemma counted8_inv:
  assumes "ReadU8 (cursor pre s) = Some (l, r1)" and "read_n rd (unat l) r1 = Some (xs, r)"
    and "br_err r = None" and "\<And>x. fld x = Inr (enc x)"
  shows "\<exists>t. length xs = unat l \<and> s = word_of_nat (length xs) # concat (map enc xs) @ t \<and>
    r = cursor (pre @ word_of_nat (length xs) # concat (map enc xs)) t"
proof -
  from assms(1) obtain u where "s = l # u" "r1 = cursor (pre @ [l]) u"
    by (cases s) (auto simp: ReadU8_cursor)
  with read_n_inv [of "unat l" "pre @ [l]" u xs r enc] assms(2-4) show ?thesis by auto
qed

lemma counted16_inv:
  assumes "ReadU16 (cursor pre s) = Some (l, r1)" and "read_n rd (unat l) r1 = Some (xs, r)"
    and "br_err r = None" and "\<And>x. fld x = Inr (enc x)"
  shows "\<exists>t. length xs = unat l \<and> s = le16 (word_of_nat (length xs)) @ concat (map enc xs) @ t \<and>
    r = cursor (pre @ le16 (word_of_nat (length xs)) @ concat (map enc xs)) t"
proof -
  from assms(1) have "s = le16 l @ drop 2 s" "r1 = cursor (pre @ le16 l) (drop 2 s)"
    by (auto simp: ReadU16_cursor le_le_word split: if_splits)
  with read_n_inv [of "unat l" "pre @ le16 l" "drop 2 s" xs r enc] assms(2-4) show ?thesis by auto
qed

end

text \<open>
  The three uses the messages make of sequences, each as a field of its own:
  \<open>OPTION[U32]\<close>, \<open>SEQ0_255[U256]\<close> with their type assertions, and
  \<open>SEQ0_64K[U32]\<close>, which is read back by an explicit loop.
\<close>

definition ReadOptionU32 :: "BinaryReader \<Rightarrow> (u32 list \<times> BinaryReader) option" where
  "ReadOptionU32 br = do {
     (q, br) \<leftarrow> ReadOptionT br (U32Sequence []);
     a \<leftarrow> as_U32Sequence q;
     Some (a, br) }"

definition ReadSeq255U256 :: "BinaryReader \<Rightarrow> (U256 list \<times> BinaryReader) option" where
  "ReadSeq255U256 br = do {
     (q, br) \<leftarrow> ReadSeq255 br (U256Sequence []);
     a \<leftarrow> as_U256Sequence q;
     Some (a, br) }"

definition ReadU32Loop :: "BinaryReader \<Rightarrow> (u32 list \<times> BinaryReader) option" where
  "ReadU32Loop br = do {
     (l, br) \<leftarrow> ReadU16 br;
     read_n ReadU32 (unat l) br }"

lemma as_U32Sequence_Some: "as_U32Sequence q = Some a \<longleftrightarrow> q = Some (U32Sequence a)"
  by (cases q rule: as_U32Sequence.cases) auto

lemma as_U256Sequence_Some: "as_U256Sequence q = Some a \<longleftrightarrow> q = Some (U256Sequence a)"
  by (cases q rule: as_U256Sequence.cases) auto

lemma word_le_1: "\<not> (l :: u8) > 1 \<Longrightarrow> unat l \<le> 1"
  by (simp add: word_less_nat_alt)

interpretation cOptU32: field_codec "\<lambda>bb xs. AddOptionT bb (U32Sequence xs)"
  "\<lambda>xs. fld_seq1 (U32Sequence xs)" ReadOptionU32 "\<lambda>_. True"
proof unfold_locales
  fix xs bs pre s assume "fld_seq1 (U32Sequence xs) = Inr bs"
  then show "ReadOptionU32 (cursor pre (bs @ s)) = Some (xs, cursor (pre @ bs) s)"
    using ReadSeq1_back [of "U32Sequence xs" "U32Sequence []" bs pre s]
    by (simp add: ReadOptionU32_def ReadOptionT_def)
next
  fix pre s xs r assume *: "ReadOptionU32 (cursor pre s) = Some (xs, r)" "br_err r = None"
  then obtain l r1 where "ReadU8 (cursor pre s) = Some (l, r1)" "\<not> l > 1"
    "read_n ReadU32 (unat l) r1 = Some (xs, r)"
    by (auto simp: ReadOptionU32_def ReadOptionT_def ReadSeq1_def as_U32Sequence_Some
        bind_eq_Some_conv split: if_splits)
  with cU32.counted8_inv [of pre s l r1 xs r le32] *(2) word_le_1 [of l]
  show "\<exists>bs t. True \<and> fld_seq1 (U32Sequence xs) = Inr bs \<and> s = bs @ t \<and> r = cursor (pre @ bs) t"
    by (auto simp: fld_seq1_def fld_u32_def)
qed (auto simp: AddOptionT_def go_view ReadOptionU32_def ReadOptionT_def ReadSeq1_def)

interpretation cSeqU256: field_codec "\<lambda>bb xs. AddSeq255 bb (U256Sequence xs)"
  "\<lambda>xs. fld_seq255 (U256Sequence xs)" ReadSeq255U256 "\<lambda>_. True"
proof unfold_locales
  fix xs bs pre s assume "fld_seq255 (U256Sequence xs) = Inr bs"
  then show "ReadSeq255U256 (cursor pre (bs @ s)) = Some (xs, cursor (pre @ bs) s)"
    using ReadSeq255_back [of "U256Sequence xs" "U256Sequence []" bs pre s]
    by (simp add: ReadSeq255U256_def)
next
  fix pre s xs r assume *: "ReadSeq255U256 (cursor pre s) = Some (xs, r)" "br_err r = None"
  then obtain l r1 where "ReadU8 (cursor pre s) = Some (l, r1)"
    "read_n ReadU256 (unat l) r1 = Some (xs, r)"
    by (auto simp: ReadSeq255U256_def ReadSeq255_def as_U256Sequence_Some
        bind_eq_Some_conv split: if_splits)
  with cU256.counted8_inv [of pre s l r1 xs r array_bytes] *(2) unat_u8_le [of l]
  show "\<exists>bs t. True \<and> fld_seq255 (U256Sequence xs) = Inr bs \<and> s = bs @ t \<and> r = cursor (pre @ bs) t"
    by (auto simp: fld_seq255_def fld_array_def)
qed (auto simp: go_view ReadSeq255U256_def ReadSeq255_def)

interpretation cLoopU32: field_codec "\<lambda>bb xs. AddSeq64K bb (U32Sequence xs)"
  "\<lambda>xs. fld_seq64k (U32Sequence xs)" ReadU32Loop "\<lambda>_. True"
proof unfold_locales
  fix xs bs pre s assume *: "fld_seq64k (U32Sequence xs) = Inr bs"
  let ?l = "word_of_nat (length xs) :: u16"
  from * have l: "length xs \<le> 65535" and bs: "bs = le16 ?l @ concat (map le32 xs)"
    by (auto simp: fld_seq64k_def split: if_splits)
  from l have "unat ?l = length xs"
    by (simp add: unat_of_nat take_bit_nat_eq_self)
  with bs show "ReadU32Loop (cursor pre (bs @ s)) = Some (xs, cursor (pre @ bs) s)"
    by (simp add: ReadU32Loop_def ReadU16_cursor read_n_backs)
next
  fix pre s xs r assume *: "ReadU32Loop (cursor pre s) = Some (xs, r)" "br_err r = None"
  then obtain l r1 where "ReadU16 (cursor pre s) = Some (l, r1)"
    "read_n ReadU32 (unat l) r1 = Some (xs, r)"
    by (auto simp: ReadU32Loop_def bind_eq_Some_conv)
  with cU32.counted16_inv [of pre s l r1 xs r le32] *(2) unat_u16_le [of l]
  show "\<exists>bs t. True \<and> fld_seq64k (U32Sequence xs) = Inr bs \<and> s = bs @ t \<and> r = cursor (pre @ bs) t"
    by (auto simp: fld_seq64k_def fld_u32_def)
next
  fix r r' :: BinaryReader and xs assume "br_err r \<noteq> None" "ReadU32Loop r = Some (xs, r')"
  then show "br_err r' \<noteq> None"
    using cU32.read_n_sticky [of r 0 xs r'] by (simp add: ReadU32Loop_def)
qed (simp add: go_view)

section \<open>Properties\<close>

text \<open>
  C19. A sequence written with any of the three count prefixes is read back whole, for all
  seven element types.
\<close>

theorem sequence_roundtrip:
  assumes "seq_ok q" and "same_type dest q"
  shows "(Bytes (AddSeq1 NewBinaryBuilder q) = (b, None) \<longrightarrow>
      ReadSeq1 (cursor pre (b @ s)) dest = Some (Some q, cursor (pre @ b) s)) \<and>
    (Bytes (AddSeq255 NewBinaryBuilder q) = (b, None) \<longrightarrow>
      ReadSeq255 (cursor pre (b @ s)) dest = Some (Some q, cursor (pre @ b) s)) \<and>
    (Bytes (AddSeq64K NewBinaryBuilder q) = (b, None) \<longrightarrow>
      ReadSeq64K (cursor pre (b @ s)) dest = Some (Some q, cursor (pre @ b) s))"
  using ReadSeq1_back [OF assms] ReadSeq255_back [OF assms] ReadSeq64K_back [OF assms]
  by (auto simp: Bytes_view go_view emit_ok)

theorem sequence_roundtrip_witness:
  "ReadSeq64K (cursor [] ([2, 0, 1, 0, 2, 0] @ [9])) (U16Sequence []) =
     Some (Some (U16Sequence [1, 2]), cursor [2, 0, 1, 0, 2, 0] [9])"
  using sequence_roundtrip [of "U16Sequence [1, 2]" "U16Sequence []" "[2, 0, 1, 0, 2, 0]" "[]" "[9]"]
  by (simp add: Bytes_view go_view fld_seq64k_def le16_def)

text \<open>
  C37. The length limits of the builder: a string, or a byte string with an 8-bit or 16-bit
  prefix, is written with its prefix if it fits and otherwise only sets the error, and so
  is a sequence that its prefix can count; the limit of \<open>AddBin16M\<close> is 25 bytes, though
  \<open>ReadBin16M\<close> reads every length that fits 24 bits.
\<close>

theorem length_limits:
  "Bytes (AddStr255 NewBinaryBuilder t) =
     (if length t \<le> 255 then (enc_bin8 (string_bytes t), None) else ([], Some AddStr_len_gt_255)) \<and>
   Bytes (AddBin32 NewBinaryBuilder d) =
     (if length d \<le> 32 then (enc_bin8 d, None) else ([], Some AddBin32_len_gt_32)) \<and>
   Bytes (AddBin255 NewBinaryBuilder d) =
     (if length d \<le> 255 then (enc_bin8 d, None) else ([], Some AddBin255_len_gt_255)) \<and>
   Bytes (AddBin64K NewBinaryBuilder d) =
     (if length d \<le> 65535 then (enc_bin16 d, None) else ([], Some AddBin64K_len_gt_65535)) \<and>
   Bytes (AddBin16M NewBinaryBuilder d) =
     (if length d \<le> 25 then (enc_bin24 d, None) else ([], Some AddBin16M_len_gt_limit)) \<and>
   Bytes (AddSeq1 NewBinaryBuilder q) =
     (if Sequence_Len q \<le> 1 then (word_of_nat (Sequence_Len q) # seq_bytes q, None)
      else ([], Some AddSeq1_len_gt_1)) \<and>
   Bytes (AddSeq255 NewBinaryBuilder q) =
     (if Sequence_Len q \<le> 255 then (word_of_nat (Sequence_Len q) # seq_bytes q, None)
      else ([], Some AddSeq255_len_gt_255)) \<and>
   Bytes (AddSeq64K NewBinaryBuilder q) =
     (if Sequence_Len q \<le> 65535 then (le16 (word_of_nat (Sequence_Len q)) @ seq_bytes q, None)
      else ([], Some AddSeq64K_len_gt_65535)) \<and>
   (length d < 16777216 \<longrightarrow>
      ReadBin16M (cursor pre (enc_bin24 d @ s)) = Some (Some d, cursor (pre @ enc_bin24 d) s))"
  by (auto simp: Bytes_view go_view fld_defs fld_seq1_def fld_seq255_def fld_seq64k_def ReadBin16M_enc)

theorem length_limits_witness:
  "Bytes (AddBin16M NewBinaryBuilder (replicate 26 0)) = ([], Some AddBin16M_len_gt_limit) \<and>
   ReadBin16M (cursor [] (enc_bin24 (replicate 26 0) @ [])) =
     Some (Some (replicate 26 0), cursor (enc_bin24 (replicate 26 0)) [])"
  using length_limits [of "[]" "replicate 26 0" "U8Sequence []" "[]" "[]"] by simp

end
