(* ===== verification/Codec.thy ===== *)
theory Codec
  imports Sequences
begin

text \<open>
  What is proved of the messages' \<open>Encode\<close> and \<open>Decode\<close> as a contract. \<open>Codable\<close> of
  \<open>src/types.go\<close> is only the two method signatures, which \<open>Frame\<close> and
  \<open>SetCustomMiningJob\<close> have too; the contract \<open>message_codec\<close> is not part of it and the
  frame layer does not rely on it. \<open>Decode\<close> takes the receiver it overwrites and a slice and
  returns the new receiver with the error, or panics. The contract has both round trips: a
  message that encodes without error is read back from its bytes whatever follows them, and
  a clean decode has read exactly the bytes that the decoded message encodes to. Every
  message but \<open>SetCustomMiningJob\<close> is an interpretation.

  Also here: the field contracts of the builder and the reader collected into two rule
  sets, so that a message is verified field by field without unfolding any encoding.
\<close>

lemmas read_backs =
  cBool.read_back cU8.read_back cU16.read_back cU24.read_back cU32.read_back cU64.read_back
  cF32.read_back cU256.read_back cPubkey.read_back cEllswiftPubkey.read_back
  cSignature.read_back cStr255.read_back cBin32.read_back cBin255.read_back cBin64K.read_back
  cOptU32.read_back cSeqU256.read_back cLoopU32.read_back

lemmas read_parsedEs =
  cBool.read_parsedE cU8.read_parsedE cU16.read_parsedE cU24.read_parsedE cU32.read_parsedE
  cU64.read_parsedE cF32.read_parsedE cU256.read_parsedE cPubkey.read_parsedE
  cEllswiftPubkey.read_parsedE cSignature.read_parsedE cStr255.read_parsedE cBin32.read_parsedE
  cBin255.read_parsedE cBin64K.read_parsedE cOptU32.read_parsedE cSeqU256.read_parsedE
  cLoopU32.read_parsedE

declare cOptU32.view_add [go_view]

lemmas codec_simps = Let_def Bytes_view go_view emit_ok NewBinaryReader_cursor read_backs

lemmas decode_simps = Let_def Bytes_view go_view emit_ok NewBinaryReader_cursor
  bind_eq_Some_conv Error_def

text \<open>The two round trips, for the statement of properties.\<close>

definition round_trips ::
    "('m \<Rightarrow> byte list \<times> error option) \<Rightarrow> ('m \<Rightarrow> slice \<Rightarrow> ('m \<times> error option) option) \<Rightarrow> bool" where
  "round_trips Encode Decode \<longleftrightarrow>
     (\<forall>m b m0 t. Encode m = (b, None) \<longrightarrow> Decode m0 (Some (b @ t)) = Some (m, None))"

definition exact_decoding ::
    "('m \<Rightarrow> byte list \<times> error option) \<Rightarrow> ('m \<Rightarrow> slice \<Rightarrow> ('m \<times> error option) option) \<Rightarrow> bool" where
  "exact_decoding Encode Decode \<longleftrightarrow>
     (\<forall>m0 m b. Decode m0 (Some b) = Some (m, None) \<longrightarrow> (\<exists>bs t. b = bs @ t \<and> Encode m = (bs, None)))"

locale message_codec =
  fixes Encode :: "'m \<Rightarrow> byte list \<times> error option"
    and Decode :: "'m \<Rightarrow> slice \<Rightarrow> ('m \<times> error option) option"
  assumes decode_encode: "Encode m = (b, None) \<Longrightarrow> Decode m0 (Some (b @ t)) = Some (m, None)"
    and encode_decode: "Decode m0 (Some b) = Some (m, None) \<Longrightarrow>
      \<exists>bs t. b = bs @ t \<and> Encode m = (bs, None)"
begin

lemma codec_round_trips: "round_trips Encode Decode"
  unfolding round_trips_def using decode_encode by blast

lemma codec_exact: "exact_decoding Encode Decode"
  unfolding exact_decoding_def using encode_decode by blast

lemma encode_inj: "Encode m = (b, None) \<Longrightarrow> Encode m' = (b, None) \<Longrightarrow> m = m'"
  using decode_encode [of m b m "[]"] decode_encode [of m' b m "[]"] by simp

lemma encode_prefix_free:
  assumes "Encode m = (b, None)" and "Encode m' = (b @ t, None)"
  shows "m = m' \<and> t = []"
proof -
  have "m = m'"
    using decode_encode [OF assms(1), of m t] decode_encode [OF assms(2), of m "[]"] by simp
  with assms show ?thesis by simp
qed

lemma decode_receiver_irrelevant:
  assumes "Decode m0 (Some b) = Some (m, None)"
  shows "Decode m1 (Some b) = Some (m, None)"
  using encode_decode [OF assms] decode_encode [of m _ m1] by blast

end

end
