(* ===== verification/Go_IO.thy ===== *)
theory Go_IO
  imports Binary_Reader
begin

text \<open>
  \<open>io.ReadFull\<close> of the standard library over any \<open>io.Reader\<close>, and the two kinds of
  reader the package passes to it: its own \<open>BinaryReader\<close> and a connection, whose
  \<open>Read\<close> hands out the bytes in the chunks in which they arrived. A \<open>Read\<close> takes the
  reader and the length of the destination and returns the bytes copied, the error and
  the reader afterwards.

  The contract \<open>io_reader\<close> is what \<open>ReadFull\<close> needs of a reader that still has
  enough bytes; both kinds fulfil it, so what is proved over it holds for both.
\<close>

section \<open>ReadFull\<close>

text \<open>
  The loop of \<open>io.ReadAtLeast\<close>: it ends when enough bytes are there or on an error. A
  reader that returns no bytes and no error forever keeps it running: then there is no
  result, as after a panic of the reader.
\<close>

partial_function (option) read_loop ::
  "('r \<Rightarrow> int \<Rightarrow> ((byte list \<times> error option) \<times> 'r) option) \<Rightarrow> nat \<Rightarrow> byte list \<Rightarrow> 'r \<Rightarrow>
     ((byte list \<times> error option) \<times> 'r) option" where
  "read_loop rd m acc r =
     (if m \<le> length acc then Some ((acc, None), r)
      else do {
        ((bs, e), r) \<leftarrow> rd r (int (m - length acc));
        if e \<noteq> None then Some ((acc @ bs, e), r) else read_loop rd m (acc @ bs) r })"

definition ReadFull ::
  "('r \<Rightarrow> int \<Rightarrow> ((byte list \<times> error option) \<times> 'r) option) \<Rightarrow> 'r \<Rightarrow> nat \<Rightarrow>
     ((byte list \<times> error option) \<times> 'r) option" where
  "ReadFull rd r m = do {
     ((acc, e), r) \<leftarrow> read_loop rd m [] r;
     Some ((acc, if m \<le> length acc then None
                 else if acc \<noteq> [] \<and> e = Some IO_EOF then Some IO_ErrUnexpectedEOF
                 else e), r) }"

section \<open>The contract of a reader\<close>

locale io_reader =
  fixes rd :: "'r \<Rightarrow> int \<Rightarrow> ((byte list \<times> error option) \<times> 'r) option"
    and ready :: "'r \<Rightarrow> bool"
    and avail :: "'r \<Rightarrow> byte list"
    and steps :: "'r \<Rightarrow> nat"
  assumes read_some: "ready r \<Longrightarrow> 0 < n \<Longrightarrow> n \<le> length (avail r) \<Longrightarrow>
    \<exists>bs r'. rd r (int n) = Some ((bs, None), r') \<and> length bs \<le> n \<and> avail r = bs @ avail r' \<and>
      ready r' \<and> steps r' < steps r"
begin

lemma read_loop_enough:
  "ready r \<Longrightarrow> m \<le> length acc + length (avail r) \<Longrightarrow> length acc \<le> m \<Longrightarrow>
    \<exists>r'. read_loop rd m acc r = Some ((acc @ take (m - length acc) (avail r), None), r') \<and>
      avail r' = drop (m - length acc) (avail r) \<and> ready r'"
proof (induction "steps r" arbitrary: r acc rule: less_induct)
  case less
  show ?case
  proof (cases "m \<le> length acc")
    case True
    with less.prems show ?thesis by (subst read_loop.simps) simp
  next
    case False
    let ?n = "m - length acc"
    have n: "0 < ?n" "?n \<le> length (avail r)" using False less.prems(2) by linarith+
    obtain bs r1 where rd: "rd r (int ?n) = Some ((bs, None), r1)"
      and bs: "length bs \<le> ?n" "avail r = bs @ avail r1" "ready r1" "steps r1 < steps r"
      using read_some [OF less.prems(1) n] by blast
    have "\<exists>r'. read_loop rd m (acc @ bs) r1 =
        Some (((acc @ bs) @ take (m - length (acc @ bs)) (avail r1), None), r') \<and>
        avail r' = drop (m - length (acc @ bs)) (avail r1) \<and> ready r'"
      using less.prems(2) bs False by (intro less.hyps) auto
    moreover have "read_loop rd m acc r = read_loop rd m (acc @ bs) r1"
      using False rd by (subst read_loop.simps) simp
    ultimately show ?thesis using bs by (auto simp: diff_diff_eq)
  qed
qed

lemma ReadFull_enough:
  assumes "ready r" and "m \<le> length (avail r)"
  shows "\<exists>r'. ReadFull rd r m = Some ((take m (avail r), None), r') \<and>
    avail r' = drop m (avail r) \<and> ready r'"
  using read_loop_enough [of r m "[]"] assms by (auto simp: ReadFull_def min_def)

lemma ReadFull_append:
  assumes "ready r" and "avail r = bs @ s"
  shows "\<exists>r'. ReadFull rd r (length bs) = Some ((bs, None), r') \<and> avail r' = s \<and> ready r'"
  using ReadFull_enough [of r "length bs"] assms by simp

end

section \<open>A connection\<close>

fun conn_Read :: "byte list list \<Rightarrow> int \<Rightarrow> ((byte list \<times> error option) \<times> byte list list) option" where
  "conn_Read [] l = Some (([], Some IO_EOF), [])"
| "conn_Read (c # cs) l =
     (if int (length c) \<le> l then Some ((c, None), cs)
      else Some ((take (nat l) c, None), drop (nat l) c # cs))"

interpretation conn: io_reader conn_Read "\<lambda>_. True" concat "\<lambda>cs. length cs + length (concat cs)"
proof unfold_locales
  fix cs :: "byte list list" and n
  assume "0 < n" and n: "n \<le> length (concat cs)"
  then obtain c ds where cs: "cs = c # ds" by (cases cs) auto
  show "\<exists>bs r'. conn_Read cs (int n) = Some ((bs, None), r') \<and> length bs \<le> n \<and>
      concat cs = bs @ concat r' \<and> True \<and>
      length r' + length (concat r') < length cs + length (concat cs)"
    using \<open>0 < n\<close> by (cases "length c \<le> n") (auto simp: cs)
qed

text \<open>A connection that ends too early: what was there is read, and the error says whether it was nothing.\<close>

lemma read_loop_short:
  "length acc + length (concat cs) < m \<Longrightarrow>
    read_loop conn_Read m acc cs = Some ((acc @ concat cs, Some IO_EOF), [])"
proof (induction cs arbitrary: acc)
  case Nil
  then show ?case by (subst read_loop.simps) simp
next
  case (Cons c cs)
  then have "\<not> m \<le> length acc" "int (length c) \<le> int (m - length acc)" by auto
  then have "read_loop conn_Read m acc (c # cs) = read_loop conn_Read m (acc @ c) cs"
    by (subst read_loop.simps) simp
  with Cons show ?case by simp
qed

lemma ReadFull_short:
  assumes "length (concat cs) < m"
  shows "ReadFull conn_Read cs m =
    Some ((concat cs, Some (if concat cs = [] then IO_EOF else IO_ErrUnexpectedEOF)), [])"
  using assms read_loop_short [of "[]" cs m] by (simp add: ReadFull_def)

section \<open>The reader of the package as an io.Reader\<close>

definition at_cursor :: "BinaryReader \<Rightarrow> bool" where
  "at_cursor r \<longleftrightarrow> (\<exists>pre s. r = cursor pre s)"

definition br_rest :: "BinaryReader \<Rightarrow> byte list" where
  "br_rest r = drop (nat (br_pos r)) (slice_bytes (br_data r))"

lemma br_rest_cursor [simp]: "br_rest (cursor pre s) = s"
  by (simp add: br_rest_def cursor_def)

interpretation breader: io_reader Read at_cursor br_rest "\<lambda>r. length (br_rest r)"
proof unfold_locales
  fix r n assume "at_cursor r" "0 < n" "n \<le> length (br_rest r)"
  then obtain pre s where r: "r = cursor pre s" and n: "0 < n" "n \<le> length s"
    by (auto simp: at_cursor_def)
  have "Read r (int n) = Some ((take n s, None), cursor (pre @ take n s) (drop n s))"
    using n by (simp add: r Read_def read_cursor)
  with n show "\<exists>bs r'. Read r (int n) = Some ((bs, None), r') \<and> length bs \<le> n \<and>
      br_rest r = bs @ br_rest r' \<and> at_cursor r' \<and> length (br_rest r') < length (br_rest r)"
    by (auto simp: r at_cursor_def)
qed

end
