(* ===== verification/Frames.thy ===== *)
theory Frames
  imports Codec Go_IO
begin

text \<open>
  \<open>Frame\<close> and \<open>TLV\<close> of \<open>src/types.go\<close>: the framing of every message on the wire.
  \<open>Encode\<close> changes its receiver (it sorts the TLVs and folds them into payload and
  length), so the model returns the new frame with the result. \<open>Decode\<close> slices its
  argument up to its capacity: the argument is a pair of the bytes of the slice and the
  bytes of the backing array behind them.
\<close>

section \<open>TLV\<close>

record TLV =
  tlv_ExtensionType :: u16
  tlv_FieldType :: u8
  tlv_Length :: u16
  tlv_Value :: "byte list"

definition zero_TLV :: TLV where
  "zero_TLV = \<lparr>tlv_ExtensionType = 0, tlv_FieldType = 0, tlv_Length = 0, tlv_Value = []\<rparr>"

definition TLV_Encode :: "TLV \<Rightarrow> byte list \<times> error option" where
  "TLV_Encode t =
     (let out = NewBinaryBuilder;
          out = Grow out (int (length (tlv_Value t)) + 5);
          out = AddU16 out (tlv_ExtensionType t);
          out = AddU8 out (tlv_FieldType t);
          out = AddU16 out (tlv_Length t);
          out = AddBin64K out (tlv_Value t)
      in Bytes out)"

definition TLV_Decode :: "TLV \<Rightarrow> slice \<Rightarrow> (TLV \<times> error option) option" where
  "TLV_Decode t b = do {
     let r = NewBinaryReader b;
     (x, r) \<leftarrow> ReadU16 r; let t = t\<lparr>tlv_ExtensionType := x\<rparr>;
     (x, r) \<leftarrow> ReadU8 r; let t = t\<lparr>tlv_FieldType := x\<rparr>;
     (x, r) \<leftarrow> ReadU16 r; let t = t\<lparr>tlv_Length := x\<rparr>;
     (x, r) \<leftarrow> bytes_result (ReadBytes r (uint (tlv_Length t))); let t = t\<lparr>tlv_Value := x\<rparr>;
     Some (t, Error r) }"

section \<open>Frame\<close>

record Frame =
  fr_ExtensionType :: u16
  fr_MessageType :: u8
  fr_MessageLength :: u32
  fr_Payload :: slice
  fr_TLVs :: "TLV list option"

definition zero_Frame :: Frame where
  "zero_Frame = \<lparr>fr_ExtensionType = 0, fr_MessageType = 0, fr_MessageLength = 0,
     fr_Payload = None, fr_TLVs = None\<rparr>"

definition MaxU24 :: nat where
  "MaxU24 = push_bit 23 2 - 1"

definition FrameHeaderSize :: nat where
  "FrameHeaderSize = 6"

definition ExtensionTypeCore :: u16 where
  "ExtensionTypeCore = 0"

definition NewFrameFromParams ::
    "('m \<Rightarrow> byte list \<times> error option) \<Rightarrow> u8 \<Rightarrow> u16 \<Rightarrow> 'm \<Rightarrow> error + Frame" where
  "NewFrameFromParams Encode messageType extensionType params =
     (let (b, err) = Encode params
      in case err of
        Some e \<Rightarrow> Inl e
      | None \<Rightarrow>
          let l = length b
          in if l > MaxU24 then Inl Frame_MessageLength_gt_MaxU24
             else Inr \<lparr>fr_ExtensionType = extensionType, fr_MessageType = messageType,
                    fr_MessageLength = word_of_nat l, fr_Payload = Some b, fr_TLVs = None\<rparr>)"

definition Frame_FromParamsExtension ::
    "('m \<Rightarrow> byte list \<times> error option) \<Rightarrow> Frame \<Rightarrow> u8 \<Rightarrow> u16 \<Rightarrow> 'm \<Rightarrow> Frame \<times> error option" where
  "Frame_FromParamsExtension Encode f messageType extensionType params =
     (case NewFrameFromParams Encode messageType extensionType params of
        Inl e \<Rightarrow> (f, Some e) | Inr frame \<Rightarrow> (frame, None))"

definition Frame_FromParams ::
    "('m \<Rightarrow> byte list \<times> error option) \<Rightarrow> Frame \<Rightarrow> u8 \<Rightarrow> 'm \<Rightarrow> Frame \<times> error option" where
  "Frame_FromParams Encode f messageType params =
     (case NewFrameFromParams Encode messageType ExtensionTypeCore params of
        Inl e \<Rightarrow> (f, Some e) | Inr frame \<Rightarrow> (frame, None))"

definition Frame_ToParams ::
    "('m \<Rightarrow> slice \<Rightarrow> ('m \<times> error option) option) \<Rightarrow> Frame \<Rightarrow> 'm \<Rightarrow> ('m \<times> error option) option" where
  "Frame_ToParams Decode f params = Decode params (fr_Payload f)"

text \<open>The loop over the TLVs, which stops at the first error.\<close>

fun encode_tlvs :: "BinaryBuilder \<Rightarrow> TLV list \<Rightarrow> error + BinaryBuilder" where
  "encode_tlvs tlvOut [] = Inr tlvOut"
| "encode_tlvs tlvOut (tlv # tlvs) =
     (let (enc, err) = TLV_Encode tlv
      in case err of Some e \<Rightarrow> Inl e | None \<Rightarrow> encode_tlvs (AddBytes tlvOut enc) tlvs)"

text \<open>\<open>append(s, bs...)\<close>: nothing appended to \<open>nil\<close> stays \<open>nil\<close>.\<close>

definition slice_append :: "slice \<Rightarrow> byte list \<Rightarrow> slice" where
  "slice_append s bs = (if bs = [] then s else Some (slice_bytes s @ bs))"

text \<open>Header and payload, the common end of \<open>Encode\<close>.\<close>

definition frame_bytes :: "BinaryBuilder \<Rightarrow> Frame \<Rightarrow> byte list \<times> error option" where
  "frame_bytes out f =
     (let out = AddU16 out (fr_ExtensionType f);
          out = AddU8 out (fr_MessageType f);
          out = AddU24 out (fr_MessageLength f);
          out = AddBytes out (slice_bytes (fr_Payload f))
      in Bytes out)"

definition Frame_Encode :: "Frame \<Rightarrow> (byte list \<times> error option) \<times> Frame" where
  "Frame_Encode f =
     (if uint (fr_MessageLength f) \<noteq> slice_len (fr_Payload f)
      then (([], Some Frame_MessageLength_neq_len), f)
      else let out = Grow NewBinaryBuilder (int FrameHeaderSize + uint (fr_MessageLength f))
           in case fr_TLVs f of
                None \<Rightarrow> (frame_bytes out f, f)
              | Some tlvs \<Rightarrow>
                  let f = f\<lparr>fr_TLVs := Some (sort_key tlv_ExtensionType tlvs)\<rparr>
                  in case encode_tlvs NewBinaryBuilder (sort_key tlv_ExtensionType tlvs) of
                       Inl e \<Rightarrow> (([], Some e), f)
                     | Inr tlvOut \<Rightarrow>
                         let f = f\<lparr>fr_MessageLength :=
                               fr_MessageLength f + word_of_nat (Len tlvOut)\<rparr>;
                             (b, err) = Bytes tlvOut
                         in if err \<noteq> None then (([], err), f)
                            else let f = f\<lparr>fr_Payload := slice_append (fr_Payload f) b\<rparr>
                                 in (frame_bytes out f, f))"

definition Frame_DecodeHeader :: "Frame \<Rightarrow> slice \<Rightarrow> (Frame \<times> error option) option" where
  "Frame_DecodeHeader f b = do {
     let r = NewBinaryReader b;
     (x, r) \<leftarrow> ReadU16 r; let f = f\<lparr>fr_ExtensionType := x\<rparr>;
     (x, r) \<leftarrow> ReadU8 r; let f = f\<lparr>fr_MessageType := x\<rparr>;
     (x, r) \<leftarrow> ReadU24 r; let f = f\<lparr>fr_MessageLength := x\<rparr>;
     Some (f, Error r) }"

definition Frame_ReadPayload :: "Frame \<Rightarrow> slice \<Rightarrow> (Frame \<times> error option) option" where
  "Frame_ReadPayload f b = do {
     let r = NewBinaryReader b;
     (x, r) \<leftarrow> ReadBytes r (uint (fr_MessageLength f)); let f = f\<lparr>fr_Payload := x\<rparr>;
     Some (f, Error r) }"

text \<open>\<open>b[lo:hi]\<close> with \<open>hi\<close> checked against the capacity, not the length.\<close>

definition reslice :: "byte list \<times> byte list \<Rightarrow> nat \<Rightarrow> nat \<Rightarrow> byte list option" where
  "reslice b lo hi =
     (if lo \<le> hi \<and> hi \<le> length (fst b @ snd b)
      then Some (take (hi - lo) (drop lo (fst b @ snd b))) else None)"

definition tlvs_append :: "TLV list option \<Rightarrow> TLV \<Rightarrow> TLV list option" where
  "tlvs_append ts t = Some ((case ts of None \<Rightarrow> [] | Some ts \<Rightarrow> ts) @ [t])"

text \<open>
  The endless loop at the end of \<open>Decode\<close>, with \<open>off\<close> for \<open>n + lastLen\<close>. Every
  round moves on by at least five bytes.
\<close>

function decode_tlvs :: "byte list \<Rightarrow> nat \<Rightarrow> Frame \<Rightarrow> (Frame \<times> error option) option" where
  "decode_tlvs b off f =
     (if int (length b) - int off < 5 then Some (f, None)
      else case TLV_Decode zero_TLV (Some (drop off b)) of
             None \<Rightarrow> None
           | Some (tlv, Some e) \<Rightarrow> Some (f, Some e)
           | Some (tlv, None) \<Rightarrow>
               decode_tlvs b (off + (unat (tlv_Length tlv) + 5))
                 (f\<lparr>fr_TLVs := tlvs_append (fr_TLVs f) tlv\<rparr>))"
  by pat_completeness auto
termination
  by (relation "measure (\<lambda>(b, off, f). length b - off)") auto

declare decode_tlvs.simps [simp del]

definition Frame_Decode :: "Frame \<Rightarrow> byte list \<times> byte list \<Rightarrow> (Frame \<times> error option) option" where
  "Frame_Decode f b = do {
     hdr \<leftarrow> reslice b 0 FrameHeaderSize;
     (f, err) \<leftarrow> Frame_DecodeHeader f (Some hdr);
     if err \<noteq> None then Some (f, err)
     else do {
       let n = FrameHeaderSize + unat (fr_MessageLength f);
       pl \<leftarrow> reslice b FrameHeaderSize n;
       (f, err) \<leftarrow> Frame_ReadPayload f (Some pl);
       if err \<noteq> None then Some (f, err)
       else if length (fst b) > n + 5 then decode_tlvs (fst b) n f
       else Some (f, err) } }"

definition Frame_DecodeFromReader ::
    "('r \<Rightarrow> int \<Rightarrow> ((byte list \<times> error option) \<times> 'r) option) \<Rightarrow> Frame \<Rightarrow> 'r \<Rightarrow>
       ((Frame \<times> error option) \<times> 'r) option" where
  "Frame_DecodeFromReader rd f r = do {
     ((header, err), r) \<leftarrow> ReadFull rd r FrameHeaderSize;
     if err \<noteq> None then Some ((f, err), r)
     else do {
       (f, err) \<leftarrow> Frame_DecodeHeader f (Some header);
       if err \<noteq> None then Some ((f, err), r)
       else do {
         let l = unat (fr_MessageLength f);
         ((bs, err), r) \<leftarrow> ReadFull rd r l;
         let f = f\<lparr>fr_Payload := Some (bs @ replicate (l - length bs) 0)\<rparr>;
         Some ((f, err), r) } } }"

section \<open>Frames on the wire\<close>

text \<open>A frame as the specification of the protocol lays it out.\<close>

definition frame_wire :: "Frame \<Rightarrow> byte list" where
  "frame_wire f = le16 (fr_ExtensionType f) @ enc_u8 (fr_MessageType f) @ le24 (fr_MessageLength f) @
     slice_bytes (fr_Payload f)"

definition frame_ok :: "Frame \<Rightarrow> bool" where
  "frame_ok f \<longleftrightarrow> (\<exists>p. fr_Payload f = Some p \<and> unat (fr_MessageLength f) = length p) \<and>
     fr_MessageLength f < 16777216"

lemma MaxU24_value: "MaxU24 = 16777215"
  by (simp add: MaxU24_def push_bit_eq_mult)

lemma frame_bytes_wire: "view out = ([], None) \<Longrightarrow> frame_bytes out f = (frame_wire f, None)"
  by (simp add: frame_bytes_def frame_wire_def Let_def Bytes_view go_view fld_defs)

lemma Frame_Encode_plain:
  "uint (fr_MessageLength f) = slice_len (fr_Payload f) \<Longrightarrow> fr_TLVs f = None \<Longrightarrow>
     Frame_Encode f = ((frame_wire f, None), f)"
  by (simp add: Frame_Encode_def frame_bytes_wire)

lemma frame_ok_len: "frame_ok f \<Longrightarrow> uint (fr_MessageLength f) = slice_len (fr_Payload f)"
  by (auto simp: frame_ok_def slice_len_def dest: uint_of_unat)

lemma DecodeHeader_back:
  "l < 16777216 \<Longrightarrow>
     Frame_DecodeHeader f (Some (le16 e @ enc_u8 t @ le24 l @ s)) =
       Some (f\<lparr>fr_ExtensionType := e, fr_MessageType := t, fr_MessageLength := l\<rparr>, None)"
  by (simp add: Frame_DecodeHeader_def Let_def NewBinaryReader_cursor read_backs fld_defs)

lemma DecodeHeader_short:
  "length b < 6 \<Longrightarrow> Frame_DecodeHeader f (Some b) = None"
  by (auto simp: Frame_DecodeHeader_def Let_def NewBinaryReader_cursor ReadU16_cursor ReadU8_cursor
      ReadU24_cursor)

lemma ReadPayload_back:
  "unat (fr_MessageLength f) = length p \<Longrightarrow>
     Frame_ReadPayload f (Some (p @ s)) = Some (f\<lparr>fr_Payload := Some p\<rparr>, None)"
  using read_cursor [of "length p" "p @ s" "[]"] uint_of_unat [of "fr_MessageLength f" "length p"]
  by (simp add: Frame_ReadPayload_def Let_def NewBinaryReader_cursor ReadBytes_def)

lemma length_frame_wire:
  "frame_ok f \<Longrightarrow> length (frame_wire f) = 6 + unat (fr_MessageLength f)"
  by (auto simp: frame_ok_def frame_wire_def)

lemma Frame_Decode_back:
  assumes "frame_ok f"
  shows "Frame_Decode f0 (frame_wire f @ rest, spare) =
    (let g = f\<lparr>fr_TLVs := fr_TLVs f0\<rparr>
     in if 5 < length rest then decode_tlvs (frame_wire f @ rest) (length (frame_wire f)) g
        else Some (g, None))"
proof -
  from assms obtain p where p: "fr_Payload f = Some p" "unat (fr_MessageLength f) = length p"
    and l: "fr_MessageLength f < 16777216" by (auto simp: frame_ok_def)
  let ?h = "le16 (fr_ExtensionType f) @ enc_u8 (fr_MessageType f) @ le24 (fr_MessageLength f)"
  have hdr: "reslice (frame_wire f @ rest, spare) 0 FrameHeaderSize = Some ?h"
    by (simp add: reslice_def FrameHeaderSize_def frame_wire_def)
  have pl: "reslice (frame_wire f @ rest, spare) FrameHeaderSize
      (FrameHeaderSize + unat (fr_MessageLength f)) = Some (p @ [])"
    by (simp add: reslice_def FrameHeaderSize_def frame_wire_def p)
  let ?f1 = "f0\<lparr>fr_ExtensionType := fr_ExtensionType f, fr_MessageType := fr_MessageType f,
    fr_MessageLength := fr_MessageLength f\<rparr>"
  have h1: "Frame_DecodeHeader f0 (Some ?h) = Some (?f1, None)"
    using DecodeHeader_back [OF l, of f0 _ _ "[]"] by simp
  have h2: "Frame_ReadPayload ?f1 (Some (p @ [])) = Some (f\<lparr>fr_TLVs := fr_TLVs f0\<rparr>, None)"
    using p by (subst ReadPayload_back) simp_all
  show ?thesis
    unfolding Frame_Decode_def using hdr pl h1 h2 length_frame_wire [OF assms]
    by (simp add: FrameHeaderSize_def)
qed

lemma NewFrameFromParams_ok:
  assumes "NewFrameFromParams Encode mt ext m = Inr f"
  shows "frame_ok f \<and> fr_TLVs f = None \<and> (\<exists>b. Encode m = (b, None) \<and> fr_Payload f = Some b)"
proof -
  from assms obtain b where b: "Encode m = (b, None)" "length b \<le> 16777215"
    and f: "fr_Payload f = Some b" "fr_TLVs f = None" "fr_MessageLength f = word_of_nat (length b)"
    by (auto simp: NewFrameFromParams_def MaxU24_value Let_def
        split: prod.splits option.splits if_splits)
  then show ?thesis
    by (simp add: frame_ok_def word_less_nat_alt unat_of_nat take_bit_nat_eq_self)
qed

text \<open>
  Any parameters through the frame layer, whatever their \<open>Encode\<close> and \<open>Decode\<close> are: what
  \<open>NewFrameFromParams\<close> frames is decoded to the same frame, and \<open>ToParams\<close> calls
  \<open>Decode\<close> on exactly the bytes of \<open>Encode\<close>.
\<close>

lemma frame_of_params:
  assumes "NewFrameFromParams Encode mt ext m = Inr f"
  shows "fr_MessageType f = mt" and "fr_ExtensionType f = ext" and "fr_Payload f = Some (fst (Encode m))"
    and "Frame_Encode f = ((frame_wire f, None), f)"
    and "Frame_Decode zero_Frame (frame_wire f, spare) = Some (f, None)"
    and "Frame_ToParams Decode f m0 = Decode m0 (Some (fst (Encode m)))"
proof -
  from NewFrameFromParams_ok [OF assms] obtain b where f: "frame_ok f" "fr_TLVs f = None"
    and b: "Encode m = (b, None)" "fr_Payload f = Some b" by blast
  show "fr_MessageType f = mt" "fr_ExtensionType f = ext"
    using assms by (auto simp: NewFrameFromParams_def Let_def split: prod.splits option.splits if_splits)
  show payload: "fr_Payload f = Some (fst (Encode m))" using b by simp
  show "Frame_Encode f = ((frame_wire f, None), f)"
    using f frame_ok_len by (simp add: Frame_Encode_plain)
  show "Frame_Decode zero_Frame (frame_wire f, spare) = Some (f, None)"
    using Frame_Decode_back [OF f(1), of zero_Frame "[]" spare] f(2) by (simp add: zero_Frame_def)
  show "Frame_ToParams Decode f m0 = Decode m0 (Some (fst (Encode m)))"
    using payload by (simp add: Frame_ToParams_def)
qed

text \<open>The bytes of a framed message are decoded to a frame that \<open>ToParams\<close> reads as the message.\<close>

definition frames_back ::
    "('m \<Rightarrow> byte list \<times> error option) \<Rightarrow> ('m \<Rightarrow> slice \<Rightarrow> ('m \<times> error option) option) \<Rightarrow> bool" where
  "frames_back Encode Decode \<longleftrightarrow>
     (\<forall>mt ext m f m0 spare. NewFrameFromParams Encode mt ext m = Inr f \<longrightarrow>
        (\<exists>b. fst (Frame_Encode f) = (b, None) \<and>
          (\<exists>g. Frame_Decode zero_Frame (b, spare) = Some (g, None) \<and> fr_MessageType g = mt \<and>
            fr_ExtensionType g = ext \<and> Frame_ToParams Decode g m0 = Some (m, None))))"

context message_codec
begin

lemma wire_roundtrip:
  assumes "NewFrameFromParams Encode mt ext m = Inr f"
  shows "Frame_ToParams Decode f m0 = Some (m, None)"
  using NewFrameFromParams_ok [OF assms] frame_of_params(6) [OF assms, of Decode m0]
    decode_encode [of m _ m0 "[]"] by auto

lemma codec_frames_back: "frames_back Encode Decode"
  unfolding frames_back_def using frame_of_params wire_roundtrip by fastforce

end

text \<open>Frames from a stream: one frame is taken, what follows it stays.\<close>

context io_reader
begin

lemma Frame_DecodeFromReader_back:
  assumes "ready r" and "avail r = frame_wire f @ s" and "frame_ok f" and "fr_TLVs f0 = fr_TLVs f"
  shows "\<exists>r'. Frame_DecodeFromReader rd f0 r = Some ((f, None), r') \<and> avail r' = s \<and> ready r'"
proof -
  from assms(3) obtain p where p: "fr_Payload f = Some p" "unat (fr_MessageLength f) = length p"
    and l: "fr_MessageLength f < 16777216" by (auto simp: frame_ok_def)
  let ?h = "le16 (fr_ExtensionType f) @ enc_u8 (fr_MessageType f) @ le24 (fr_MessageLength f)"
  obtain r1 where r1: "ReadFull rd r 6 = Some ((?h, None), r1)" "avail r1 = p @ s" "ready r1"
    using ReadFull_append [OF assms(1), of ?h "p @ s"] assms(2) p by (auto simp: frame_wire_def)
  obtain r2 where r2: "ReadFull rd r1 (length p) = Some ((p, None), r2)" "avail r2 = s" "ready r2"
    using ReadFull_append [OF r1(3,2)] by blast
  have "Frame_DecodeHeader f0 (Some ?h) = Some (f0\<lparr>fr_ExtensionType := fr_ExtensionType f,
      fr_MessageType := fr_MessageType f, fr_MessageLength := fr_MessageLength f\<rparr>, None)"
    using DecodeHeader_back [OF l, of f0 _ _ "[]"] by simp
  with r1 r2 p assms(4) show ?thesis
    by (auto simp: Frame_DecodeFromReader_def FrameHeaderSize_def)
qed

end

section \<open>TLVs\<close>

text \<open>A TLV as the protocol lays it out, and one whose length field is right.\<close>

definition tlv_wire :: "TLV \<Rightarrow> byte list" where
  "tlv_wire t = le16 (tlv_ExtensionType t) @ enc_u8 (tlv_FieldType t) @ le16 (tlv_Length t) @ tlv_Value t"

definition tlv_ok :: "TLV \<Rightarrow> bool" where
  "tlv_ok t \<longleftrightarrow> unat (tlv_Length t) = length (tlv_Value t)"

text \<open>What \<open>Encode\<close> writes: the length is there twice, before and inside the value.\<close>

definition tlv_bytes :: "TLV \<Rightarrow> byte list" where
  "tlv_bytes t = le16 (tlv_ExtensionType t) @ enc_u8 (tlv_FieldType t) @ le16 (tlv_Length t) @
     enc_bin16 (tlv_Value t)"

lemma TLV_Encode_eq:
  "TLV_Encode t =
     (if length (tlv_Value t) \<le> 65535 then (tlv_bytes t, None)
      else (le16 (tlv_ExtensionType t) @ enc_u8 (tlv_FieldType t) @ le16 (tlv_Length t),
        Some AddBin64K_len_gt_65535))"
  by (simp add: TLV_Encode_def tlv_bytes_def Let_def Bytes_view go_view fld_defs)

lemma length_tlv_wire: "length (tlv_wire t) = 5 + length (tlv_Value t)"
  by (simp add: tlv_wire_def)

lemma length_tlv_bytes: "length (tlv_bytes t) = 7 + length (tlv_Value t)"
  by (simp add: tlv_bytes_def)

lemma TLV_Decode_header:
  assumes "n = unat l"
  shows "TLV_Decode t0 (Some (le16 e @ enc_u8 ft @ le16 l @ s)) =
    (if n \<le> length s
     then Some (\<lparr>tlv_ExtensionType = e, tlv_FieldType = ft, tlv_Length = l, tlv_Value = take n s\<rparr>, None)
     else TLV_Decode t0 (Some (le16 e @ enc_u8 ft @ le16 l @ s)))"
proof -
  have "read (cursor pre s) (int n) = Some (Some (take n s), cursor (pre @ take n s) (drop n s))"
    if "n \<le> length s" for pre using that by (simp add: read_cursor)
  moreover have "uint l = int n" using assms by simp
  ultimately show ?thesis
    by (auto simp: TLV_Decode_def Let_def NewBinaryReader_cursor ReadU16_cursor ReadU8_cursor
        enc_u8_def ReadBytes_def)
qed

lemma TLV_Decode_wire:
  "tlv_ok t \<Longrightarrow> TLV_Decode t0 (Some (tlv_wire t @ s)) = Some (t, None)"
  using TLV_Decode_header [of "length (tlv_Value t)" "tlv_Length t" t0 _ _ "tlv_Value t @ s"]
  by (simp add: tlv_ok_def tlv_wire_def)

text \<open>The loop reads back a sequence of TLVs; fewer than five bytes after it are ignored.\<close>

lemma decode_tlvs_back:
  "list_all tlv_ok ts \<Longrightarrow> length s < 5 \<Longrightarrow>
     decode_tlvs (pre @ concat (map tlv_wire ts) @ s) (length pre) f =
       Some (f\<lparr>fr_TLVs := (if ts = [] then fr_TLVs f
         else Some ((case fr_TLVs f of None \<Rightarrow> [] | Some us \<Rightarrow> us) @ ts))\<rparr>, None)"
proof (induction ts arbitrary: pre f)
  case Nil
  then show ?case by (simp add: decode_tlvs.simps [of "pre @ s"])
next
  case (Cons t ts)
  let ?b = "pre @ tlv_wire t @ concat (map tlv_wire ts) @ s"
  have t: "tlv_ok t" using Cons.prems by simp
  have off: "length pre + (unat (tlv_Length t) + 5) = length (pre @ tlv_wire t)"
    using t by (simp add: tlv_ok_def length_tlv_wire)
  have "\<not> int (length ?b) - int (length pre) < 5" by (simp add: length_tlv_wire)
  then have "decode_tlvs ?b (length pre) f =
      decode_tlvs ?b (length (pre @ tlv_wire t)) (f\<lparr>fr_TLVs := tlvs_append (fr_TLVs f) t\<rparr>)"
    using TLV_Decode_wire [OF t, of zero_TLV "concat (map tlv_wire ts) @ s"]
    by (subst decode_tlvs.simps) (simp add: off del: length_append)
  with Cons.IH [of "pre @ tlv_wire t" "f\<lparr>fr_TLVs := tlvs_append (fr_TLVs f) t\<rparr>"] Cons.prems
  show ?case by (simp add: tlvs_append_def split: option.splits)
qed

text \<open>
  \<open>Encode\<close> of a frame with TLVs: they are sorted by extension type, in the order given
  where that is the same, and become part of the payload and of the message length.
\<close>

definition sorted_tlvs :: "TLV list \<Rightarrow> TLV list" where
  "sorted_tlvs ts = sort_key tlv_ExtensionType ts"

definition tlv_block :: "TLV list \<Rightarrow> byte list" where
  "tlv_block ts = concat (map tlv_bytes (sorted_tlvs ts))"

lemma encode_tlvs_ok:
  "\<forall>t \<in> set ts. length (tlv_Value t) \<le> 65535 \<Longrightarrow> view bb = (bs, None) \<Longrightarrow>
     \<exists>bb'. encode_tlvs bb ts = Inr bb' \<and> view bb' = (bs @ concat (map tlv_bytes ts), None)"
proof (induction ts arbitrary: bb bs)
  case Nil
  then show ?case by simp
next
  case (Cons t ts)
  then have "view (AddBytes bb (tlv_bytes t)) = (bs @ tlv_bytes t, None)"
    by (simp add: go_view fld_raw_def)
  from Cons.IH [OF _ this] Cons.prems show ?case by (simp add: TLV_Encode_eq)
qed

lemma encode_tlvs_err:
  "\<exists>t \<in> set ts. 65535 < length (tlv_Value t) \<Longrightarrow>
     encode_tlvs bb ts = Inl AddBin64K_len_gt_65535"
  by (induction ts arbitrary: bb) (auto simp: TLV_Encode_eq)

lemma Frame_Encode_tlvs:
  assumes "uint (fr_MessageLength f) = slice_len (fr_Payload f)" and "fr_TLVs f = Some ts"
    and "\<forall>t \<in> set ts. length (tlv_Value t) \<le> 65535"
  defines "f' \<equiv> f\<lparr>fr_MessageLength := fr_MessageLength f + word_of_nat (length (tlv_block ts)),
      fr_Payload := slice_append (fr_Payload f) (tlv_block ts), fr_TLVs := Some (sorted_tlvs ts)\<rparr>"
  shows "Frame_Encode f = ((frame_wire f', None), f')"
proof -
  obtain bb where bb: "encode_tlvs NewBinaryBuilder (sorted_tlvs ts) = Inr bb"
      "view bb = (tlv_block ts, None)"
    using encode_tlvs_ok [of "sorted_tlvs ts" NewBinaryBuilder "[]"] assms(3)
    by (auto simp: go_view tlv_block_def sorted_tlvs_def)
  moreover have "Bytes bb = (tlv_block ts, None)" "Len bb = length (tlv_block ts)"
    using bb(2) by (auto simp: Bytes_view Len_def view_def)
  ultimately show ?thesis
    using assms(1,2) by (simp add: Frame_Encode_def frame_bytes_wire frame_wire_def sorted_tlvs_def f'_def Let_def)
qed

section \<open>Properties\<close>

text \<open>Reading frames from a stream one after another.\<close>

fun read_frames ::
    "('r \<Rightarrow> int \<Rightarrow> ((byte list \<times> error option) \<times> 'r) option) \<Rightarrow> nat \<Rightarrow> 'r \<Rightarrow> (Frame list \<times> 'r) option" where
  "read_frames rd 0 r = Some ([], r)"
| "read_frames rd (Suc n) r =
     (case Frame_DecodeFromReader rd zero_Frame r of
        Some ((f, None), r) \<Rightarrow> do { (fs, r) \<leftarrow> read_frames rd n r; Some (f # fs, r) }
      | _ \<Rightarrow> None)"

definition plain_frame :: "Frame \<Rightarrow> bool" where
  "plain_frame f \<longleftrightarrow> frame_ok f \<and> fr_TLVs f = None"

context io_reader
begin

lemma read_frames_back:
  "ready r \<Longrightarrow> avail r = concat (map frame_wire fs) @ s \<Longrightarrow> list_all plain_frame fs \<Longrightarrow>
     \<exists>r'. read_frames rd (length fs) r = Some (fs, r') \<and> avail r' = s \<and> ready r'"
proof (induction fs arbitrary: r)
  case Nil
  then show ?case by simp
next
  case (Cons f fs)
  then obtain r1 where "Frame_DecodeFromReader rd zero_Frame r = Some ((f, None), r1)"
    "avail r1 = concat (map frame_wire fs) @ s" "ready r1"
    using Frame_DecodeFromReader_back [of r f "concat (map frame_wire fs) @ s" zero_Frame]
    by (auto simp: plain_frame_def zero_Frame_def)
  with Cons.IH [of r1] Cons.prems(3) show ?case by auto
qed

end

text \<open>
  C9. A sequence of frames without TLVs, whose length fields are the lengths of their
  payloads, is read back from a connection however their bytes are cut into chunks, and what
  follows the last frame stays unread.
\<close>

theorem frames_from_stream:
  assumes "list_all plain_frame fs" and "concat chunks = concat (map frame_wire fs) @ rest"
  shows "\<exists>chunks'. read_frames conn_Read (length fs) chunks = Some (fs, chunks') \<and>
    concat chunks' = rest"
  using conn.read_frames_back [OF TrueI assms(2,1)] by auto

theorem frames_from_stream_witness:
  "\<exists>chunks'. read_frames conn_Read (Suc (Suc 0)) [[0, 0, 5, 2], [0, 0, 7], [8, 0, 0, 6, 0, 0, 0, 9]] =
     Some ([\<lparr>fr_ExtensionType = 0, fr_MessageType = 5, fr_MessageLength = 2, fr_Payload = Some [7, 8],
        fr_TLVs = None\<rparr>,
      \<lparr>fr_ExtensionType = 0, fr_MessageType = 6, fr_MessageLength = 0, fr_Payload = Some [],
        fr_TLVs = None\<rparr>], chunks') \<and> concat chunks' = [9]"
  using frames_from_stream [of "[\<lparr>fr_ExtensionType = 0, fr_MessageType = 5, fr_MessageLength = 2,
      fr_Payload = Some [7, 8], fr_TLVs = None\<rparr>, \<lparr>fr_ExtensionType = 0, fr_MessageType = 6,
      fr_MessageLength = 0, fr_Payload = Some [], fr_TLVs = None\<rparr>]"
    "[[0, 0, 5, 2], [0, 0, 7], [8, 0, 0, 6, 0, 0, 0, 9]]" "[9]"]
  by (simp add: plain_frame_def frame_ok_def frame_wire_def le16_def le24_def le32_def enc_u8_def
      slice_bytes_def del: read_frames.simps)

text \<open>
  C27. \<open>Encode\<close> of a frame: a length field that is not the length of the payload is an
  error and leaves the frame alone; without TLVs the bytes are header and payload; with
  TLVs these are sorted by extension type, encoded and appended to the payload, whose
  length grows with them, and a TLV value too long for its prefix is an error.
\<close>

theorem Frame_Encode_branches:
  "(uint (fr_MessageLength f) \<noteq> slice_len (fr_Payload f) \<longrightarrow>
      Frame_Encode f = (([], Some Frame_MessageLength_neq_len), f)) \<and>
   (uint (fr_MessageLength f) = slice_len (fr_Payload f) \<longrightarrow>
      (fr_TLVs f = None \<longrightarrow> Frame_Encode f = ((frame_wire f, None), f)) \<and>
      (\<forall>ts. fr_TLVs f = Some ts \<longrightarrow>
         ((\<exists>t \<in> set ts. 65535 < length (tlv_Value t)) \<longrightarrow>
            fst (Frame_Encode f) = ([], Some AddBin64K_len_gt_65535)) \<and>
         ((\<forall>t \<in> set ts. length (tlv_Value t) \<le> 65535) \<longrightarrow>
            (let f' = f\<lparr>fr_MessageLength := fr_MessageLength f + word_of_nat (length (tlv_block ts)),
                 fr_Payload := slice_append (fr_Payload f) (tlv_block ts),
                 fr_TLVs := Some (sorted_tlvs ts)\<rparr>
             in Frame_Encode f = ((frame_wire f', None), f')))))"
proof (intro conjI impI allI)
  fix ts assume "uint (fr_MessageLength f) = slice_len (fr_Payload f)" "fr_TLVs f = Some ts"
    "\<exists>t \<in> set ts. 65535 < length (tlv_Value t)"
  then show "fst (Frame_Encode f) = ([], Some AddBin64K_len_gt_65535)"
    using encode_tlvs_err [of "sort_key tlv_ExtensionType ts"] by (simp add: Frame_Encode_def)
qed (auto simp: Frame_Encode_plain Frame_Encode_tlvs Let_def, simp add: Frame_Encode_def)

theorem Frame_Encode_branches_witness:
  "Frame_Encode (zero_Frame\<lparr>fr_MessageLength := 1\<rparr>) =
     (([], Some Frame_MessageLength_neq_len), zero_Frame\<lparr>fr_MessageLength := 1\<rparr>) \<and>
   fst (Frame_Encode zero_Frame) = ([0, 0, 0, 0, 0, 0], None)"
  using Frame_Encode_branches [of "zero_Frame\<lparr>fr_MessageLength := 1\<rparr>"]
    Frame_Encode_branches [of zero_Frame]
  by (simp add: zero_Frame_def slice_len_def frame_wire_def le16_def le24_def le32_def enc_u8_def
      slice_bytes_def)

text \<open>
  TLVs laid out as the protocol says, behind a frame, are all decoded, in order; only
  when they take exactly five bytes, a single TLV with an empty value, are they dropped.
\<close>

lemma Frame_Decode_tlvs:
  assumes "frame_ok f" and "fr_TLVs f = None" and "list_all tlv_ok ts"
  shows "Frame_Decode zero_Frame (frame_wire f @ concat (map tlv_wire ts), spare) =
    Some (f\<lparr>fr_TLVs := (if 5 < length (concat (map tlv_wire ts)) then Some ts else None)\<rparr>, None)"
proof -
  have "ts \<noteq> []" if "5 < length (concat (map tlv_wire ts))" using that by auto
  then show ?thesis
    using Frame_Decode_back [OF assms(1), of zero_Frame "concat (map tlv_wire ts)" spare]
      decode_tlvs_back [OF assms(3), of "[]" "frame_wire f" "f\<lparr>fr_TLVs := None\<rparr>"] assms(2)
    by (simp add: zero_Frame_def Let_def)
qed

text \<open>
  \<open>TLV.Encode\<close> is not undone by \<open>TLV.Decode\<close>: the length is written twice, so the
  decoded value starts with the two bytes of the second length and lacks its last two.
\<close>

lemma TLV_Decode_Encode:
  assumes "tlv_ok t"
  shows "\<exists>b. TLV_Encode t = (b, None) \<and> TLV_Decode t0 (Some b) =
    Some (t\<lparr>tlv_Value := take (length (tlv_Value t)) (le16 (tlv_Length t) @ tlv_Value t)\<rparr>, None)"
proof -
  let ?n = "length (tlv_Value t)"
  have "?n \<le> 65535"
    using assms unsigned_less [of "tlv_Length t", where ?'a = nat] by (simp add: tlv_ok_def)
  moreover have "word_of_nat ?n = tlv_Length t"
    unfolding assms [unfolded tlv_ok_def, symmetric] by simp
  ultimately show ?thesis
    using TLV_Decode_header [of ?n "tlv_Length t" t0 _ _ "enc_bin16 (tlv_Value t)"] assms
    by (simp add: TLV_Encode_eq tlv_bytes_def tlv_ok_def enc_bin16_def)
qed

text \<open>
  C28. TLVs laid out as the protocol says, behind a frame, are all decoded, in order; only
  when they take exactly five bytes, a single TLV with an empty value, are they dropped.
  \<open>TLV.Encode\<close> does not lay them out so: it writes the length twice, and from what it
  writes \<open>TLV.Decode\<close> reads a value that starts with the second length and lacks its last
  two bytes.
\<close>

theorem tlv_wire_format:
  assumes "frame_ok f" and "fr_TLVs f = None" and "list_all tlv_ok ts"
  shows "Frame_Decode zero_Frame (frame_wire f @ concat (map tlv_wire ts), spare) =
      Some (f\<lparr>fr_TLVs := (if 5 < length (concat (map tlv_wire ts)) then Some ts else None)\<rparr>, None) \<and>
    (\<forall>t \<in> set ts. \<exists>b. TLV_Encode t = (b, None) \<and> TLV_Decode t0 (Some b) =
      Some (t\<lparr>tlv_Value := take (length (tlv_Value t)) (le16 (tlv_Length t) @ tlv_Value t)\<rparr>, None))"
  using Frame_Decode_tlvs [OF assms] TLV_Decode_Encode assms(3) by (auto simp: list_all_iff)

theorem tlv_wire_format_witness:
  "Frame_Decode zero_Frame ([0, 0, 0, 0, 0, 0] @ [1, 0, 2, 1, 0, 9], []) =
     Some (zero_Frame\<lparr>fr_Payload := Some [], fr_TLVs := Some [\<lparr>tlv_ExtensionType = 1, tlv_FieldType = 2,
       tlv_Length = 1, tlv_Value = [9]\<rparr>]\<rparr>, None)"
  using tlv_wire_format [of "zero_Frame\<lparr>fr_Payload := Some []\<rparr>"
      "[\<lparr>tlv_ExtensionType = 1, tlv_FieldType = 2, tlv_Length = 1, tlv_Value = [9]\<rparr>]" "[]"]
  by (simp add: zero_Frame_def frame_ok_def tlv_ok_def frame_wire_def tlv_wire_def le16_def le24_def
      le32_def enc_u8_def slice_bytes_def)

end
