(* ===== verification/Core_Messages.thy ===== *)
theory Core_Messages
  imports Frames
begin

text \<open>
  The messages every protocol shares (\<open>src/core.go\<close>): one record per struct, and its
  \<open>Encode\<close> and \<open>Decode\<close> methods field by field in the order of the source. Each
  message is shown to be a \<open>message_codec\<close>.
\<close>

section \<open>SetupConnection\<close>

record SetupConnection =
  sc_Protocol :: u8
  sc_MinVersion :: u16
  sc_MaxVersion :: u16
  sc_Flags :: u32
  sc_EndpointPort :: u16
  sc_EndpointHost :: string
  sc_DeviceVendor :: string
  sc_DeviceHardwareVersion :: string
  sc_DeviceFirmware :: string
  sc_DeviceID :: string

definition SetupConnection_Encode :: "SetupConnection \<Rightarrow> byte list \<times> error option" where
  "SetupConnection_Encode m =
     (let out = Grow NewBinaryBuilder 256;
          out = AddU8 out (sc_Protocol m);
          out = AddU16 out (sc_MinVersion m);
          out = AddU16 out (sc_MaxVersion m);
          out = AddU32 out (sc_Flags m);
          out = AddStr255 out (sc_EndpointHost m);
          out = AddU16 out (sc_EndpointPort m);
          out = AddStr255 out (sc_DeviceVendor m);
          out = AddStr255 out (sc_DeviceHardwareVersion m);
          out = AddStr255 out (sc_DeviceFirmware m);
          out = AddStr255 out (sc_DeviceID m)
      in Bytes out)"

definition SetupConnection_Decode ::
    "SetupConnection \<Rightarrow> slice \<Rightarrow> (SetupConnection \<times> error option) option" where
  "SetupConnection_Decode m b = do {
     let r = NewBinaryReader b;
     (x, r) \<leftarrow> ReadU8 r; let m = m\<lparr>sc_Protocol := x\<rparr>;
     (x, r) \<leftarrow> ReadU16 r; let m = m\<lparr>sc_MinVersion := x\<rparr>;
     (x, r) \<leftarrow> ReadU16 r; let m = m\<lparr>sc_MaxVersion := x\<rparr>;
     (x, r) \<leftarrow> ReadU32 r; let m = m\<lparr>sc_Flags := x\<rparr>;
     (x, r) \<leftarrow> ReadStr255 r; let m = m\<lparr>sc_EndpointHost := x\<rparr>;
     (x, r) \<leftarrow> ReadU16 r; let m = m\<lparr>sc_EndpointPort := x\<rparr>;
     (x, r) \<leftarrow> ReadStr255 r; let m = m\<lparr>sc_DeviceVendor := x\<rparr>;
     (x, r) \<leftarrow> ReadStr255 r; let m = m\<lparr>sc_DeviceHardwareVersion := x\<rparr>;
     (x, r) \<leftarrow> ReadStr255 r; let m = m\<lparr>sc_DeviceFirmware := x\<rparr>;
     (x, r) \<leftarrow> ReadStr255 r; let m = m\<lparr>sc_DeviceID := x\<rparr>;
     Some (m, Error r) }"

interpretation SetupConnection: message_codec SetupConnection_Encode SetupConnection_Decode
proof unfold_locales
  fix m m0 :: SetupConnection and b t assume "SetupConnection_Encode m = (b, None)"
  then show "SetupConnection_Decode m0 (Some (b @ t)) = Some (m, None)"
    by (auto simp: SetupConnection_Encode_def SetupConnection_Decode_def codec_simps)
next
  fix m0 m :: SetupConnection and b assume "SetupConnection_Decode m0 (Some b) = Some (m, None)"
  then show "\<exists>bs t. b = bs @ t \<and> SetupConnection_Encode m = (bs, None)"
    by (auto simp: SetupConnection_Encode_def SetupConnection_Decode_def decode_simps
        elim!: read_parsedEs)
qed

section \<open>SetupConnectionSuccess\<close>

record SetupConnectionSuccess =
  scs_UsedVersion :: u16
  scs_Flags :: u32

definition SetupConnectionSuccess_Encode :: "SetupConnectionSuccess \<Rightarrow> byte list \<times> error option" where
  "SetupConnectionSuccess_Encode m =
     (let out = Grow NewBinaryBuilder 6;
          out = AddU16 out (scs_UsedVersion m);
          out = AddU32 out (scs_Flags m)
      in Bytes out)"

definition SetupConnectionSuccess_Decode ::
    "SetupConnectionSuccess \<Rightarrow> slice \<Rightarrow> (SetupConnectionSuccess \<times> error option) option" where
  "SetupConnectionSuccess_Decode m b = do {
     let r = NewBinaryReader b;
     (x, r) \<leftarrow> ReadU16 r; let m = m\<lparr>scs_UsedVersion := x\<rparr>;
     (x, r) \<leftarrow> ReadU32 r; let m = m\<lparr>scs_Flags := x\<rparr>;
     Some (m, Error r) }"

interpretation SetupConnectionSuccess: message_codec SetupConnectionSuccess_Encode SetupConnectionSuccess_Decode
proof unfold_locales
  fix m m0 :: SetupConnectionSuccess and b t assume "SetupConnectionSuccess_Encode m = (b, None)"
  then show "SetupConnectionSuccess_Decode m0 (Some (b @ t)) = Some (m, None)"
    by (auto simp: SetupConnectionSuccess_Encode_def SetupConnectionSuccess_Decode_def codec_simps)
next
  fix m0 m :: SetupConnectionSuccess and b assume "SetupConnectionSuccess_Decode m0 (Some b) = Some (m, None)"
  then show "\<exists>bs t. b = bs @ t \<and> SetupConnectionSuccess_Encode m = (bs, None)"
    by (auto simp: SetupConnectionSuccess_Encode_def SetupConnectionSuccess_Decode_def decode_simps
        elim!: read_parsedEs)
qed

section \<open>SetupConnectionError\<close>

record SetupConnectionError =
  sce_Flags :: u32
  sce_ErrorCode :: string

definition SetupConnectionError_Encode :: "SetupConnectionError \<Rightarrow> byte list \<times> error option" where
  "SetupConnectionError_Encode m =
     (let out = Grow NewBinaryBuilder 259;
          out = AddU32 out (sce_Flags m);
          out = AddStr255 out (sce_ErrorCode m)
      in Bytes out)"

definition SetupConnectionError_Decode ::
    "SetupConnectionError \<Rightarrow> slice \<Rightarrow> (SetupConnectionError \<times> error option) option" where
  "SetupConnectionError_Decode m b = do {
     let r = NewBinaryReader b;
     (x, r) \<leftarrow> ReadU32 r; let m = m\<lparr>sce_Flags := x\<rparr>;
     (x, r) \<leftarrow> ReadStr255 r; let m = m\<lparr>sce_ErrorCode := x\<rparr>;
     Some (m, Error r) }"

interpretation SetupConnectionError: message_codec SetupConnectionError_Encode SetupConnectionError_Decode
proof unfold_locales
  fix m m0 :: SetupConnectionError and b t assume "SetupConnectionError_Encode m = (b, None)"
  then show "SetupConnectionError_Decode m0 (Some (b @ t)) = Some (m, None)"
    by (auto simp: SetupConnectionError_Encode_def SetupConnectionError_Decode_def codec_simps)
next
  fix m0 m :: SetupConnectionError and b assume "SetupConnectionError_Decode m0 (Some b) = Some (m, None)"
  then show "\<exists>bs t. b = bs @ t \<and> SetupConnectionError_Encode m = (bs, None)"
    by (auto simp: SetupConnectionError_Encode_def SetupConnectionError_Decode_def decode_simps
        elim!: read_parsedEs)
qed

section \<open>ChannelEndpointChanged\<close>

record ChannelEndpointChanged =
  cec_ChannelID :: u32

definition ChannelEndpointChanged_Encode :: "ChannelEndpointChanged \<Rightarrow> byte list \<times> error option" where
  "ChannelEndpointChanged_Encode m =
     (let out = NewBinaryBuilder;
          out = AddU32 out (cec_ChannelID m)
      in Bytes out)"

definition ChannelEndpointChanged_Decode ::
    "ChannelEndpointChanged \<Rightarrow> slice \<Rightarrow> (ChannelEndpointChanged \<times> error option) option" where
  "ChannelEndpointChanged_Decode m b = do {
     let r = NewBinaryReader b;
     (x, r) \<leftarrow> ReadU32 r; let m = m\<lparr>cec_ChannelID := x\<rparr>;
     Some (m, Error r) }"

interpretation ChannelEndpointChanged: message_codec ChannelEndpointChanged_Encode ChannelEndpointChanged_Decode
proof unfold_locales
  fix m m0 :: ChannelEndpointChanged and b t assume "ChannelEndpointChanged_Encode m = (b, None)"
  then show "ChannelEndpointChanged_Decode m0 (Some (b @ t)) = Some (m, None)"
    by (auto simp: ChannelEndpointChanged_Encode_def ChannelEndpointChanged_Decode_def codec_simps)
next
  fix m0 m :: ChannelEndpointChanged and b assume "ChannelEndpointChanged_Decode m0 (Some b) = Some (m, None)"
  then show "\<exists>bs t. b = bs @ t \<and> ChannelEndpointChanged_Encode m = (bs, None)"
    by (auto simp: ChannelEndpointChanged_Encode_def ChannelEndpointChanged_Decode_def decode_simps
        elim!: read_parsedEs)
qed

section \<open>Reconnect\<close>

record Reconnect =
  rc_NewHost :: string
  rc_NewPort :: u16

definition Reconnect_Encode :: "Reconnect \<Rightarrow> byte list \<times> error option" where
  "Reconnect_Encode m =
     (let out = Grow NewBinaryBuilder 257;
          out = AddStr255 out (rc_NewHost m);
          out = AddU16 out (rc_NewPort m)
      in Bytes out)"

definition Reconnect_Decode ::
    "Reconnect \<Rightarrow> slice \<Rightarrow> (Reconnect \<times> error option) option" where
  "Reconnect_Decode m b = do {
     let r = NewBinaryReader b;
     (x, r) \<leftarrow> ReadStr255 r; let m = m\<lparr>rc_NewHost := x\<rparr>;
     (x, r) \<leftarrow> ReadU16 r; let m = m\<lparr>rc_NewPort := x\<rparr>;
     Some (m, Error r) }"

interpretation Reconnect: message_codec Reconnect_Encode Reconnect_Decode
proof unfold_locales
  fix m m0 :: Reconnect and b t assume "Reconnect_Encode m = (b, None)"
  then show "Reconnect_Decode m0 (Some (b @ t)) = Some (m, None)"
    by (auto simp: Reconnect_Encode_def Reconnect_Decode_def codec_simps)
next
  fix m0 m :: Reconnect and b assume "Reconnect_Decode m0 (Some b) = Some (m, None)"
  then show "\<exists>bs t. b = bs @ t \<and> Reconnect_Encode m = (bs, None)"
    by (auto simp: Reconnect_Encode_def Reconnect_Decode_def decode_simps
        elim!: read_parsedEs)
qed

end
