(* ===== verification/Mining_Messages.thy ===== *)
theory Mining_Messages
  imports Frames
begin

text \<open>
  The mining protocol's messages (\<open>src/mining.go\<close>). An embedded struct is a record
  that the embedding one extends. Every message but \<open>SetCustomMiningJob\<close>, which has
  a theory of its own, is shown to be a \<open>message_codec\<close>.
\<close>

section \<open>OpenStandardMiningChannel\<close>

record OpenStandardMiningChannel =
  omc_RequestID :: u32
  omc_UserIdentity :: string
  omc_NominalHashRate :: float32
  omc_MaxTarget :: U256

definition OpenStandardMiningChannel_Encode :: "'a OpenStandardMiningChannel_scheme \<Rightarrow> byte list \<times> error option" where
  "OpenStandardMiningChannel_Encode m =
     (let out = Grow NewBinaryBuilder 64;
          out = AddU32 out (omc_RequestID m);
          out = AddStr255 out (omc_UserIdentity m);
          out = AddF32 out (omc_NominalHashRate m);
          out = AddU256 out (omc_MaxTarget m)
      in Bytes out)"

definition OpenStandardMiningChannel_Decode ::
    "OpenStandardMiningChannel \<Rightarrow> slice \<Rightarrow> (OpenStandardMiningChannel \<times> error option) option" where
  "OpenStandardMiningChannel_Decode m b = do {
     let r = NewBinaryReader b;
     (x, r) \<leftarrow> ReadU32 r; let m = m\<lparr>omc_RequestID := x\<rparr>;
     (x, r) \<leftarrow> ReadStr255 r; let m = m\<lparr>omc_UserIdentity := x\<rparr>;
     (x, r) \<leftarrow> ReadF32 r; let m = m\<lparr>omc_NominalHashRate := x\<rparr>;
     (x, r) \<leftarrow> ReadU256 r; let m = m\<lparr>omc_MaxTarget := x\<rparr>;
     Some (m, Error r) }"

interpretation OpenStandardMiningChannel: message_codec OpenStandardMiningChannel_Encode OpenStandardMiningChannel_Decode
proof unfold_locales
  fix m m0 :: OpenStandardMiningChannel and b t assume "OpenStandardMiningChannel_Encode m = (b, None)"
  then show "OpenStandardMiningChannel_Decode m0 (Some (b @ t)) = Some (m, None)"
    by (auto simp: OpenStandardMiningChannel_Encode_def OpenStandardMiningChannel_Decode_def codec_simps)
next
  fix m0 m :: OpenStandardMiningChannel and b assume "OpenStandardMiningChannel_Decode m0 (Some b) = Some (m, None)"
  then show "\<exists>bs t. b = bs @ t \<and> OpenStandardMiningChannel_Encode m = (bs, None)"
    by (auto simp: OpenStandardMiningChannel_Encode_def OpenStandardMiningChannel_Decode_def decode_simps
        elim!: read_parsedEs)
qed

section \<open>OpenStandardMiningChannelSuccess\<close>

record OpenStandardMiningChannelSuccess =
  omcs_RequestID :: u32
  omcs_ChannelID :: u32
  omcs_Target :: U256
  omcs_ExtranoncePrefix :: "byte list"
  omcs_GroupChannelID :: u32

definition OpenStandardMiningChannelSuccess_Encode :: "OpenStandardMiningChannelSuccess \<Rightarrow> byte list \<times> error option" where
  "OpenStandardMiningChannelSuccess_Encode m =
     (let out = Grow NewBinaryBuilder 72;
          out = AddU32 out (omcs_RequestID m);
          out = AddU32 out (omcs_ChannelID m);
          out = AddU256 out (omcs_Target m);
          out = AddBin32 out (omcs_ExtranoncePrefix m);
          out = AddU32 out (omcs_GroupChannelID m)
      in Bytes out)"

definition OpenStandardMiningChannelSuccess_Decode ::
    "OpenStandardMiningChannelSuccess \<Rightarrow> slice \<Rightarrow> (OpenStandardMiningChannelSuccess \<times> error option) option" where
  "OpenStandardMiningChannelSuccess_Decode m b = do {
     let r = NewBinaryReader b;
     (x, r) \<leftarrow> ReadU32 r; let m = m\<lparr>omcs_RequestID := x\<rparr>;
     (x, r) \<leftarrow> ReadU32 r; let m = m\<lparr>omcs_ChannelID := x\<rparr>;
     (x, r) \<leftarrow> ReadU256 r; let m = m\<lparr>omcs_Target := x\<rparr>;
     (x, r) \<leftarrow> bytes_result (ReadBin32 r); let m = m\<lparr>omcs_ExtranoncePrefix := x\<rparr>;
     (x, r) \<leftarrow> ReadU32 r; let m = m\<lparr>omcs_GroupChannelID := x\<rparr>;
     Some (m, Error r) }"

interpretation OpenStandardMiningChannelSuccess: message_codec OpenStandardMiningChannelSuccess_Encode OpenStandardMiningChannelSuccess_Decode
proof unfold_locales
  fix m m0 :: OpenStandardMiningChannelSuccess and b t assume "OpenStandardMiningChannelSuccess_Encode m = (b, None)"
  then show "OpenStandardMiningChannelSuccess_Decode m0 (Some (b @ t)) = Some (m, None)"
    by (auto simp: OpenStandardMiningChannelSuccess_Encode_def OpenStandardMiningChannelSuccess_Decode_def codec_simps)
next
  fix m0 m :: OpenStandardMiningChannelSuccess and b assume "OpenStandardMiningChannelSuccess_Decode m0 (Some b) = Some (m, None)"
  then show "\<exists>bs t. b = bs @ t \<and> OpenStandardMiningChannelSuccess_Encode m = (bs, None)"
    by (auto simp: OpenStandardMiningChannelSuccess_Encode_def OpenStandardMiningChannelSuccess_Decode_def decode_simps
        elim!: read_parsedEs)
qed

section \<open>OpenExtendedMiningChannel\<close>

record OpenExtendedMiningChannel = OpenStandardMiningChannel +
  oemc_MinExtranonceSize :: u16

definition OpenExtendedMiningChannel_Encode :: "OpenExtendedMiningChannel \<Rightarrow> byte list \<times> error option" where
  "OpenExtendedMiningChannel_Encode m =
     (let (b, err) = OpenStandardMiningChannel_Encode m
      in if err \<noteq> None then ([], err)
      else let out = Grow NewBinaryBuilder 72;
          out = AddBytes out b;
          out = AddU16 out (oemc_MinExtranonceSize m)
      in Bytes out)"

definition OpenExtendedMiningChannel_Decode ::
    "OpenExtendedMiningChannel \<Rightarrow> slice \<Rightarrow> (OpenExtendedMiningChannel \<times> error option) option" where
  "OpenExtendedMiningChannel_Decode m b = do {
     let r = NewBinaryReader b;
     (x, r) \<leftarrow> ReadU32 r; let m = m\<lparr>omc_RequestID := x\<rparr>;
     (x, r) \<leftarrow> ReadStr255 r; let m = m\<lparr>omc_UserIdentity := x\<rparr>;
     (x, r) \<leftarrow> ReadF32 r; let m = m\<lparr>omc_NominalHashRate := x\<rparr>;
     (x, r) \<leftarrow> ReadU256 r; let m = m\<lparr>omc_MaxTarget := x\<rparr>;
     (x, r) \<leftarrow> ReadU16 r; let m = m\<lparr>oemc_MinExtranonceSize := x\<rparr>;
     Some (m, Error r) }"

interpretation OpenExtendedMiningChannel: message_codec OpenExtendedMiningChannel_Encode OpenExtendedMiningChannel_Decode
proof unfold_locales
  fix m m0 :: OpenExtendedMiningChannel and b t assume "OpenExtendedMiningChannel_Encode m = (b, None)"
  then show "OpenExtendedMiningChannel_Decode m0 (Some (b @ t)) = Some (m, None)"
    by (auto simp: OpenExtendedMiningChannel_Encode_def OpenExtendedMiningChannel_Decode_def
        OpenStandardMiningChannel_Encode_def fld_raw_def codec_simps
        split: prod.splits if_splits)
next
  fix m0 m :: OpenExtendedMiningChannel and b assume "OpenExtendedMiningChannel_Decode m0 (Some b) = Some (m, None)"
  then show "\<exists>bs t. b = bs @ t \<and> OpenExtendedMiningChannel_Encode m = (bs, None)"
    by (auto simp: OpenExtendedMiningChannel_Encode_def OpenExtendedMiningChannel_Decode_def
        OpenStandardMiningChannel_Encode_def fld_raw_def decode_simps
        elim!: read_parsedEs)
qed

section \<open>OpenExtendedMiningChannelSuccess\<close>

record OpenExtendedMiningChannelSuccess = OpenStandardMiningChannelSuccess +
  oemcs_ExtranonceSize :: u16

definition OpenExtendedMiningChannelSuccess_Encode :: "OpenExtendedMiningChannelSuccess \<Rightarrow> byte list \<times> error option" where
  "OpenExtendedMiningChannelSuccess_Encode m =
     (let out = Grow NewBinaryBuilder 80;
          out = AddU32 out (omcs_RequestID m);
          out = AddU32 out (omcs_ChannelID m);
          out = AddU256 out (omcs_Target m);
          out = AddU16 out (oemcs_ExtranonceSize m);
          out = AddBin32 out (omcs_ExtranoncePrefix m);
          out = AddU32 out (omcs_GroupChannelID m)
      in Bytes out)"

definition OpenExtendedMiningChannelSuccess_Decode ::
    "OpenExtendedMiningChannelSuccess \<Rightarrow> slice \<Rightarrow> (OpenExtendedMiningChannelSuccess \<times> error option) option" where
  "OpenExtendedMiningChannelSuccess_Decode m b = do {
     let r = NewBinaryReader b;
     (x, r) \<leftarrow> ReadU32 r; let m = m\<lparr>omcs_RequestID := x\<rparr>;
     (x, r) \<leftarrow> ReadU32 r; let m = m\<lparr>omcs_ChannelID := x\<rparr>;
     (x, r) \<leftarrow> ReadU256 r; let m = m\<lparr>omcs_Target := x\<rparr>;
     (x, r) \<leftarrow> ReadU16 r; let m = m\<lparr>oemcs_ExtranonceSize := x\<rparr>;
     (x, r) \<leftarrow> bytes_result (ReadBin32 r); let m = m\<lparr>omcs_ExtranoncePrefix := x\<rparr>;
     (x, r) \<leftarrow> ReadU32 r; let m = m\<lparr>omcs_GroupChannelID := x\<rparr>;
     Some (m, Error r) }"

interpretation OpenExtendedMiningChannelSuccess: message_codec OpenExtendedMiningChannelSuccess_Encode OpenExtendedMiningChannelSuccess_Decode
proof unfold_locales
  fix m m0 :: OpenExtendedMiningChannelSuccess and b t assume "OpenExtendedMiningChannelSuccess_Encode m = (b, None)"
  then show "OpenExtendedMiningChannelSuccess_Decode m0 (Some (b @ t)) = Some (m, None)"
    by (auto simp: OpenExtendedMiningChannelSuccess_Encode_def OpenExtendedMiningChannelSuccess_Decode_def codec_simps)
next
  fix m0 m :: OpenExtendedMiningChannelSuccess and b assume "OpenExtendedMiningChannelSuccess_Decode m0 (Some b) = Some (m, None)"
  then show "\<exists>bs t. b = bs @ t \<and> OpenExtendedMiningChannelSuccess_Encode m = (bs, None)"
    by (auto simp: OpenExtendedMiningChannelSuccess_Encode_def OpenExtendedMiningChannelSuccess_Decode_def decode_simps
        elim!: read_parsedEs)
qed

section \<open>OpenMiningChannelError\<close>

record OpenMiningChannelError =
  omce_RequestID :: u32
  omce_ErrorCode :: string

definition OpenMiningChannelError_Encode :: "OpenMiningChannelError \<Rightarrow> byte list \<times> error option" where
  "OpenMiningChannelError_Encode m =
     (let out = Grow NewBinaryBuilder 24;
          out = AddU32 out (omce_RequestID m);
          out = AddStr255 out (omce_ErrorCode m)
      in Bytes out)"

definition OpenMiningChannelError_Decode ::
    "OpenMiningChannelError \<Rightarrow> slice \<Rightarrow> (OpenMiningChannelError \<times> error option) option" where
  "OpenMiningChannelError_Decode m b = do {
     let r = NewBinaryReader b;
     (x, r) \<leftarrow> ReadU32 r; let m = m\<lparr>omce_RequestID := x\<rparr>;
     (x, r) \<leftarrow> ReadStr255 r; let m = m\<lparr>omce_ErrorCode := x\<rparr>;
     Some (m, Error r) }"

interpretation OpenMiningChannelError: message_codec OpenMiningChannelError_Encode OpenMiningChannelError_Decode
proof unfold_locales
  fix m m0 :: OpenMiningChannelError and b t assume "OpenMiningChannelError_Encode m = (b, None)"
  then show "OpenMiningChannelError_Decode m0 (Some (b @ t)) = Some (m, None)"
    by (auto simp: OpenMiningChannelError_Encode_def OpenMiningChannelError_Decode_def codec_simps)
next
  fix m0 m :: OpenMiningChannelError and b assume "OpenMiningChannelError_Decode m0 (Some b) = Some (m, None)"
  then show "\<exists>bs t. b = bs @ t \<and> OpenMiningChannelError_Encode m = (bs, None)"
    by (auto simp: OpenMiningChannelError_Encode_def OpenMiningChannelError_Decode_def decode_simps
        elim!: read_parsedEs)
qed

section \<open>UpdateChannel\<close>

record UpdateChannel =
  uc_ChannelID :: u32
  uc_NominalHashRate :: float32
  uc_MaxTarget :: U256

definition UpdateChannel_Encode :: "UpdateChannel \<Rightarrow> byte list \<times> error option" where
  "UpdateChannel_Encode m =
     (let out = Grow NewBinaryBuilder 40;
          out = AddU32 out (uc_ChannelID m);
          out = AddF32 out (uc_NominalHashRate m);
          out = AddU256 out (uc_MaxTarget m)
      in Bytes out)"

definition UpdateChannel_Decode ::
    "UpdateChannel \<Rightarrow> slice \<Rightarrow> (UpdateChannel \<times> error option) option" where
  "UpdateChannel_Decode m b = do {
     let r = NewBinaryReader b;
     (x, r) \<leftarrow> ReadU32 r; let m = m\<lparr>uc_ChannelID := x\<rparr>;
     (x, r) \<leftarrow> ReadF32 r; let m = m\<lparr>uc_NominalHashRate := x\<rparr>;
     (x, r) \<leftarrow> ReadU256 r; let m = m\<lparr>uc_MaxTarget := x\<rparr>;
     Some (m, Error r) }"

interpretation UpdateChannel: message_codec UpdateChannel_Encode UpdateChannel_Decode
proof unfold_locales
  fix m m0 :: UpdateChannel and b t assume "UpdateChannel_Encode m = (b, None)"
  then show "UpdateChannel_Decode m0 (Some (b @ t)) = Some (m, None)"
    by (auto simp: UpdateChannel_Encode_def UpdateChannel_Decode_def codec_simps)
next
  fix m0 m :: UpdateChannel and b assume "UpdateChannel_Decode m0 (Some b) = Some (m, None)"
  then show "\<exists>bs t. b = bs @ t \<and> UpdateChannel_Encode m = (bs, None)"
    by (auto simp: UpdateChannel_Encode_def UpdateChannel_Decode_def decode_simps
        elim!: read_parsedEs)
qed

section \<open>UpdateChannelError\<close>

record UpdateChannelError =
  uce_ChannelID :: u32
  uce_ErrorCode :: string

definition UpdateChannelError_Encode :: "UpdateChannelError \<Rightarrow> byte list \<times> error option" where
  "UpdateChannelError_Encode m =
     (let out = Grow NewBinaryBuilder 24;
          out = AddU32 out (uce_ChannelID m);
          out = AddStr255 out (uce_ErrorCode m)
      in Bytes out)"

definition UpdateChannelError_Decode ::
    "UpdateChannelError \<Rightarrow> slice \<Rightarrow> (UpdateChannelError \<times> error option) option" where
  "UpdateChannelError_Decode m b = do {
     let r = NewBinaryReader b;
     (x, r) \<leftarrow> ReadU32 r; let m = m\<lparr>uce_ChannelID := x\<rparr>;
     (x, r) \<leftarrow> ReadStr255 r; let m = m\<lparr>uce_ErrorCode := x\<rparr>;
     Some (m, Error r) }"

interpretation UpdateChannelError: message_codec UpdateChannelError_Encode UpdateChannelError_Decode
proof unfold_locales
  fix m m0 :: UpdateChannelError and b t assume "UpdateChannelError_Encode m = (b, None)"
  then show "UpdateChannelError_Decode m0 (Some (b @ t)) = Some (m, None)"
    by (auto simp: UpdateChannelError_Encode_def UpdateChannelError_Decode_def codec_simps)
next
  fix m0 m :: UpdateChannelError and b assume "UpdateChannelError_Decode m0 (Some b) = Some (m, None)"
  then show "\<exists>bs t. b = bs @ t \<and> UpdateChannelError_Encode m = (bs, None)"
    by (auto simp: UpdateChannelError_Encode_def UpdateChannelError_Decode_def decode_simps
        elim!: read_parsedEs)
qed

section \<open>CloseChannel\<close>

record CloseChannel =
  cc_ChannelID :: u32
  cc_ReasonCode :: string

definition CloseChannel_Encode :: "CloseChannel \<Rightarrow> byte list \<times> error option" where
  "CloseChannel_Encode m =
     (let out = Grow NewBinaryBuilder 24;
          out = AddU32 out (cc_ChannelID m);
          out = AddStr255 out (cc_ReasonCode m)
      in Bytes out)"

definition CloseChannel_Decode ::
    "CloseChannel \<Rightarrow> slice \<Rightarrow> (CloseChannel \<times> error option) option" where
  "CloseChannel_Decode m b = do {
     let r = NewBinaryReader b;
     (x, r) \<leftarrow> ReadU32 r; let m = m\<lparr>cc_ChannelID := x\<rparr>;
     (x, r) \<leftarrow> ReadStr255 r; let m = m\<lparr>cc_ReasonCode := x\<rparr>;
     Some (m, Error r) }"

interpretation CloseChannel: message_codec CloseChannel_Encode CloseChannel_Decode
proof unfold_locales
  fix m m0 :: CloseChannel and b t assume "CloseChannel_Encode m = (b, None)"
  then show "CloseChannel_Decode m0 (Some (b @ t)) = Some (m, None)"
    by (auto simp: CloseChannel_Encode_def CloseChannel_Decode_def codec_simps)
next
  fix m0 m :: CloseChannel and b assume "CloseChannel_Decode m0 (Some b) = Some (m, None)"
  then show "\<exists>bs t. b = bs @ t \<and> CloseChannel_Encode m = (bs, None)"
    by (auto simp: CloseChannel_Encode_def CloseChannel_Decode_def decode_simps
        elim!: read_parsedEs)
qed

section \<open>SetExtranoncePrefix\<close>

record SetExtranoncePrefix =
  sep_ChannelID :: u32
  sep_ExtranoncePrefix :: "byte list"

definition SetExtranoncePrefix_Encode :: "SetExtranoncePrefix \<Rightarrow> byte list \<times> error option" where
  "SetExtranoncePrefix_Encode m =
     (let out = Grow NewBinaryBuilder 32;
          out = AddU32 out (sep_ChannelID m);
          out = AddBin32 out (sep_ExtranoncePrefix m)
      in Bytes out)"

definition SetExtranoncePrefix_Decode ::
    "SetExtranoncePrefix \<Rightarrow> slice \<Rightarrow> (SetExtranoncePrefix \<times> error option) option" where
  "SetExtranoncePrefix_Decode m b = do {
     let r = NewBinaryReader b;
     (x, r) \<leftarrow> ReadU32 r; let m = m\<lparr>sep_ChannelID := x\<rparr>;
     (x, r) \<leftarrow> bytes_result (ReadBin32 r); let m = m\<lparr>sep_ExtranoncePrefix := x\<rparr>;
     Some (m, Error r) }"

interpretation SetExtranoncePrefix: message_codec SetExtranoncePrefix_Encode SetExtranoncePrefix_Decode
proof unfold_locales
  fix m m0 :: SetExtranoncePrefix and b t assume "SetExtranoncePrefix_Encode m = (b, None)"
  then show "SetExtranoncePrefix_Decode m0 (Some (b @ t)) = Some (m, None)"
    by (auto simp: SetExtranoncePrefix_Encode_def SetExtranoncePrefix_Decode_def codec_simps)
next
  fix m0 m :: SetExtranoncePrefix and b assume "SetExtranoncePrefix_Decode m0 (Some b) = Some (m, None)"
  then show "\<exists>bs t. b = bs @ t \<and> SetExtranoncePrefix_Encode m = (bs, None)"
    by (auto simp: SetExtranoncePrefix_Encode_def SetExtranoncePrefix_Decode_def decode_simps
        elim!: read_parsedEs)
qed

section \<open>SubmitSharesStandard\<close>

record SubmitSharesStandard =
  sss_ChannelID :: u32
  sss_Sequence :: u32
  sss_JobID :: u32
  sss_Nonce :: u32
  sss_Time :: u32
  sss_Version :: u32

definition SubmitSharesStandard_Encode :: "'a SubmitSharesStandard_scheme \<Rightarrow> byte list \<times> error option" where
  "SubmitSharesStandard_Encode m =
     (let out = Grow NewBinaryBuilder 24;
          out = AddU32 out (sss_ChannelID m);
          out = AddU32 out (sss_Sequence m);
          out = AddU32 out (sss_JobID m);
          out = AddU32 out (sss_Nonce m);
          out = AddU32 out (sss_Time m);
          out = AddU32 out (sss_Version m)
      in Bytes out)"

definition SubmitSharesStandard_Decode ::
    "SubmitSharesStandard \<Rightarrow> slice \<Rightarrow> (SubmitSharesStandard \<times> error option) option" where
  "SubmitSharesStandard_Decode m b = do {
     let r = NewBinaryReader b;
     (x, r) \<leftarrow> ReadU32 r; let m = m\<lparr>sss_ChannelID := x\<rparr>;
     (x, r) \<leftarrow> ReadU32 r; let m = m\<lparr>sss_Sequence := x\<rparr>;
     (x, r) \<leftarrow> ReadU32 r; let m = m\<lparr>sss_JobID := x\<rparr>;
     (x, r) \<leftarrow> ReadU32 r; let m = m\<lparr>sss_Nonce := x\<rparr>;
     (x, r) \<leftarrow> ReadU32 r; let m = m\<lparr>sss_Time := x\<rparr>;
     (x, r) \<leftarrow> ReadU32 r; let m = m\<lparr>sss_Version := x\<rparr>;
     Some (m, Error r) }"

interpretation SubmitSharesStandard: message_codec SubmitSharesStandard_Encode SubmitSharesStandard_Decode
proof unfold_locales
  fix m m0 :: SubmitSharesStandard and b t assume "SubmitSharesStandard_Encode m = (b, None)"
  then show "SubmitSharesStandard_Decode m0 (Some (b @ t)) = Some (m, None)"
    by (auto simp: SubmitSharesStandard_Encode_def SubmitSharesStandard_Decode_def codec_simps)
next
  fix m0 m :: SubmitSharesStandard and b assume "SubmitSharesStandard_Decode m0 (Some b) = Some (m, None)"
  then show "\<exists>bs t. b = bs @ t \<and> SubmitSharesStandard_Encode m = (bs, None)"
    by (auto simp: SubmitSharesStandard_Encode_def SubmitSharesStandard_Decode_def decode_simps
        elim!: read_parsedEs)
qed

section \<open>SubmitSharesExtended\<close>

record SubmitSharesExtended = SubmitSharesStandard +
  sse_Extranonce :: "byte list"

definition SubmitSharesExtended_Encode :: "SubmitSharesExtended \<Rightarrow> byte list \<times> error option" where
  "SubmitSharesExtended_Encode m =
     (let (b, err) = SubmitSharesStandard_Encode m
      in if err \<noteq> None then ([], err)
      else let out = Grow NewBinaryBuilder 48;
          out = AddBytes out b;
          out = AddBin32 out (sse_Extranonce m)
      in Bytes out)"

definition SubmitSharesExtended_Decode ::
    "SubmitSharesExtended \<Rightarrow> slice \<Rightarrow> (SubmitSharesExtended \<times> error option) option" where
  "SubmitSharesExtended_Decode m b = do {
     let r = NewBinaryReader b;
     (x, r) \<leftarrow> ReadU32 r; let m = m\<lparr>sss_ChannelID := x\<rparr>;
     (x, r) \<leftarrow> ReadU32 r; let m = m\<lparr>sss_Sequence := x\<rparr>;
     (x, r) \<leftarrow> ReadU32 r; let m = m\<lparr>sss_JobID := x\<rparr>;
     (x, r) \<leftarrow> ReadU32 r; let m = m\<lparr>sss_Nonce := x\<rparr>;
     (x, r) \<leftarrow> ReadU32 r; let m = m\<lparr>sss_Time := x\<rparr>;
     (x, r) \<leftarrow> ReadU32 r; let m = m\<lparr>sss_Version := x\<rparr>;
     (x, r) \<leftarrow> bytes_result (ReadBin32 r); let m = m\<lparr>sse_Extranonce := x\<rparr>;
     Some (m, Error r) }"

interpretation SubmitSharesExtended: message_codec SubmitSharesExtended_Encode SubmitSharesExtended_Decode
proof unfold_locales
  fix m m0 :: SubmitSharesExtended and b t assume "SubmitSharesExtended_Encode m = (b, None)"
  then show "SubmitSharesExtended_Decode m0 (Some (b @ t)) = Some (m, None)"
    by (auto simp: SubmitSharesExtended_Encode_def SubmitSharesExtended_Decode_def
        SubmitSharesStandard_Encode_def fld_raw_def codec_simps
        split: prod.splits if_splits)
next
  fix m0 m :: SubmitSharesExtended and b assume "SubmitSharesExtended_Decode m0 (Some b) = Some (m, None)"
  then show "\<exists>bs t. b = bs @ t \<and> SubmitSharesExtended_Encode m = (bs, None)"
    by (auto simp: SubmitSharesExtended_Encode_def SubmitSharesExtended_Decode_def
        SubmitSharesStandard_Encode_def fld_raw_def decode_simps
        elim!: read_parsedEs)
qed

section \<open>SubmitSharesSuccess\<close>

record SubmitSharesSuccess =
  ssu_ChannelID :: u32
  ssu_LastSequenceNumber :: u32
  ssu_NewSubmitsAcceptedCount :: u32
  ssu_NewSharesSum :: u64

definition SubmitSharesSuccess_Encode :: "SubmitSharesSuccess \<Rightarrow> byte list \<times> error option" where
  "SubmitSharesSuccess_Encode m =
     (let out = Grow NewBinaryBuilder 24;
          out = AddU32 out (ssu_ChannelID m);
          out = AddU32 out (ssu_LastSequenceNumber m);
          out = AddU32 out (ssu_NewSubmitsAcceptedCount m);
          out = AddU64 out (ssu_NewSharesSum m)
      in Bytes out)"

definition SubmitSharesSuccess_Decode ::
    "SubmitSharesSuccess \<Rightarrow> slice \<Rightarrow> (SubmitSharesSuccess \<times> error option) option" where
  "SubmitSharesSuccess_Decode m b = do {
     let r = NewBinaryReader b;
     (x, r) \<leftarrow> ReadU32 r; let m = m\<lparr>ssu_ChannelID := x\<rparr>;
     (x, r) \<leftarrow> ReadU32 r; let m = m\<lparr>ssu_LastSequenceNumber := x\<rparr>;
     (x, r) \<leftarrow> ReadU32 r; let m = m\<lparr>ssu_NewSubmitsAcceptedCount := x\<rparr>;
     (x, r) \<leftarrow> ReadU64 r; let m = m\<lparr>ssu_NewSharesSum := x\<rparr>;
     Some (m, Error r) }"

interpretation SubmitSharesSuccess: message_codec SubmitSharesSuccess_Encode SubmitSharesSuccess_Decode
proof unfold_locales
  fix m m0 :: SubmitSharesSuccess and b t assume "SubmitSharesSuccess_Encode m = (b, None)"
  then show "SubmitSharesSuccess_Decode m0 (Some (b @ t)) = Some (m, None)"
    by (auto simp: SubmitSharesSuccess_Encode_def SubmitSharesSuccess_Decode_def codec_simps)
next
  fix m0 m :: SubmitSharesSuccess and b assume "SubmitSharesSuccess_Decode m0 (Some b) = Some (m, None)"
  then show "\<exists>bs t. b = bs @ t \<and> SubmitSharesSuccess_Encode m = (bs, None)"
    by (auto simp: SubmitSharesSuccess_Encode_def SubmitSharesSuccess_Decode_def decode_simps
        elim!: read_parsedEs)
qed

section \<open>SubmitSharesError\<close>

record SubmitSharesError =
  sser_ChannelID :: u32
  sser_SequenceNumber :: u32
  sser_ErrorCode :: string

definition SubmitSharesError_Encode :: "SubmitSharesError \<Rightarrow> byte list \<times> error option" where
  "SubmitSharesError_Encode m =
     (let out = Grow NewBinaryBuilder 24;
          out = AddU32 out (sser_ChannelID m);
          out = AddU32 out (sser_SequenceNumber m);
          out = AddStr255 out (sser_ErrorCode m)
      in Bytes out)"

definition SubmitSharesError_Decode ::
    "SubmitSharesError \<Rightarrow> slice \<Rightarrow> (SubmitSharesError \<times> error option) option" where
  "SubmitSharesError_Decode m b = do {
     let r = NewBinaryReader b;
     (x, r) \<leftarrow> ReadU32 r; let m = m\<lparr>sser_ChannelID := x\<rparr>;
     (x, r) \<leftarrow> ReadU32 r; let m = m\<lparr>sser_SequenceNumber := x\<rparr>;
     (x, r) \<leftarrow> ReadStr255 r; let m = m\<lparr>sser_ErrorCode := x\<rparr>;
     Some (m, Error r) }"

interpretation SubmitSharesError: message_codec SubmitSharesError_Encode SubmitSharesError_Decode
proof unfold_locales
  fix m m0 :: SubmitSharesError and b t assume "SubmitSharesError_Encode m = (b, None)"
  then show "SubmitSharesError_Decode m0 (Some (b @ t)) = Some (m, None)"
    by (auto simp: SubmitSharesError_Encode_def SubmitSharesError_Decode_def codec_simps)
next
  fix m0 m :: SubmitSharesError and b assume "SubmitSharesError_Decode m0 (Some b) = Some (m, None)"
  then show "\<exists>bs t. b = bs @ t \<and> SubmitSharesError_Encode m = (bs, None)"
    by (auto simp: SubmitSharesError_Encode_def SubmitSharesError_Decode_def decode_simps
        elim!: read_parsedEs)
qed

section \<open>NewMiningJob\<close>

record NewMiningJob =
  nmj_ChannelID :: u32
  nmj_JobID :: u32
  nmj_MinTime :: "u32 list"
  nmj_Version :: u32
  nmj_MerkleRoot :: U256

definition NewMiningJob_Encode :: "NewMiningJob \<Rightarrow> byte list \<times> error option" where
  "NewMiningJob_Encode m =
     (let out = Grow NewBinaryBuilder 72;
          out = AddU32 out (nmj_ChannelID m);
          out = AddU32 out (nmj_JobID m);
          out = AddOptionT out (U32Sequence (nmj_MinTime m));
          out = AddU32 out (nmj_Version m);
          out = AddU256 out (nmj_MerkleRoot m)
      in Bytes out)"

definition NewMiningJob_Decode ::
    "NewMiningJob \<Rightarrow> slice \<Rightarrow> (NewMiningJob \<times> error option) option" where
  "NewMiningJob_Decode m b = do {
     let r = NewBinaryReader b;
     (x, r) \<leftarrow> ReadU32 r; let m = m\<lparr>nmj_ChannelID := x\<rparr>;
     (x, r) \<leftarrow> ReadU32 r; let m = m\<lparr>nmj_JobID := x\<rparr>;
     (x, r) \<leftarrow> ReadOptionU32 r; let m = m\<lparr>nmj_MinTime := x\<rparr>;
     (x, r) \<leftarrow> ReadU32 r; let m = m\<lparr>nmj_Version := x\<rparr>;
     (x, r) \<leftarrow> ReadU256 r; let m = m\<lparr>nmj_MerkleRoot := x\<rparr>;
     Some (m, Error r) }"

interpretation NewMiningJob: message_codec NewMiningJob_Encode NewMiningJob_Decode
proof unfold_locales
  fix m m0 :: NewMiningJob and b t assume "NewMiningJob_Encode m = (b, None)"
  then show "NewMiningJob_Decode m0 (Some (b @ t)) = Some (m, None)"
    by (auto simp: NewMiningJob_Encode_def NewMiningJob_Decode_def codec_simps)
next
  fix m0 m :: NewMiningJob and b assume "NewMiningJob_Decode m0 (Some b) = Some (m, None)"
  then show "\<exists>bs t. b = bs @ t \<and> NewMiningJob_Encode m = (bs, None)"
    by (auto simp: NewMiningJob_Encode_def NewMiningJob_Decode_def decode_simps
        elim!: read_parsedEs)
qed

section \<open>NewExtendedMiningJob\<close>

record NewExtendedMiningJob =
  nej_ChannelID :: u32
  nej_JobID :: u32
  nej_MinTime :: "u32 list"
  nej_Version :: u32
  nej_MerklePath :: "U256 list"
  nej_VersionRollingAllowed :: bool
  nej_CoinbasePrefix :: "byte list"
  nej_CoinbaseSuffix :: "byte list"

definition NewExtendedMiningJob_Encode :: "NewExtendedMiningJob \<Rightarrow> byte list \<times> error option" where
  "NewExtendedMiningJob_Encode m =
     (let out = Grow NewBinaryBuilder 255;
          out = AddU32 out (nej_ChannelID m);
          out = AddU32 out (nej_JobID m);
          out = AddOptionT out (U32Sequence (nej_MinTime m));
          out = AddU32 out (nej_Version m);
          out = AddBool out (nej_VersionRollingAllowed m);
          out = AddSeq255 out (U256Sequence (nej_MerklePath m));
          out = AddBin64K out (nej_CoinbasePrefix m);
          out = AddBin64K out (nej_CoinbaseSuffix m)
      in Bytes out)"

definition NewExtendedMiningJob_Decode ::
    "NewExtendedMiningJob \<Rightarrow> slice \<Rightarrow> (NewExtendedMiningJob \<times> error option) option" where
  "NewExtendedMiningJob_Decode m b = do {
     let r = NewBinaryReader b;
     (x, r) \<leftarrow> ReadU32 r; let m = m\<lparr>nej_ChannelID := x\<rparr>;
     (x, r) \<leftarrow> ReadU32 r; let m = m\<lparr>nej_JobID := x\<rparr>;
     (x, r) \<leftarrow> ReadOptionU32 r; let m = m\<lparr>nej_MinTime := x\<rparr>;
     (x, r) \<leftarrow> ReadU32 r; let m = m\<lparr>nej_Version := x\<rparr>;
     (x, r) \<leftarrow> ReadBool r; let m = m\<lparr>nej_VersionRollingAllowed := x\<rparr>;
     (x, r) \<leftarrow> ReadSeq255U256 r; let m = m\<lparr>nej_MerklePath := x\<rparr>;
     (x, r) \<leftarrow> bytes_result (ReadBin64K r); let m = m\<lparr>nej_CoinbasePrefix := x\<rparr>;
     (x, r) \<leftarrow> bytes_result (ReadBin64K r); let m = m\<lparr>nej_CoinbaseSuffix := x\<rparr>;
     Some (m, Error r) }"

interpretation NewExtendedMiningJob: message_codec NewExtendedMiningJob_Encode NewExtendedMiningJob_Decode
proof unfold_locales
  fix m m0 :: NewExtendedMiningJob and b t assume "NewExtendedMiningJob_Encode m = (b, None)"
  then show "NewExtendedMiningJob_Decode m0 (Some (b @ t)) = Some (m, None)"
    by (auto simp: NewExtendedMiningJob_Encode_def NewExtendedMiningJob_Decode_def codec_simps)
next
  fix m0 m :: NewExtendedMiningJob and b assume "NewExtendedMiningJob_Decode m0 (Some b) = Some (m, None)"
  then show "\<exists>bs t. b = bs @ t \<and> NewExtendedMiningJob_Encode m = (bs, None)"
    by (auto simp: NewExtendedMiningJob_Encode_def NewExtendedMiningJob_Decode_def decode_simps
        elim!: read_parsedEs)
qed

section \<open>SetNewPrevHash\<close>

record SetNewPrevHash =
  snp_ChannelID :: u32
  snp_JobID :: u32
  snp_PrevHash :: U256
  snp_MinTime :: u32
  snp_Bits :: u32

definition SetNewPrevHash_Encode :: "SetNewPrevHash \<Rightarrow> byte list \<times> error option" where
  "SetNewPrevHash_Encode m =
     (let out = Grow NewBinaryBuilder 48;
          out = AddU32 out (snp_ChannelID m);
          out = AddU32 out (snp_JobID m);
          out = AddU256 out (snp_PrevHash m);
          out = AddU32 out (snp_MinTime m);
          out = AddU32 out (snp_Bits m)
      in Bytes out)"

definition SetNewPrevHash_Decode ::
    "SetNewPrevHash \<Rightarrow> slice \<Rightarrow> (SetNewPrevHash \<times> error option) option" where
  "SetNewPrevHash_Decode m b = do {
     let r = NewBinaryReader b;
     (x, r) \<leftarrow> ReadU32 r; let m = m\<lparr>snp_ChannelID := x\<rparr>;
     (x, r) \<leftarrow> ReadU32 r; let m = m\<lparr>snp_JobID := x\<rparr>;
     (x, r) \<leftarrow> ReadU256 r; let m = m\<lparr>snp_PrevHash := x\<rparr>;
     (x, r) \<leftarrow> ReadU32 r; let m = m\<lparr>snp_MinTime := x\<rparr>;
     (x, r) \<leftarrow> ReadU32 r; let m = m\<lparr>snp_Bits := x\<rparr>;
     Some (m, Error r) }"

interpretation SetNewPrevHash: message_codec SetNewPrevHash_Encode SetNewPrevHash_Decode
proof unfold_locales
  fix m m0 :: SetNewPrevHash and b t assume "SetNewPrevHash_Encode m = (b, None)"
  then show "SetNewPrevHash_Decode m0 (Some (b @ t)) = Some (m, None)"
    by (auto simp: SetNewPrevHash_Encode_def SetNewPrevHash_Decode_def codec_simps)
next
  fix m0 m :: SetNewPrevHash and b assume "SetNewPrevHash_Decode m0 (Some b) = Some (m, None)"
  then show "\<exists>bs t. b = bs @ t \<and> SetNewPrevHash_Encode m = (bs, None)"
    by (auto simp: SetNewPrevHash_Encode_def SetNewPrevHash_Decode_def decode_simps
        elim!: read_parsedEs)
qed

section \<open>SetCustomMiningJobSuccess\<close>

record SetCustomMiningJobSuccess =
  scjs_ChannelID :: u32
  scjs_RequestID :: u32
  scjs_JobID :: u32

definition SetCustomMiningJobSuccess_Encode :: "SetCustomMiningJobSuccess \<Rightarrow> byte list \<times> error option" where
  "SetCustomMiningJobSuccess_Encode m =
     (let out = Grow NewBinaryBuilder 12;
          out = AddU32 out (scjs_ChannelID m);
          out = AddU32 out (scjs_RequestID m);
          out = AddU32 out (scjs_JobID m)
      in Bytes out)"

definition SetCustomMiningJobSuccess_Decode ::
    "SetCustomMiningJobSuccess \<Rightarrow> slice \<Rightarrow> (SetCustomMiningJobSuccess \<times> error option) option" where
  "SetCustomMiningJobSuccess_Decode m b = do {
     let r = NewBinaryReader b;
     (x, r) \<leftarrow> ReadU32 r; let m = m\<lparr>scjs_ChannelID := x\<rparr>;
     (x, r) \<leftarrow> ReadU32 r; let m = m\<lparr>scjs_RequestID := x\<rparr>;
     (x, r) \<leftarrow> ReadU32 r; let m = m\<lparr>scjs_JobID := x\<rparr>;
     Some (m, Error r) }"

interpretation SetCustomMiningJobSuccess: message_codec SetCustomMiningJobSuccess_Encode SetCustomMiningJobSuccess_Decode
proof unfold_locales
  fix m m0 :: SetCustomMiningJobSuccess and b t assume "SetCustomMiningJobSuccess_Encode m = (b, None)"
  then show "SetCustomMiningJobSuccess_Decode m0 (Some (b @ t)) = Some (m, None)"
    by (auto simp: SetCustomMiningJobSuccess_Encode_def SetCustomMiningJobSuccess_Decode_def codec_simps)
next
  fix m0 m :: SetCustomMiningJobSuccess and b assume "SetCustomMiningJobSuccess_Decode m0 (Some b) = Some (m, None)"
  then show "\<exists>bs t. b = bs @ t \<and> SetCustomMiningJobSuccess_Encode m = (bs, None)"
    by (auto simp: SetCustomMiningJobSuccess_Encode_def SetCustomMiningJobSuccess_Decode_def decode_simps
        elim!: read_parsedEs)
qed

section \<open>SetCustomMiningJobError\<close>

record SetCustomMiningJobError =
  scje_ChannelID :: u32
  scje_RequestID :: u32
  scje_ErrorCode :: string

definition SetCustomMiningJobError_Encode :: "SetCustomMiningJobError \<Rightarrow> byte list \<times> error option" where
  "SetCustomMiningJobError_Encode m =
     (let out = Grow NewBinaryBuilder 271;
          out = AddU32 out (scje_ChannelID m);
          out = AddU32 out (scje_RequestID m);
          out = AddStr255 out (scje_ErrorCode m)
      in Bytes out)"

definition SetCustomMiningJobError_Decode ::
    "SetCustomMiningJobError \<Rightarrow> slice \<Rightarrow> (SetCustomMiningJobError \<times> error option) option" where
  "SetCustomMiningJobError_Decode m b = do {
     let r = NewBinaryReader b;
     (x, r) \<leftarrow> ReadU32 r; let m = m\<lparr>scje_ChannelID := x\<rparr>;
     (x, r) \<leftarrow> ReadU32 r; let m = m\<lparr>scje_RequestID := x\<rparr>;
     (x, r) \<leftarrow> ReadStr255 r; let m = m\<lparr>scje_ErrorCode := x\<rparr>;
     Some (m, Error r) }"

interpretation SetCustomMiningJobError: message_codec SetCustomMiningJobError_Encode SetCustomMiningJobError_Decode
proof unfold_locales
  fix m m0 :: SetCustomMiningJobError and b t assume "SetCustomMiningJobError_Encode m = (b, None)"
  then show "SetCustomMiningJobError_Decode m0 (Some (b @ t)) = Some (m, None)"
    by (auto simp: SetCustomMiningJobError_Encode_def SetCustomMiningJobError_Decode_def codec_simps)
next
  fix m0 m :: SetCustomMiningJobError and b assume "SetCustomMiningJobError_Decode m0 (Some b) = Some (m, None)"
  then show "\<exists>bs t. b = bs @ t \<and> SetCustomMiningJobError_Encode m = (bs, None)"
    by (auto simp: SetCustomMiningJobError_Encode_def SetCustomMiningJobError_Decode_def decode_simps
        elim!: read_parsedEs)
qed

section \<open>SetTarget\<close>

record SetTarget =
  st_ChannelID :: u32
  st_MaxTarget :: U256

definition SetTarget_Encode :: "SetTarget \<Rightarrow> byte list \<times> error option" where
  "SetTarget_Encode m =
     (let out = Grow NewBinaryBuilder 36;
          out = AddU32 out (st_ChannelID m);
          out = AddU256 out (st_MaxTarget m)
      in Bytes out)"

definition SetTarget_Decode ::
    "SetTarget \<Rightarrow> slice \<Rightarrow> (SetTarget \<times> error option) option" where
  "SetTarget_Decode m b = do {
     let r = NewBinaryReader b;
     (x, r) \<leftarrow> ReadU32 r; let m = m\<lparr>st_ChannelID := x\<rparr>;
     (x, r) \<leftarrow> ReadU256 r; let m = m\<lparr>st_MaxTarget := x\<rparr>;
     Some (m, Error r) }"

interpretation SetTarget: message_codec SetTarget_Encode SetTarget_Decode
proof unfold_locales
  fix m m0 :: SetTarget and b t assume "SetTarget_Encode m = (b, None)"
  then show "SetTarget_Decode m0 (Some (b @ t)) = Some (m, None)"
    by (auto simp: SetTarget_Encode_def SetTarget_Decode_def codec_simps)
next
  fix m0 m :: SetTarget and b assume "SetTarget_Decode m0 (Some b) = Some (m, None)"
  then show "\<exists>bs t. b = bs @ t \<and> SetTarget_Encode m = (bs, None)"
    by (auto simp: SetTarget_Encode_def SetTarget_Decode_def decode_simps
        elim!: read_parsedEs)
qed

section \<open>SetGroupChannel\<close>

record SetGroupChannel =
  sgc_GroupChannelID :: u32
  sgc_ChannelIDs :: "u32 list"

definition SetGroupChannel_Encode :: "SetGroupChannel \<Rightarrow> byte list \<times> error option" where
  "SetGroupChannel_Encode m =
     (let out = Grow NewBinaryBuilder 32;
          out = AddU32 out (sgc_GroupChannelID m);
          out = AddSeq64K out (U32Sequence (sgc_ChannelIDs m))
      in Bytes out)"

definition SetGroupChannel_Decode ::
    "SetGroupChannel \<Rightarrow> slice \<Rightarrow> (SetGroupChannel \<times> error option) option" where
  "SetGroupChannel_Decode m b = do {
     let r = NewBinaryReader b;
     (x, r) \<leftarrow> ReadU32 r; let m = m\<lparr>sgc_GroupChannelID := x\<rparr>;
     (x, r) \<leftarrow> ReadU32Loop r; let m = m\<lparr>sgc_ChannelIDs := x\<rparr>;
     Some (m, Error r) }"

interpretation SetGroupChannel: message_codec SetGroupChannel_Encode SetGroupChannel_Decode
proof unfold_locales
  fix m m0 :: SetGroupChannel and b t assume "SetGroupChannel_Encode m = (b, None)"
  then show "SetGroupChannel_Decode m0 (Some (b @ t)) = Some (m, None)"
    by (auto simp: SetGroupChannel_Encode_def SetGroupChannel_Decode_def codec_simps)
next
  fix m0 m :: SetGroupChannel and b assume "SetGroupChannel_Decode m0 (Some b) = Some (m, None)"
  then show "\<exists>bs t. b = bs @ t \<and> SetGroupChannel_Encode m = (bs, None)"
    by (auto simp: SetGroupChannel_Encode_def SetGroupChannel_Decode_def decode_simps
        elim!: read_parsedEs)
qed

end
