(* ===== verification/Custom_Job.thy ===== *)
theory Custom_Job
  imports Frames
begin

text \<open>
  \<open>SetCustomMiningJob\<close> of \<open>src/mining.go\<close>, the one message that is no
  \<open>message_codec\<close>: its \<open>Decode\<close> leaves out the coinbase
  outputs and the merkle path. The transaction outputs are values of a package outside
  the repository; their type is a type variable and their serialisation
  \<open>wire.WriteTxOut\<close> (with \<open>wire.LatestEncoding\<close>) a parameter.
\<close>

record 'txout SetCustomMiningJob =
  scj_ChannelID :: u32
  scj_RequestID :: u32
  scj_MiningJobToken :: "byte list"
  scj_Version :: u32
  scj_PrevHash :: U256
  scj_MinTime :: u32
  scj_Bits :: u32
  scj_CoinbaseVersion :: u32
  scj_CoinbasePrefix :: "byte list"
  scj_CoinbaseSequence :: u32
  scj_CoinbaseOutputs :: "'txout list"
  scj_CoinbaseLocktime :: u32
  scj_MerklePath :: "U256 list"

text \<open>The loop over the outputs.\<close>

definition coinbase_outputs ::
    "(u32 \<Rightarrow> u32 \<Rightarrow> 'txout \<Rightarrow> byte list) \<Rightarrow> u32 \<Rightarrow> 'txout SetCustomMiningJob \<Rightarrow> byte list" where
  "coinbase_outputs WriteTxOut LatestEncoding m =
     foldl (\<lambda>outs txout. outs @ WriteTxOut LatestEncoding (scj_CoinbaseVersion m) txout) []
       (scj_CoinbaseOutputs m)"

definition SetCustomMiningJob_Encode ::
    "(u32 \<Rightarrow> u32 \<Rightarrow> 'txout \<Rightarrow> byte list) \<Rightarrow> u32 \<Rightarrow> 'txout SetCustomMiningJob \<Rightarrow>
       byte list \<times> error option" where
  "SetCustomMiningJob_Encode WriteTxOut LatestEncoding m =
     (let coinbaseOutputs = coinbase_outputs WriteTxOut LatestEncoding m;
          out = Grow NewBinaryBuilder 2048;
          out = AddU32 out (scj_ChannelID m);
          out = AddU32 out (scj_RequestID m);
          out = AddBin255 out (scj_MiningJobToken m);
          out = AddU32 out (scj_Version m);
          out = AddU256 out (scj_PrevHash m);
          out = AddU32 out (scj_MinTime m);
          out = AddU32 out (scj_Bits m);
          out = AddU32 out (scj_CoinbaseVersion m);
          out = AddBin255 out (scj_CoinbasePrefix m);
          out = AddU32 out (scj_CoinbaseSequence m);
          out = AddBin64K out coinbaseOutputs;
          out = AddU32 out (scj_CoinbaseLocktime m);
          out = AddSeq255 out (U256Sequence (scj_MerklePath m))
      in Bytes out)"

definition SetCustomMiningJob_Decode ::
    "'txout SetCustomMiningJob \<Rightarrow> slice \<Rightarrow> ('txout SetCustomMiningJob \<times> error option) option" where
  "SetCustomMiningJob_Decode m b = do {
     let r = NewBinaryReader b;
     (x, r) \<leftarrow> ReadU32 r; let m = m\<lparr>scj_ChannelID := x\<rparr>;
     (x, r) \<leftarrow> ReadU32 r; let m = m\<lparr>scj_RequestID := x\<rparr>;
     (x, r) \<leftarrow> bytes_result (ReadBin255 r); let m = m\<lparr>scj_MiningJobToken := x\<rparr>;
     (x, r) \<leftarrow> ReadU32 r; let m = m\<lparr>scj_Version := x\<rparr>;
     (x, r) \<leftarrow> ReadU256 r; let m = m\<lparr>scj_PrevHash := x\<rparr>;
     (x, r) \<leftarrow> ReadU32 r; let m = m\<lparr>scj_MinTime := x\<rparr>;
     (x, r) \<leftarrow> ReadU32 r; let m = m\<lparr>scj_Bits := x\<rparr>;
     (x, r) \<leftarrow> ReadU32 r; let m = m\<lparr>scj_CoinbaseVersion := x\<rparr>;
     (x, r) \<leftarrow> bytes_result (ReadBin255 r); let m = m\<lparr>scj_CoinbasePrefix := x\<rparr>;
     (x, r) \<leftarrow> ReadU32 r; let m = m\<lparr>scj_CoinbaseSequence := x\<rparr>;
     (x, r) \<leftarrow> ReadU32 r; let m = m\<lparr>scj_CoinbaseLocktime := x\<rparr>;
     Some (m, Error r) }"

section \<open>What is read back\<close>

lemma coinbase_outputs_concat:
  "coinbase_outputs W e m =
     concat (map (W e (scj_CoinbaseVersion m)) (scj_CoinbaseOutputs m))"
proof -
  have "foldl (\<lambda>outs txout. outs @ f txout) acc xs = acc @ concat (map f xs)"
    for f :: "'a \<Rightarrow> byte list" and acc xs
    by (induction xs arbitrary: acc) simp_all
  then show ?thesis by (simp add: coinbase_outputs_def)
qed

text \<open>The bytes from the coinbase outputs on, where \<open>Decode\<close> reads a lock time.\<close>

definition custom_job_rest ::
    "(u32 \<Rightarrow> u32 \<Rightarrow> 'txout \<Rightarrow> byte list) \<Rightarrow> u32 \<Rightarrow> 'txout SetCustomMiningJob \<Rightarrow> byte list" where
  "custom_job_rest W e m = enc_bin16 (coinbase_outputs W e m) @ le32 (scj_CoinbaseLocktime m) @
     word_of_nat (length (scj_MerklePath m)) # concat (map array_bytes (scj_MerklePath m))"

lemma fld_Inr:
  "fld_u32 v = Inr b \<longleftrightarrow> b = le32 v"
  "fld_array a = Inr b \<longleftrightarrow> b = array_bytes a"
  "fld_bin255 s = Inr b \<longleftrightarrow> length s \<le> 255 \<and> b = enc_bin8 s"
  "fld_bin64k s = Inr b \<longleftrightarrow> length s \<le> 65535 \<and> b = enc_bin16 s"
  "fld_seq255 (U256Sequence hs) = Inr b \<longleftrightarrow>
     length hs \<le> 255 \<and> b = word_of_nat (length hs) # concat (map array_bytes hs)"
  by (auto simp: fld_defs fld_seq255_def)

lemma SetCustomMiningJob_Encode_rest:
  assumes "SetCustomMiningJob_Encode W e m = (b, None)"
  shows "b = le32 (scj_ChannelID m) @ le32 (scj_RequestID m) @ enc_bin8 (scj_MiningJobToken m) @
      le32 (scj_Version m) @ array_bytes (scj_PrevHash m) @ le32 (scj_MinTime m) @
      le32 (scj_Bits m) @ le32 (scj_CoinbaseVersion m) @ enc_bin8 (scj_CoinbasePrefix m) @
      le32 (scj_CoinbaseSequence m) @ custom_job_rest W e m \<and>
    length (scj_MiningJobToken m) \<le> 255 \<and> length (scj_CoinbasePrefix m) \<le> 255"
  using assms
  by (auto simp: SetCustomMiningJob_Encode_def Let_def Bytes_view go_view emit_ok fld_Inr
      custom_job_rest_def)

lemma SetCustomMiningJob_Decode_fields:
  assumes "SetCustomMiningJob_Encode W e m = (b, None)"
  shows "SetCustomMiningJob_Decode m0 (Some (b @ s)) =
    Some (m\<lparr>scj_CoinbaseOutputs := scj_CoinbaseOutputs m0, scj_MerklePath := scj_MerklePath m0,
      scj_CoinbaseLocktime := le_word (take 4 (custom_job_rest W e m))\<rparr>, None)"
proof -
  have "4 \<le> length (custom_job_rest W e m)" by (simp add: custom_job_rest_def)
  with SetCustomMiningJob_Encode_rest [OF assms] show ?thesis
    by (simp add: SetCustomMiningJob_Decode_def Let_def NewBinaryReader_cursor
        ReadU32_cursor ReadU256_cursor ReadBin255_enc)
qed

text \<open>
  So a lock time is shifted by the length prefix of the outputs: with no outputs it comes
  back in the upper half of the word, its own upper half lost.
\<close>

lemma custom_job_locktime:
  assumes "scj_CoinbaseOutputs m = []"
  shows "le_word (take 4 (custom_job_rest W e m)) = push_bit 16 (scj_CoinbaseLocktime m)"
proof -
  have "take 4 (custom_job_rest W e m) = [0, 0] @ take 2 (le32 (scj_CoinbaseLocktime m))"
    by (simp add: custom_job_rest_def coinbase_outputs_def assms enc_bin16_def le16_def)
  also have "\<dots> = le32 (push_bit 16 (scj_CoinbaseLocktime m))"
    unfolding le32_def by (auto intro!: bit_word_eqI simp: bit_simps)
  finally show ?thesis by simp
qed

section \<open>Properties\<close>

text \<open>
  C39. \<open>Decode\<close> of an encoded \<open>SetCustomMiningJob\<close> gives back the fields up to the
  coinbase sequence; the outputs and the merkle path stay those of the receiver, and the
  lock time is read from the four bytes where the outputs start, so that without outputs
  it comes back shifted by 16 bits.
\<close>

theorem SetCustomMiningJob_read_back:
  assumes "SetCustomMiningJob_Encode W e m = (b, None)"
  shows "SetCustomMiningJob_Decode m0 (Some (b @ s)) =
      Some (m\<lparr>scj_CoinbaseOutputs := scj_CoinbaseOutputs m0, scj_MerklePath := scj_MerklePath m0,
        scj_CoinbaseLocktime := le_word (take 4 (custom_job_rest W e m))\<rparr>, None) \<and>
    (scj_CoinbaseOutputs m = [] \<longrightarrow>
       le_word (take 4 (custom_job_rest W e m)) = push_bit 16 (scj_CoinbaseLocktime m))"
  using SetCustomMiningJob_Decode_fields [OF assms] custom_job_locktime by blast

definition sample_job :: "unit SetCustomMiningJob" where
  "sample_job = \<lparr>scj_ChannelID = 1, scj_RequestID = 2, scj_MiningJobToken = [7], scj_Version = 3,
     scj_PrevHash = zero_array, scj_MinTime = 4, scj_Bits = 5, scj_CoinbaseVersion = 6,
     scj_CoinbasePrefix = [], scj_CoinbaseSequence = 8, scj_CoinbaseOutputs = [],
     scj_CoinbaseLocktime = 9, scj_MerklePath = []\<rparr>"

theorem SetCustomMiningJob_read_back_witness:
  "\<exists>b. SetCustomMiningJob_Encode (\<lambda>_ _ _. []) 0 sample_job = (b, None) \<and>
     SetCustomMiningJob_Decode sample_job (Some (b @ [])) =
       Some (sample_job\<lparr>scj_CoinbaseLocktime := push_bit 16 9\<rparr>, None)"
proof -
  obtain b where b: "SetCustomMiningJob_Encode (\<lambda>_ _ _. []) 0 sample_job = (b, None)"
    by (simp add: SetCustomMiningJob_Encode_def Bytes_view go_view emit_ok fld_defs fld_seq255_def
        sample_job_def coinbase_outputs_def)
  with SetCustomMiningJob_read_back [OF b, of sample_job "[]"] show ?thesis
    by (simp add: sample_job_def)
qed

end
