(* ===== verification/Message_Types.thy ===== *)
theory Message_Types
  imports Binary_Reader
begin

text \<open>
  The message types, protocols, flags and extensions of \<open>src/constants.go\<close> and
  \<open>src/mining.go\<close>, and the names of the message types
  (\<open>MessageTypeToString\<close> of \<open>src/types.go\<close>). The switch over the types is a
  table in the order of its cases.
\<close>

section \<open>Constants\<close>

type_synonym MessageType = u8

definition MessageSetupConnection :: MessageType where
  "MessageSetupConnection = 0"

definition MessageSetupConnectionSuccess :: MessageType where
  "MessageSetupConnectionSuccess = 1"

definition MessageSetupConnectionError :: MessageType where
  "MessageSetupConnectionError = 2"

definition MessageChannelEndpointChanged :: MessageType where
  "MessageChannelEndpointChanged = 3"

definition MessageReconnect :: MessageType where
  "MessageReconnect = 4"

definition MessageOpenStandardMiningChannel :: MessageType where
  "MessageOpenStandardMiningChannel = 16"

definition MessageOpenStandardMiningChannelSuccess :: MessageType where
  "MessageOpenStandardMiningChannelSuccess = 17"

definition MessageOpenMiningChannelError :: MessageType where
  "MessageOpenMiningChannelError = 18"

definition MessageOpenExtendedMiningChannel :: MessageType where
  "MessageOpenExtendedMiningChannel = 19"

definition MessageOpenExtendedMiningChannelSuccess :: MessageType where
  "MessageOpenExtendedMiningChannelSuccess = 20"

definition MessageNewMiningJob :: MessageType where
  "MessageNewMiningJob = 21"

definition MessageUpdateChannel :: MessageType where
  "MessageUpdateChannel = 22"

definition MessageUpdateChannelError :: MessageType where
  "MessageUpdateChannelError = 23"

definition MessageCloseChannel :: MessageType where
  "MessageCloseChannel = 24"

definition MessageSetExtranoncePrefix :: MessageType where
  "MessageSetExtranoncePrefix = 25"

definition MessageSubmitSharesStandard :: MessageType where
  "MessageSubmitSharesStandard = 26"

definition MessageSubmitSharesExtended :: MessageType where
  "MessageSubmitSharesExtended = 27"

definition MessageSubmitSharesSuccess :: MessageType where
  "MessageSubmitSharesSuccess = 28"

definition MessageSubmitSharesError :: MessageType where
  "MessageSubmitSharesError = 29"

definition MessageReserved :: MessageType where
  "MessageReserved = 30"

definition MessageNewExtendedMiningJob :: MessageType where
  "MessageNewExtendedMiningJob = 31"

definition MessageSetNewPrevHash :: MessageType where
  "MessageSetNewPrevHash = 32"

definition MessageSetTarget :: MessageType where
  "MessageSetTarget = 33"

definition MessageSetCustomMiningJob :: MessageType where
  "MessageSetCustomMiningJob = 34"

definition MessageSetCustomMiningJobSuccess :: MessageType where
  "MessageSetCustomMiningJobSuccess = 35"

definition MessageSetCustomMiningJobError :: MessageType where
  "MessageSetCustomMiningJobError = 36"

definition MessageSetGroupChannel :: MessageType where
  "MessageSetGroupChannel = 37"

definition MessageAllocateMiningJobToken :: MessageType where
  "MessageAllocateMiningJobToken = 80"

definition MessageAllocateMiningJobTokenSuccess :: MessageType where
  "MessageAllocateMiningJobTokenSuccess = 81"

definition MessageProvideMissingTransactions :: MessageType where
  "MessageProvideMissingTransactions = 85"

definition MessageProvideMissingTransactionsSuccess :: MessageType where
  "MessageProvideMissingTransactionsSuccess = 86"

definition MessageDeclareMiningJob :: MessageType where
  "MessageDeclareMiningJob = 87"

definition MessageDeclareMiningJobSuccess :: MessageType where
  "MessageDeclareMiningJobSuccess = 88"

definition MessageDeclareMiningJobError :: MessageType where
  "MessageDeclareMiningJobError = 89"

definition MessagePushSolution :: MessageType where
  "MessagePushSolution = 96"

definition MiningProtocol :: u8 where
  "MiningProtocol = 0"

definition JobDeclarationProtocol :: u8 where
  "JobDeclarationProtocol = 1"

definition TemplateDistributionProtocol :: u8 where
  "TemplateDistributionProtocol = 2"

definition RequiresStandardJobsFlag :: u32 where
  "RequiresStandardJobsFlag = 1"

definition RequiresWorkSelectionFlag :: u32 where
  "RequiresWorkSelectionFlag = 2"

definition RequiresVersionRollingFlag :: u32 where
  "RequiresVersionRollingFlag = 4"

definition RequiresFixedVersionFlag :: u32 where
  "RequiresFixedVersionFlag = 1"

definition RequiresExtendedChannelsFlag :: u32 where
  "RequiresExtendedChannelsFlag = 2"

definition ProtocolVersion :: u16 where
  "ProtocolVersion = 2"

section \<open>Extensions and error codes\<close>

definition ExtensionTypeMinValid :: u16 where
  "ExtensionTypeMinValid = 0x4000"

definition ExtensionTypeMaxValid :: u16 where
  "ExtensionTypeMaxValid = 0x7fff"

definition ExtensionNegotiaton :: u16 where
  "ExtensionNegotiaton = 1"

definition ExtensionWorkerSpecificHashrateTracking :: u16 where
  "ExtensionWorkerSpecificHashrateTracking = 2"

definition UnsupportedFeatureFlagsError :: string where
  "UnsupportedFeatureFlagsError = ''unsupported-feature-flags''"

definition UnsupportedProtocolError :: string where
  "UnsupportedProtocolError = ''unsupported-protocol''"

definition ProtocolVersionMismatchError :: string where
  "ProtocolVersionMismatchError = ''protocol-version-mismatch''"

definition UnknownUserError :: string where
  "UnknownUserError = ''unknown-user''"

definition MaxTargetOutOfRangeError :: string where
  "MaxTargetOutOfRangeError = ''max-target-out-of-range''"

definition InvalidChannelIDError :: string where
  "InvalidChannelIDError = ''invalid-channel-id''"

definition StaleShareError :: string where
  "StaleShareError = ''stale-share''"

definition DifficultyTooLowError :: string where
  "DifficultyTooLowError = ''difficulty-too-low''"

definition InvalidJobIDError :: string where
  "InvalidJobIDError = ''invalid-job-id''"

definition InvalidMiningJobTokenError :: string where
  "InvalidMiningJobTokenError = ''invalid-mining-job-token''"

section \<open>Collections\<close>

lemmas message_type_defs =
  MessageSetupConnection_def MessageSetupConnectionSuccess_def MessageSetupConnectionError_def
  MessageChannelEndpointChanged_def MessageReconnect_def MessageOpenStandardMiningChannel_def
  MessageOpenStandardMiningChannelSuccess_def MessageOpenMiningChannelError_def
  MessageOpenExtendedMiningChannel_def MessageOpenExtendedMiningChannelSuccess_def
  MessageNewMiningJob_def MessageUpdateChannel_def MessageUpdateChannelError_def
  MessageCloseChannel_def MessageSetExtranoncePrefix_def MessageSubmitSharesStandard_def
  MessageSubmitSharesExtended_def MessageSubmitSharesSuccess_def MessageSubmitSharesError_def
  MessageReserved_def MessageNewExtendedMiningJob_def MessageSetNewPrevHash_def
  MessageSetTarget_def MessageSetCustomMiningJob_def MessageSetCustomMiningJobSuccess_def
  MessageSetCustomMiningJobError_def MessageSetGroupChannel_def MessageAllocateMiningJobToken_def
  MessageAllocateMiningJobTokenSuccess_def MessageProvideMissingTransactions_def
  MessageProvideMissingTransactionsSuccess_def MessageDeclareMiningJob_def
  MessageDeclareMiningJobSuccess_def MessageDeclareMiningJobError_def MessagePushSolution_def

section \<open>Names\<close>

definition message_names :: "(MessageType \<times> string) list" where
  "message_names =
    [(MessageAllocateMiningJobToken, ''AllocateMiningJobToken''),
     (MessageAllocateMiningJobTokenSuccess, ''AllocateMiningJobTokenSuccess''),
     (MessageChannelEndpointChanged, ''ChannelEndpointChanged''),
     (MessageCloseChannel, ''CloseChannel''),
     (MessageDeclareMiningJob, ''DeclareMiningJob''),
     (MessageDeclareMiningJobError, ''DeclareMiningJobError''),
     (MessageDeclareMiningJobSuccess, ''DeclareMiningJobSuccess''),
     (MessageNewExtendedMiningJob, ''NewExtendedMiningJob''),
     (MessageNewMiningJob, ''NewMiningJob''),
     (MessageOpenExtendedMiningChannel, ''OpenExtendedMiningChannel''),
     (MessageOpenExtendedMiningChannelSuccess, ''OpenExtendedMiningChannelSuccess''),
     (MessageOpenMiningChannelError, ''OpenMiningChannelError''),
     (MessageOpenStandardMiningChannel, ''OpenStandardMiningChannel''),
     (MessageOpenStandardMiningChannelSuccess, ''OpenStandardMiningChannelSuccess''),
     (MessageProvideMissingTransactions, ''ProvideMissingTransactions''),
     (MessageProvideMissingTransactionsSuccess, ''ProvideMissingTransactionsSuccess''),
     (MessagePushSolution, ''PushSolution''),
     (MessageReconnect, ''Reconnect''),
     (MessageReserved, ''Reserved''),
     (MessageSetCustomMiningJob, ''SetCustomMiningJob''),
     (MessageSetCustomMiningJobError, ''SetCustomMiningJobError''),
     (MessageSetCustomMiningJobSuccess, ''SetCustomMiningJobSuccess''),
     (MessageSetExtranoncePrefix, ''SetExtranoncePrefix''),
     (MessageSetGroupChannel, ''SetGroupChannel''),
     (MessageSetNewPrevHash, ''SetNewPrevHash''),
     (MessageSetTarget, ''SetTarget''),
     (MessageSetupConnection, ''SetupConnection''),
     (MessageSetupConnectionError, ''SetupConnectionError''),
     (MessageSetupConnectionSuccess, ''SetupConnectionSuccess''),
     (MessageSubmitSharesError, ''SubmitSharesError''),
     (MessageSubmitSharesExtended, ''SubmitSharesExtended''),
     (MessageSubmitSharesStandard, ''SubmitSharesStandard''),
     (MessageSubmitSharesSuccess, ''SubmitSharesSuccess''),
     (MessageUpdateChannel, ''UpdateChannel''),
     (MessageUpdateChannelError, ''UpdateChannelError'')]"

definition MessageTypeToString :: "MessageType \<Rightarrow> string \<times> error option" where
  "MessageTypeToString t =
     (case map_of message_names t of
        Some ty \<Rightarrow> (ty, None)
      | None \<Rightarrow> ([], Some Unknown_message_type))"

definition MessageType_String :: "MessageType \<Rightarrow> string" where
  "MessageType_String t = (let (ty, _) = MessageTypeToString t in ty)"

text \<open>All the message types the constants declare.\<close>

definition message_types :: "MessageType list" where
  "message_types =
    [MessageSetupConnection,
     MessageSetupConnectionSuccess,
     MessageSetupConnectionError,
     MessageChannelEndpointChanged,
     MessageReconnect,
     MessageOpenStandardMiningChannel,
     MessageOpenStandardMiningChannelSuccess,
     MessageOpenMiningChannelError,
     MessageOpenExtendedMiningChannel,
     MessageOpenExtendedMiningChannelSuccess,
     MessageNewMiningJob,
     MessageUpdateChannel,
     MessageUpdateChannelError,
     MessageCloseChannel,
     MessageSetExtranoncePrefix,
     MessageSubmitSharesStandard,
     MessageSubmitSharesExtended,
     MessageSubmitSharesSuccess,
     MessageSubmitSharesError,
     MessageReserved,
     MessageNewExtendedMiningJob,
     MessageSetNewPrevHash,
     MessageSetTarget,
     MessageSetCustomMiningJob,
     MessageSetCustomMiningJobSuccess,
     MessageSetCustomMiningJobError,
     MessageSetGroupChannel,
     MessageAllocateMiningJobToken,
     MessageAllocateMiningJobTokenSuccess,
     MessageProvideMissingTransactions,
     MessageProvideMissingTransactionsSuccess,
     MessageDeclareMiningJob,
     MessageDeclareMiningJobSuccess,
     MessageDeclareMiningJobError,
     MessagePushSolution]"

section \<open>Every declared type has a name of its own\<close>

lemma distinct_message_types: "distinct message_types"
  by (simp add: message_types_def message_type_defs)

lemma distinct_names: "distinct (map snd message_names)"
  by (simp add: message_names_def)

lemma named_types: "set (map fst message_names) = set message_types"
  by (simp add: message_names_def message_types_def message_type_defs insert_commute)

lemma distinct_named_types: "distinct (map fst message_names)"
  by (simp add: message_names_def message_type_defs)

lemma MessageTypeToString_ok:
  "MessageTypeToString t = (s, None) \<longleftrightarrow> (t, s) \<in> set message_names"
  using map_of_eq_Some_iff [OF distinct_named_types, of t s]
  by (auto simp: MessageTypeToString_def split: option.splits)

lemma MessageTypeToString_err:
  "snd (MessageTypeToString t) \<noteq> None \<longleftrightarrow> t \<notin> set message_types"
  using map_of_eq_None_iff [of message_names t] named_types
  by (auto simp: MessageTypeToString_def image_image split: option.splits)

lemma name_unique: "(t, s) \<in> set message_names \<Longrightarrow> (t', s) \<in> set message_names \<Longrightarrow> t = t'"
  using distinct_names inj_onD [of snd "set message_names" "(t, s)" "(t', s)"]
  by (auto simp: distinct_map)

section \<open>Properties\<close>

text \<open>
  Exactly the declared message types have a name, every other value gives the error,
  and no two types share a name.
\<close>

lemma message_names_unique:
  "(snd (MessageTypeToString t) = None \<longleftrightarrow> t \<in> set message_types) \<and>
   (t \<notin> set message_types \<longrightarrow> MessageTypeToString t = ([], Some Unknown_message_type)) \<and>
   (t \<in> set message_types \<longrightarrow> MessageType_String t = MessageType_String t' \<longrightarrow> t = t')"
proof -
  have ne: "(u, []) \<notin> set message_names" for u by (simp add: message_names_def)
  have named: "(u, MessageType_String u) \<in> set message_names" if "u \<in> set message_types" for u
    using that MessageTypeToString_err [of u] MessageTypeToString_ok [of u]
    by (cases "MessageTypeToString u") (auto simp: MessageType_String_def)
  have unknown: "MessageTypeToString u = ([], Some Unknown_message_type)" if "u \<notin> set message_types" for u
    using that MessageTypeToString_err [of u]
    by (auto simp: MessageTypeToString_def split: option.splits)
  have "t = t'" if "t \<in> set message_types" "MessageType_String t = MessageType_String t'"
  proof (cases "t' \<in> set message_types")
    case True
    then show ?thesis using named [OF that(1)] named [OF True] that(2) name_unique by metis
  next
    case False
    then have "MessageType_String t' = []" using unknown by (simp add: MessageType_String_def)
    then show ?thesis using named [OF that(1)] that(2) ne by simp
  qed
  with unknown MessageTypeToString_err [of t] show ?thesis by blast
qed

end
