(* ===== verification/U256_Arith.thy ===== *)
theory U256_Arith
  imports Binary_Reader
begin

text \<open>
  \<open>U256\<close> of \<open>src/types.go\<close>: 32 bytes with hexadecimal conversions, a comparison
  against a target, and wrapping addition and subtraction. The byte with index 0 is the
  most significant one for \<open>Compare\<close>, \<open>Add\<close> and \<open>Sub\<close>; \<open>u256_nat\<close> is the
  number that reading gives.

  Lemmas: the arithmetic is arithmetic modulo \<open>2 ^ 256\<close>; the hexadecimal forms are
  inverse; \<open>Compare\<close> never gives a wrong strict answer, and where its answer \<open>0\<close>
  stands for unequal numbers.
\<close>

section \<open>Operations\<close>

definition Clone :: "U256 \<Rightarrow> U256" where
  "Clone u = fst (SetBytes zero_array (array_bytes u))"

definition CloneBytes :: "U256 \<Rightarrow> byte list" where
  "CloneBytes u = (let makeCopy = replicate 32 0
     in take (length makeCopy) (array_bytes u) @ drop (length (array_bytes u)) makeCopy)"

text \<open>\<open>encoding/hex\<close>: digits of either case are read, lower case is written.\<close>

definition fromHexChar :: "char \<Rightarrow> byte option" where
  "fromHexChar c =
     (let b = of_char c :: nat
      in if 48 \<le> b \<and> b \<le> 57 then Some (word_of_nat (b - 48))
         else if 97 \<le> b \<and> b \<le> 102 then Some (word_of_nat (b - 97 + 10))
         else if 65 \<le> b \<and> b \<le> 70 then Some (word_of_nat (b - 65 + 10))
         else None)"

fun hex_DecodeString :: "string \<Rightarrow> byte list option" where
  "hex_DecodeString [] = Some []"
| "hex_DecodeString [_] = None"
| "hex_DecodeString (p # q # s) = do {
     a \<leftarrow> fromHexChar p;
     b \<leftarrow> fromHexChar q;
     bs \<leftarrow> hex_DecodeString s;
     Some ((push_bit 4 a OR b) # bs) }"

definition hextable :: string where
  "hextable = ''0123456789abcdef''"

definition hex_EncodeToString :: "byte list \<Rightarrow> string" where
  "hex_EncodeToString bs =
     concat (map (\<lambda>v. [hextable ! unat (drop_bit 4 v), hextable ! unat (v AND 15)]) bs)"

definition SetString :: "U256 \<Rightarrow> string \<Rightarrow> U256 \<times> error option" where
  "SetString u s =
     (if length s \<noteq> 64 then (u, Some SetString_len_not_64)
      else case hex_DecodeString s of
        None \<Rightarrow> (u, Some Hex_invalid)
      | Some b \<Rightarrow> (Array (take 32 b @ drop (length b) (array_bytes u)), None))"

text \<open>\<open>for i := range 16 { u[i], u[31-i] = u[31-i], u[i] }\<close>\<close>

definition flip_loop :: "byte list \<Rightarrow> nat \<Rightarrow> byte list" where
  "flip_loop u n = foldl (\<lambda>u i. u[i := u ! (31 - i), 31 - i := u ! i]) u [0..<n]"

definition U256_String :: "U256 \<Rightarrow> string" where
  "U256_String u = hex_EncodeToString (flip_loop (array_bytes u) 16)"

definition StringNonReversed :: "U256 \<Rightarrow> string" where
  "StringNonReversed u = hex_EncodeToString (array_bytes u)"

text \<open>The loop of \<open>Compare\<close> over the bytes of the hash and of the target.\<close>

fun compare_loop :: "byte list \<Rightarrow> byte list \<Rightarrow> int" where
  "compare_loop (h # hs) (t # ts) =
     (if h \<noteq> 0 \<or> t \<noteq> 0
      then if h < t then 1 else if h = t then 0 else -1
      else compare_loop hs ts)"
| "compare_loop _ _ = -1"

definition Compare :: "U256 \<Rightarrow> U256 option \<Rightarrow> int" where
  "Compare target hash =
     (let hash = (case hash of None \<Rightarrow> zero_array | Some h \<Rightarrow> h)
      in if array_bytes target = array_bytes hash then 0
         else compare_loop (array_bytes hash) (array_bytes target))"

definition IsMetBy :: "U256 \<Rightarrow> U256 option \<Rightarrow> bool" where
  "IsMetBy target u256 = (Compare target u256 \<ge> 0)"

text \<open>The hash is dereferenced before the comparison: \<open>nil\<close> panics here.\<close>

definition IsMetByHash :: "U256 \<Rightarrow> U256 option \<Rightarrow> bool option" where
  "IsMetByHash target hash = map_option (\<lambda>h. Compare target (Some h) \<ge> 0) hash"

definition IsEqual :: "U256 \<Rightarrow> U256 \<Rightarrow> bool" where
  "IsEqual u hash = (array_bytes u = array_bytes hash)"

definition add_step :: "byte list \<Rightarrow> byte list \<times> u16 \<Rightarrow> nat \<Rightarrow> byte list \<times> u16" where
  "add_step addend = (\<lambda>(u, carry) i.
     let sum = (ucast (u ! (31 - i)) :: u16) + ucast (addend ! (31 - i)) + carry;
         carry = drop_bit 8 (sum AND 0xff00)
     in (u[31 - i := ucast (sum AND 0x00ff)], carry))"

definition U256_Add :: "U256 \<Rightarrow> U256 \<Rightarrow> U256" where
  "U256_Add u addend =
     Array (fst (foldl (add_step (array_bytes addend)) (array_bytes u, 0) [0..<32]))"

definition sub_step :: "byte list \<Rightarrow> byte list \<times> u16 \<Rightarrow> nat \<Rightarrow> byte list \<times> u16" where
  "sub_step subtrahend = (\<lambda>(u, borrow) i.
     let sample = (ucast (u ! (31 - i)) :: u16) - ucast (subtrahend ! (31 - i));
         sample = (if borrow > 0 then sample - 1 else sample);
         borrow = (if sample > 255 then 0xff else 0)
     in (u[31 - i := ucast (sample AND 0x00ff)], borrow))"

definition U256_Sub :: "U256 \<Rightarrow> U256 \<Rightarrow> U256" where
  "U256_Sub u subtrahend =
     Array (fst (foldl (sub_step (array_bytes subtrahend)) (array_bytes u, 0) [0..<32]))"

section \<open>The number a U256 stands for\<close>

fun be_nat :: "byte list \<Rightarrow> nat" where
  "be_nat [] = 0"
| "be_nat (b # bs) = unat b * 256 ^ length bs + be_nat bs"

definition u256_nat :: "U256 \<Rightarrow> nat" where
  "u256_nat u = be_nat (array_bytes u)"

lemma be_nat_bound: "be_nat bs < 256 ^ length bs"
proof (induction bs)
  case Nil
  then show ?case by simp
next
  case (Cons b bs)
  have "unat b \<le> 255" by (rule unat_u8_le)
  then have "unat b * 256 ^ length bs \<le> 255 * 256 ^ length bs" by (rule mult_le_mono1)
  then have "unat b * 256 ^ length bs + be_nat bs < 255 * 256 ^ length bs + 256 ^ length bs"
    using Cons.IH by (rule add_le_less_mono)
  then show ?case by simp
qed

lemma u256_nat_bound: "u256_nat u < 2 ^ 256"
proof -
  have "(256 :: nat) ^ 32 = 2 ^ 256" by simp
  then show ?thesis using be_nat_bound [of "array_bytes u"] by (simp add: u256_nat_def)
qed

lemma be_nat_inj: "length a = length b \<Longrightarrow> be_nat a = be_nat b \<Longrightarrow> a = b"
proof (induction a b rule: list_induct2)
  case Nil
  then show ?case by simp
next
  case (Cons x a y b)
  have "unat x = be_nat (x # a) div 256 ^ length a" "be_nat a = be_nat (x # a) mod 256 ^ length a"
    using be_nat_bound [of a] by simp_all
  moreover have "unat y = be_nat (y # b) div 256 ^ length b" "be_nat b = be_nat (y # b) mod 256 ^ length b"
    using be_nat_bound [of b] by simp_all
  ultimately have "unat x = unat y" "be_nat a = be_nat b"
    using Cons.hyps Cons.prems by metis+
  with Cons.IH show ?case by (simp add: word_unat_eq_iff)
qed

text \<open>A strictly smaller first byte makes a smaller number.\<close>

lemma be_nat_less:
  assumes "length a = length b" and "x < y"
  shows "be_nat (x # a) < be_nat (y # b)"
proof -
  have "unat x < unat y" using assms(2) by (simp add: word_less_nat_alt)
  then have "(unat x + 1) * 256 ^ length a \<le> unat y * 256 ^ length a"
    by (intro mult_le_mono1) simp
  with be_nat_bound [of a] assms(1) show ?thesis by (simp add: algebra_simps)
qed

section \<open>Compare\<close>

lemma compare_loop_strict:
  assumes "length h = length t" and "h \<noteq> t"
  shows "compare_loop h t = 1 \<Longrightarrow> be_nat h < be_nat t"
    and "compare_loop h t = -1 \<Longrightarrow> be_nat t < be_nat h"
  using assms
proof (induction h t rule: list_induct2)
  case (Cons x h y t)
  {
    case 1
    then show ?case
      using Cons be_nat_less [of h t x y] by (auto split: if_splits)
  next
    case 2
    then show ?case
      using Cons be_nat_less [of t h y x] by (auto split: if_splits)
  }
qed simp_all

section \<open>Addition and subtraction\<close>

text \<open>The value of the \<open>k\<close> least significant bytes, from the end of the array.\<close>

definition low_val :: "nat \<Rightarrow> byte list \<Rightarrow> nat" where
  "low_val k bs = (\<Sum>j<k. unat (bs ! (31 - j)) * 256 ^ j)"

lemma be_nat_sum: "be_nat bs = (\<Sum>j<length bs. unat (bs ! (length bs - 1 - j)) * 256 ^ j)"
proof (induction bs)
  case Nil
  then show ?case by simp
next
  case (Cons b bs)
  have "(\<Sum>j<length bs. unat (bs ! (length bs - 1 - j)) * 256 ^ j) =
      (\<Sum>j<length bs. unat ((b # bs) ! (length bs - j)) * 256 ^ j)"
    by (rule sum.cong) (auto simp: nth_Cons')
  with Cons.IH show ?case by simp
qed

lemma u256_nat_low_val: "u256_nat u = low_val 32 (array_bytes u)"
  using be_nat_sum [of "array_bytes u"] by (simp add: u256_nat_def low_val_def)

lemma low_val_Suc: "low_val (Suc k) bs = low_val k bs + unat (bs ! (31 - k)) * 256 ^ k"
  by (simp add: low_val_def)

lemma low_val_update:
  "k < 32 \<Longrightarrow> low_val k (bs[31 - k := b]) = low_val k bs"
  unfolding low_val_def by (rule sum.cong) auto

lemma byte_of_u16: "unat (ucast (w AND 0x00ff) :: byte) = unat (w :: u16) mod 256"
proof -
  have "w AND 0x00ff = take_bit 8 w"
    by (simp add: take_bit_eq_mask mask_eq_exp_minus_1)
  then show ?thesis
    by (simp add: unsigned_ucast_eq take_bit_eq_mod unat_mod)
qed

lemma carry_of_u16: "unat (drop_bit 8 (w AND 0xff00)) = unat (w :: u16) div 256"
proof -
  have m: "(0xff00 :: u16) = push_bit 8 (mask 8)"
    by (simp add: mask_eq_exp_minus_1 push_bit_eq_mult)
  have "drop_bit 8 (w AND 0xff00) = drop_bit 8 w"
    unfolding m by (rule bit_word_eqI) (auto simp: bit_simps dest: bit_imp_le_length)
  then show ?thesis
    by (simp add: drop_bit_eq_div unat_div)
qed

lemma add_word:
  fixes x y :: byte and c :: u16
  assumes "unat c \<le> 1"
  defines "w \<equiv> ucast x + ucast y + c"
  shows "unat (ucast (w AND 0x00ff) :: byte) + 256 * unat (drop_bit 8 (w AND 0xff00)) =
      unat x + unat y + unat c"
    and "unat (drop_bit 8 (w AND 0xff00)) \<le> 1"
proof -
  have "unat x \<le> 255" "unat y \<le> 255" by (rule unat_u8_le)+
  moreover from this have "unat w = unat x + unat y + unat c"
    using assms by (simp add: unat_word_ariths unsigned_ucast_eq take_bit_nat_eq_self)
  ultimately show "unat (ucast (w AND 0x00ff) :: byte) + 256 * unat (drop_bit 8 (w AND 0xff00)) =
      unat x + unat y + unat c" "unat (drop_bit 8 (w AND 0xff00)) \<le> 1"
    using assms(1) unfolding byte_of_u16 carry_of_u16 by simp_all
qed

lemma add_fold:
  assumes "length u = 32" and "k \<le> 32" and "foldl (add_step a) (u, 0) [0..<k] = (v, c)"
  shows "length v = 32 \<and> (\<forall>i < 32 - k. v ! i = u ! i) \<and> unat c \<le> 1 \<and>
    low_val k v + unat c * 256 ^ k = low_val k u + low_val k a"
  using assms(2,3)
proof (induction k arbitrary: v c)
  case 0
  then show ?case using assms(1) by (simp add: low_val_def)
next
  case (Suc k)
  obtain v1 c1 where 1: "foldl (add_step a) (u, 0) [0..<k] = (v1, c1)" by fastforce
  let ?i = "31 - k" and ?w = "ucast (v1 ! (31 - k)) + ucast (a ! (31 - k)) + c1"
  from Suc.IH [OF _ 1] Suc.prems(1) have IH: "length v1 = 32" "\<forall>i < 32 - k. v1 ! i = u ! i"
    "unat c1 \<le> 1" "low_val k v1 + unat c1 * 256 ^ k = low_val k u + low_val k a" by auto
  from Suc.prems(2) 1 have v: "v = v1[?i := ucast (?w AND 0x00ff)]" "c = drop_bit 8 (?w AND 0xff00)"
    by (simp_all add: add_step_def Let_def)
  have vi: "v ! ?i = ucast (?w AND 0x00ff)" unfolding v(1) using IH(1) by simp
  have ui: "v1 ! ?i = u ! ?i" using IH(2) Suc.prems(1) by simp
  have w: "unat (v ! ?i) + 256 * unat c = unat (u ! ?i) + unat (a ! ?i) + unat c1" "unat c \<le> 1"
    using add_word [OF IH(3), of "v1 ! ?i" "a ! ?i"]
    unfolding vi [symmetric] v(2) [symmetric] unfolding ui by simp_all
  have "low_val (Suc k) v + unat c * 256 ^ Suc k =
      low_val k v1 + (unat (v ! ?i) + 256 * unat c) * 256 ^ k"
    using Suc.prems(1) unfolding low_val_Suc by (simp add: v(1) low_val_update algebra_simps)
  also have "\<dots> = low_val (Suc k) u + low_val (Suc k) a"
    unfolding w(1) using IH(4) by (simp add: low_val_Suc algebra_simps)
  finally show ?case using IH(1,2) w(2) Suc.prems(1) by (auto simp: v(1))
qed

lemma U256_Add_nat: "u256_nat (U256_Add u a) = (u256_nat u + u256_nat a) mod 2 ^ 256"
proof -
  obtain v c where vc: "foldl (add_step (array_bytes a)) (array_bytes u, 0) [0..<32] = (v, c)"
    by fastforce
  have *: "length v = 32" "low_val 32 v + unat c * 256 ^ 32 = u256_nat u + u256_nat a"
    using add_fold [OF _ _ vc] by (simp_all add: u256_nat_low_val)
  have r: "u256_nat (U256_Add u a) = low_val 32 v"
    using *(1) by (simp add: U256_Add_def vc u256_nat_low_val)
  have "low_val 32 v < 2 ^ 256"
    using u256_nat_bound [of "U256_Add u a"] by (simp only: r)
  moreover have "(256 :: nat) ^ 32 = 2 ^ 256" by simp
  ultimately show ?thesis
    unfolding r *(2) [symmetric] by (simp only: mod_mult_self1 mod_less mult.commute)
qed

lemma sub_word:
  fixes x y :: byte
  assumes "w = (if b then (ucast x :: u16) - ucast y - 1 else ucast x - ucast y)"
  shows "int (unat (ucast (w AND 0x00ff) :: byte)) =
      int (unat x) - int (unat y) - of_bool b + 256 * of_bool (w > 255)"
proof -
  define d where "d = int (unat x) - int (unat y) - of_bool b"
  have xy: "uint x \<le> 255" "0 \<le> uint x" "uint y \<le> 255" "0 \<le> uint y"
    using unsigned_less [of x, where ?'a = int] unsigned_less [of y, where ?'a = int] by simp_all
  have "uint w = d mod 65536"
    using assms by (simp add: d_def uint_word_ariths unsigned_ucast_eq take_bit_eq_mod mod_simps)
  moreover have "d = uint x - uint y - (if b then 1 else 0)" by (simp add: d_def)
  with xy have d: "-256 \<le> d" "d \<le> 255" by (cases b; simp only: if_True if_False; linarith)+
  ultimately have w: "uint w = (if d < 0 then d + 65536 else d)"
    using mod_add_self2 [of d 65536] by (auto simp: mod_pos_pos_trivial simp del: mod_add_self2)
  have b: "int (unat (ucast (w AND 0x00ff) :: byte)) = uint w mod 256"
    unfolding byte_of_u16 by (simp add: of_nat_mod)
  have g: "w > 255 \<longleftrightarrow> d < 0"
    using w d by (auto simp: word_less_def)
  show ?thesis
  proof (cases "d < 0")
    case True
    then have "uint w = (d + 256) + 255 * 256" using w by simp
    then have "uint w mod 256 = (d + 256) mod 256" by (simp only: mod_mult_self1)
    also have "(d + 256) mod 256 = d + 256"
      using True d by (intro mod_pos_pos_trivial) simp_all
    finally have "uint w mod 256 = d + 256" .
    with True b g show ?thesis by (simp add: d_def)
  next
    case False
    then have "uint w mod 256 = d"
      using w d by (simp add: mod_pos_pos_trivial)
    with False b g show ?thesis by (simp add: d_def)
  qed
qed

lemma sub_fold:
  assumes "length u = 32" and "k \<le> 32" and "foldl (sub_step a) (u, 0) [0..<k] = (v, b)"
  shows "length v = 32 \<and> (\<forall>i < 32 - k. v ! i = u ! i) \<and>
    int (low_val k v) = int (low_val k u) - int (low_val k a) + of_bool (b > 0) * 256 ^ k"
  using assms(2,3)
proof (induction k arbitrary: v b)
  case 0
  then show ?case using assms(1) by (simp add: low_val_def)
next
  case (Suc k)
  obtain v1 b1 where 1: "foldl (sub_step a) (u, 0) [0..<k] = (v1, b1)" by fastforce
  let ?i = "31 - k"
  define w :: u16 where "w = (if b1 > 0 then ucast (v1 ! ?i) - ucast (a ! ?i) - 1
    else ucast (v1 ! ?i) - ucast (a ! ?i))"
  from Suc.IH [OF _ 1] Suc.prems(1) have IH: "length v1 = 32" "\<forall>i < 32 - k. v1 ! i = u ! i"
    "int (low_val k v1) = int (low_val k u) - int (low_val k a) + of_bool (b1 > 0) * 256 ^ k" by auto
  from Suc.prems(2) 1 have v: "v = v1[?i := ucast (w AND 0x00ff)]" "b = (if w > 255 then 0xff else 0)"
    by (simp_all add: sub_step_def Let_def w_def)
  have vi: "v ! ?i = ucast (w AND 0x00ff)" unfolding v(1) using IH(1) by simp
  have ui: "v1 ! ?i = u ! ?i" using IH(2) Suc.prems(1) by simp
  have bw: "(b > 0) = (w > 255)" by (simp add: v(2))
  have w: "int (unat (v ! ?i)) = int (unat (u ! ?i)) - int (unat (a ! ?i)) - of_bool (b1 > 0)
      + 256 * of_bool (b > 0)"
    using sub_word [OF w_def] unfolding vi [symmetric] bw [symmetric] ui .
  have "int (low_val (Suc k) v) = int (low_val k v1) + int (unat (v ! ?i)) * 256 ^ k"
    using Suc.prems(1) unfolding low_val_Suc by (simp add: v(1) low_val_update)
  also have "\<dots> = int (low_val (Suc k) u) - int (low_val (Suc k) a) + of_bool (b > 0) * 256 ^ Suc k"
    unfolding w IH(3) by (simp add: low_val_Suc algebra_simps)
  finally show ?case using IH(1,2) Suc.prems(1) by (auto simp: v(1))
qed

lemma U256_Sub_nat:
  "int (u256_nat (U256_Sub u a)) = (int (u256_nat u) - int (u256_nat a)) mod 2 ^ 256"
proof -
  obtain v b where vb: "foldl (sub_step (array_bytes a)) (array_bytes u, 0) [0..<32] = (v, b)"
    by fastforce
  have *: "length v = 32"
    "int (low_val 32 v) = int (u256_nat u) - int (u256_nat a) + of_bool (b > 0) * 256 ^ 32"
    using sub_fold [OF _ _ vb] by (simp_all add: u256_nat_low_val)
  have r: "u256_nat (U256_Sub u a) = low_val 32 v"
    using *(1) by (simp add: U256_Sub_def vb u256_nat_low_val)
  have "int (low_val 32 v) mod 2 ^ 256 = int (low_val 32 v)"
    using u256_nat_bound [of "U256_Sub u a"] by (simp add: r)
  moreover have "(256 :: int) ^ 32 = 2 ^ 256" by simp
  ultimately have "int (low_val 32 v) =
      (int (u256_nat u) - int (u256_nat a) + of_bool (b > 0) * 2 ^ 256) mod 2 ^ 256"
    using *(2) by (simp only:)
  then show ?thesis unfolding r by (simp only: mod_mult_self1)
qed

section \<open>What the comparison decides\<close>

text \<open>
  The most significant byte that is not zero in both has the same value in both: the
  case in which \<open>Compare\<close> stops with \<open>0\<close> before it has looked at the rest.
\<close>

fun same_lead :: "byte list \<Rightarrow> byte list \<Rightarrow> bool" where
  "same_lead (h # hs) (t # ts) \<longleftrightarrow> (if h \<noteq> 0 \<or> t \<noteq> 0 then h = t else same_lead hs ts)"
| "same_lead _ _ \<longleftrightarrow> False"

lemma compare_loop_0: "compare_loop h t = 0 \<longleftrightarrow> same_lead h t"
  by (induction h t rule: compare_loop.induct) auto

lemma compare_loop_range: "compare_loop h t \<in> {-1, 0, 1}"
  by (induction h t rule: compare_loop.induct) auto

lemma Compare_Some:
  "Compare t (Some h) = (if t = h then 0 else compare_loop (array_bytes h) (array_bytes t))"
  by (simp add: Compare_def array_bytes_inj)

lemma Compare_0: "Compare t (Some h) = 0 \<longleftrightarrow> h = t \<or> same_lead (array_bytes h) (array_bytes t)"
  by (auto simp: Compare_Some compare_loop_0)

lemma Compare_1: "Compare t (Some h) = 1 \<Longrightarrow> u256_nat h < u256_nat t"
  using compare_loop_strict(1) [of "array_bytes h" "array_bytes t"]
  by (auto simp: Compare_Some u256_nat_def array_bytes_inj split: if_splits)

lemma Compare_minus_1: "Compare t (Some h) = -1 \<Longrightarrow> u256_nat t < u256_nat h"
  using compare_loop_strict(2) [of "array_bytes h" "array_bytes t"]
  by (auto simp: Compare_Some u256_nat_def array_bytes_inj split: if_splits)

lemma Compare_range: "Compare t h \<in> {-1, 0, 1}"
  using compare_loop_range by (auto simp: Compare_def Let_def)

lemma IsMetBy_iff:
  "IsMetBy t (Some h) \<longleftrightarrow> u256_nat h \<le> u256_nat t \<or> same_lead (array_bytes h) (array_bytes t)"
proof -
  consider "Compare t (Some h) = -1" | "Compare t (Some h) = 0" | "Compare t (Some h) = 1"
    using Compare_range [of t "Some h"] by blast
  then show ?thesis
  proof cases
    case 1
    then show ?thesis
      using Compare_minus_1 [OF 1] Compare_0 [of t h] by (simp add: IsMetBy_def)
  next
    case 2
    then show ?thesis using Compare_0 [of t h] by (auto simp: IsMetBy_def)
  next
    case 3
    then show ?thesis using Compare_1 [OF 3] by (simp add: IsMetBy_def)
  qed
qed

section \<open>Hexadecimal forms\<close>

lemma hex_digit: "k < 16 \<Longrightarrow> fromHexChar (hextable ! k) = Some (word_of_nat k)"
proof -
  have "list_all (\<lambda>k. fromHexChar (hextable ! k) = Some (word_of_nat k)) [0..<16]"
    by code_simp
  then show "k < 16 \<Longrightarrow> ?thesis" by (simp add: list_all_iff)
qed

lemma hex_byte:
  "fromHexChar (hextable ! unat (drop_bit 4 v)) = Some (drop_bit 4 v)"
  "fromHexChar (hextable ! unat (v AND 15)) = Some (v AND 15)"
  "push_bit 4 (drop_bit 4 v) OR (v AND 15) = v" for v :: byte
proof -
  have m: "(15 :: byte) = mask 4" by (simp add: mask_eq_exp_minus_1)
  have "unat v < 256" using unsigned_less [of v, where ?'a = nat] by simp
  then have "unat (drop_bit 4 v) < 16"
    by (simp add: drop_bit_eq_div unat_div less_mult_imp_div_less)
  then show "fromHexChar (hextable ! unat (drop_bit 4 v)) = Some (drop_bit 4 v)"
    by (simp add: hex_digit)
  have "unat (v AND 15) < 16"
    unfolding m take_bit_eq_mask [symmetric] by (simp add: take_bit_eq_mod unat_mod)
  then show "fromHexChar (hextable ! unat (v AND 15)) = Some (v AND 15)"
    by (simp add: hex_digit)
  show "push_bit 4 (drop_bit 4 v) OR (v AND 15) = v"
    unfolding m by (rule bit_word_eqI) (auto simp: bit_simps)
qed

lemma hex_decode_encode: "hex_DecodeString (hex_EncodeToString bs) = Some bs"
  by (induction bs) (simp_all add: hex_EncodeToString_def hex_byte)

lemma length_hex: "length (hex_EncodeToString bs) = 2 * length bs"
  by (induction bs) (simp_all add: hex_EncodeToString_def)

lemma SetString_hex:
  "length bs = 32 \<Longrightarrow> SetString u (hex_EncodeToString bs) = (Array bs, None)"
  by (simp add: SetString_def length_hex hex_decode_encode)

lemma flip_loop_nth:
  assumes "length u = 32" and "n \<le> 16"
  shows "length (flip_loop u n) = 32 \<and>
    (\<forall>i < 32. flip_loop u n ! i = (if i < n \<or> 31 - i < n then u ! (31 - i) else u ! i))"
  using assms(2)
proof (induction n)
  case 0
  then show ?case using assms(1) by (simp add: flip_loop_def)
next
  case (Suc n)
  then have IH: "length (flip_loop u n) = 32"
    "\<And>i. i < 32 \<Longrightarrow> flip_loop u n ! i = (if i < n \<or> 31 - i < n then u ! (31 - i) else u ! i)"
    by auto
  have "flip_loop u (Suc n) =
      (flip_loop u n)[n := flip_loop u n ! (31 - n), 31 - n := flip_loop u n ! n]"
    by (simp add: flip_loop_def)
  with IH(1) IH(2) [of n] IH(2) [of "31 - n"] Suc.prems show ?case
    by (auto simp: nth_list_update IH(2))
qed

lemma flip_rev:
  assumes "length u = 32"
  shows "flip_loop u 16 = rev u"
proof (rule nth_equalityI)
  show "length (flip_loop u 16) = length (rev u)"
    using flip_loop_nth [OF assms, of 16] assms by simp
  fix i assume "i < length (flip_loop u 16)"
  then have "i < 32" using flip_loop_nth [OF assms, of 16] by simp
  moreover from this have "i < 16 \<or> 31 - i < 16" by arith
  ultimately show "flip_loop u 16 ! i = rev u ! i"
    using flip_loop_nth [OF assms, of 16] assms by (simp add: rev_nth)
qed

section \<open>Properties\<close>

text \<open>
  C20. \<open>Add\<close> and \<open>Sub\<close> are addition and subtraction of 256-bit numbers modulo
  \<open>2 ^ 256\<close>: the carry out of the top byte, or the borrow, is dropped.
\<close>

theorem U256_arithmetic:
  "u256_nat (U256_Add u a) = (u256_nat u + u256_nat a) mod 2 ^ 256 \<and>
   int (u256_nat (U256_Sub u a)) = (int (u256_nat u) - int (u256_nat a)) mod 2 ^ 256"
  using U256_Add_nat U256_Sub_nat by blast

text \<open>A hash above the target that shares its leading byte 1 and has a larger second byte.\<close>

lemma IsMetBy_above_target:
  "\<exists>t h. IsMetBy t (Some h) \<and> IsMetByHash t (Some h) = Some True \<and> u256_nat t < u256_nat h"
proof -
  let ?t = "Array (1 # 0 # replicate 30 0) :: U256" and ?h = "Array (1 # 1 # replicate 30 0) :: U256"
  have bytes: "array_bytes ?t = 1 # 0 # replicate 30 0" "array_bytes ?h = 1 # 1 # replicate 30 0"
    by simp_all
  have "IsMetBy ?t (Some ?h)" "IsMetByHash ?t (Some ?h) = Some True"
    by (simp_all add: IsMetBy_def IsMetByHash_def Compare_def bytes)
  moreover have "u256_nat ?t < u256_nat ?h" by (simp add: u256_nat_def bytes)
  ultimately show ?thesis by blast
qed

lemma benchmark_numbers:
  "IsMetBy (fst (SetBytes u (0 # 255 # replicate 30 0))) (Some (fst (SetBytes u (replicate 30 0 @ [255, 0]))))"
  by (simp add: IsMetBy_def Compare_def SetBytes_def eval_nat_numeral)

text \<open>
  C22. A hash meets a target if it is at most the target, but also whenever the first
  position at which one of the two is not zero holds the same byte in both: then the
  remaining bytes are not looked at. So there are hashes above a target that meet it. The
  hash 00..ff00, which is below the target 00ff00.., meets it, as it should; the two
  benchmarks of \<open>src/types_test.go\<close> that compare these numbers fail exactly then.
\<close>

theorem IsMetBy_exact:
  "(IsMetBy t (Some h) \<longleftrightarrow> u256_nat h \<le> u256_nat t \<or> same_lead (array_bytes h) (array_bytes t)) \<and>
   (\<exists>t h. IsMetBy t (Some h) \<and> IsMetByHash t (Some h) = Some True \<and> u256_nat t < u256_nat h) \<and>
   IsMetBy (fst (SetBytes u (0 # 255 # replicate 30 0))) (Some (fst (SetBytes u (replicate 30 0 @ [255, 0]))))"
  using IsMetBy_iff IsMetBy_above_target benchmark_numbers by blast

text \<open>
  C21. \<open>Compare\<close> orders the numbers: 1 means that the hash is below the target, -1 that it is
  above, and 0 that they are equal, for all pairs but those of different numbers that hold
  the same byte at the first position at which one of the two is not zero.
\<close>

theorem Compare_correct:
  assumes "h = t \<or> \<not> same_lead (array_bytes h) (array_bytes t)"
  shows "(Compare t (Some h) = 1 \<longleftrightarrow> u256_nat h < u256_nat t) \<and>
    (Compare t (Some h) = -1 \<longleftrightarrow> u256_nat t < u256_nat h) \<and>
    (Compare t (Some h) = 0 \<longleftrightarrow> IsEqual t h)"
  using assms Compare_1 [of t h] Compare_minus_1 [of t h] Compare_0 [of t h] Compare_range [of t "Some h"]
  by (auto simp: IsEqual_def array_bytes_inj)

theorem Compare_correct_witness:
  "Compare (Array (5 # replicate 31 0)) (Some (Array (3 # replicate 31 0))) = 1"
proof -
  let ?t = "Array (5 # replicate 31 0) :: U256" and ?h = "Array (3 # replicate 31 0) :: U256"
  have "\<not> same_lead (array_bytes ?h) (array_bytes ?t)" "u256_nat ?h < u256_nat ?t"
    by (simp_all add: u256_nat_def)
  with Compare_correct [of ?h ?t] show ?thesis by blast
qed

text \<open>
  C40. The hexadecimal forms: both have 64 digits; \<open>SetString\<close> reads the plain form back,
  and the form of \<open>String\<close> byte-reversed.
\<close>

theorem U256_string_roundtrip:
  "length (StringNonReversed v) = 64 \<and> SetString u (StringNonReversed v) = (v, None) \<and>
   length (U256_String v) = 64 \<and> SetString u (U256_String v) = (Array (rev (array_bytes v)), None)"
  by (simp add: StringNonReversed_def U256_String_def length_hex SetString_hex flip_rev)

end
