(* ===== verification/Codec_State.thy ===== *)
theory Codec_State
  imports Sequences
begin

text \<open>
  What every method of \<open>BinaryBuilder\<close> and \<open>BinaryReader\<close> (\<open>src/binary.go\<close>) keeps of
  the two structs, whatever they are called with. \<open>grown\<close> relates a builder to one that
  some writes lead to, \<open>advanced\<close> a reader to one that some reads lead to; both are
  reflexive and transitive, so a method that calls others is covered by what it calls.
\<close>

named_theorems grows
named_theorems advances

section \<open>Builders\<close>

text \<open>
  The bytes stay within the capacity, bytes once written and a capacity once allocated
  stay, and after an error there are no more bytes and no other error.
\<close>

definition grown :: "BinaryBuilder \<Rightarrow> BinaryBuilder \<Rightarrow> bool" where
  "grown bb bb' \<longleftrightarrow> (cap_ok bb \<longrightarrow> cap_ok bb') \<and> bb_cap bb \<le> bb_cap bb' \<and>
     (\<exists>bs. bb_data bb' = bb_data bb @ bs) \<and> (bb_err bb \<noteq> None \<longrightarrow> Bytes bb' = Bytes bb)"

lemma grown_refl [intro]: "grown bb bb"
  by (simp add: grown_def)

lemma grown_trans [trans]: "grown a b \<Longrightarrow> grown b c \<Longrightarrow> grown a c"
  by (auto simp: grown_def Bytes_view view_def)

lemma grown_append_data: "bb_err bb = None \<Longrightarrow> grown bb (append_data bb bs)"
  by (auto simp: grown_def append_data_def cap_ok_def Let_def)

lemma grown_error: "bb_err bb = None \<Longrightarrow> grown bb (bb\<lparr>bb_err := e\<rparr>)"
  by (simp add: grown_def cap_ok_def)

lemma grown_Grow [grows]: "grown bb (Grow bb n)"
  by (auto simp: grown_def Grow_def cap_ok_def Let_def Bytes_view view_def)

lemma grown_appends [grows]:
  "grown bb (AddBool bb b)" "grown bb (AddU8 bb u1)" "grown bb (AddU16 bb u2)" "grown bb (AddU24 bb u3)"
  "grown bb (AddU32 bb u4)" "grown bb (AddU64 bb u8)" "grown bb (AddF32 bb fl)" "grown bb (AddBytes bb d)"
  "grown bb (AddSignature bb sg)" "grown bb (AddShortTXID bb tx)"
  by (auto simp: AddBool_def AddU8_def AddU16_def AddU24_def AddU32_def AddU64_def AddF32_def AddBytes_def
      AddSignature_def AddShortTXID_def Let_def intro: grown_append_data)

text \<open>Space for a field, its length prefix and its bytes.\<close>

lemma grown_prefixed [grows]:
  "grown bb (AddBytes (AddU8 (Grow bb n) u1) d)" "grown bb (AddBytes (AddU16 (Grow bb n) u2) d)"
  "grown bb (AddBytes (AddU24 (Grow bb n) u3) d)" "grown bb (AddBytes (Grow bb n) d)"
  by (meson grown_Grow grown_appends grown_trans)+

lemma grown_fields [grows]:
  "grown bb (AddU256 bb u)" "grown bb (AddStr255 bb t)" "grown bb (AddBin32 bb d)" "grown bb (AddBin255 bb d)"
  "grown bb (AddBin64K bb d)" "grown bb (AddBin16M bb d)" "grown bb (AddMAC bb mac)" "grown bb (AddPubkey bb pk)"
  "grown bb (AddEllswiftPubkey bb ek)"
  by (auto simp: AddU256_def AddStr255_def AddBin32_def AddBin255_def AddBin64K_def AddBin16M_def AddMAC_def
      AddPubkey_def AddEllswiftPubkey_def Let_def intro: grows grown_error)

lemma grown_sequences [grows]:
  "grown bb (AddSeq1 bb q)" "grown bb (AddOptionT bb q)" "grown bb (AddSeq255 bb q)" "grown bb (AddSeq64K bb q)"
  by (auto simp: AddSeq1_def AddOptionT_def AddSeq255_def AddSeq64K_def Let_def Sequence_Encode_eq
      intro: grows grown_error)

section \<open>Readers\<close>

definition reader_ok :: "BinaryReader \<Rightarrow> bool" where
  "reader_ok r \<longleftrightarrow> 0 \<le> br_pos r \<and> br_pos r \<le> slice_len (br_data r)"

text \<open>
  The position stays within the data and does not go back, the data stays, and after an
  error nothing changes.
\<close>

definition advanced :: "BinaryReader \<Rightarrow> BinaryReader \<Rightarrow> bool" where
  "advanced r r' \<longleftrightarrow> (reader_ok r \<longrightarrow> reader_ok r' \<and> br_pos r \<le> br_pos r') \<and> br_data r' = br_data r \<and>
     (br_err r \<noteq> None \<longrightarrow> r' = r)"

definition only_advances :: "(BinaryReader \<Rightarrow> ('a \<times> BinaryReader) option) \<Rightarrow> bool" where
  "only_advances rd \<longleftrightarrow> (\<forall>r x r'. rd r = Some (x, r') \<longrightarrow> advanced r r')"

lemma advanced_refl [intro]: "advanced r r"
  by (simp add: advanced_def)

lemma advanced_trans [trans]: "advanced a b \<Longrightarrow> advanced b c \<Longrightarrow> advanced a c"
  by (auto simp: advanced_def)

text \<open>A method that sets the error was called without one.\<close>

lemma advanced_error: "advanced r r' \<Longrightarrow> br_err r = None \<Longrightarrow> advanced r (r'\<lparr>br_err := e\<rparr>)"
  by (auto simp: advanced_def reader_ok_def)

lemma advanced_read [advances]: "read r l = Some (b, r') \<Longrightarrow> advanced r r'"
  by (auto simp: read_def advanced_def reader_ok_def slice_range_def Let_def split: if_splits)

lemma advanced_fixed [advances]:
  "ReadU8 r = Some (u1, r') \<Longrightarrow> advanced r r'" "ReadU16 r = Some (u2, r') \<Longrightarrow> advanced r r'"
  "ReadU24 r = Some (u3, r') \<Longrightarrow> advanced r r'" "ReadU32 r = Some (u4, r') \<Longrightarrow> advanced r r'"
  "ReadU64 r = Some (u8, r') \<Longrightarrow> advanced r r'" "ReadF32 r = Some (fl, r') \<Longrightarrow> advanced r r'"
  "ReadPubkey r = Some (pk, r') \<Longrightarrow> advanced r r'" "ReadEllswiftPubkey r = Some (ek, r') \<Longrightarrow> advanced r r'"
  "ReadSignature r = Some (sg, r') \<Longrightarrow> advanced r r'" "ReadBytes r l = Some (d, r') \<Longrightarrow> advanced r r'"
  "Read r l = Some (o', r') \<Longrightarrow> advanced r r'"
  by (auto simp: ReadU8_def ReadU16_def ReadU24_def ReadU32_def ReadU64_def ReadF32_def ReadPubkey_def
      ReadEllswiftPubkey_def ReadSignature_def ReadBytes_def Read_def bind_eq_Some_conv
      split: if_splits option.splits dest: advanced_read)

lemma advanced_checked [advances]:
  "ReadBool r = Some (b, r') \<Longrightarrow> advanced r r'" "ReadU256 r = Some (u, r') \<Longrightarrow> advanced r r'"
  by (auto simp: ReadBool_def ReadU256_def SetBytes_def bind_eq_Some_conv Let_def
      split: if_splits option.splits dest: advanced_read intro: advanced_error)

lemma advanced_prefixed [advances]:
  "ReadStr255 r = Some (t, r') \<Longrightarrow> advanced r r'" "ReadBin32 r = Some (d, r') \<Longrightarrow> advanced r r'"
  "ReadBin255 r = Some (d, r') \<Longrightarrow> advanced r r'" "ReadBin64K r = Some (d, r') \<Longrightarrow> advanced r r'"
  "ReadBin16M r = Some (d, r') \<Longrightarrow> advanced r r'"
  by (auto simp: ReadStr255_def ReadBin32_def ReadBin255_def ReadBin64K_def ReadBin16M_def bind_eq_Some_conv
      split: if_splits dest!: advances intro: advanced_trans advanced_error)

lemma advanced_read_n:
  assumes "\<And>r x r'. rd r = Some (x, r') \<Longrightarrow> advanced r r'"
  shows "read_n rd l r = Some (a, r') \<Longrightarrow> advanced r r'"
  by (induction l arbitrary: r a) (auto simp: bind_eq_Some_conv dest!: assms intro: advanced_trans)

lemma advanced_Decode [advances]: "Sequence_Decode q l r = Some (x, r') \<Longrightarrow> advanced r r'"
  by (cases q) (auto simp: bind_eq_Some_conv dest!: advanced_read_n [rotated] dest: advances)

lemma advanced_sequences [advances]:
  "ReadSeq1 r q = Some (o', r') \<Longrightarrow> advanced r r'" "ReadOptionT r q = Some (o', r') \<Longrightarrow> advanced r r'"
  "ReadSeq255 r q = Some (o', r') \<Longrightarrow> advanced r r'" "ReadSeq64K r q = Some (o', r') \<Longrightarrow> advanced r r'"
  by (auto simp: ReadSeq1_def ReadOptionT_def ReadSeq255_def ReadSeq64K_def bind_eq_Some_conv
      split: if_splits dest!: advances intro: advanced_trans advanced_error)

section \<open>Properties\<close>

text \<open>
  C26. No method of the builder breaks its struct: the bytes stay within the capacity,
  which never shrinks, what was written stays, and after the first error neither the bytes
  nor the error change.
\<close>

theorem builder_invariant:
  "cap_ok NewBinaryBuilder \<and> grown bb (Grow bb n) \<and> grown bb (AddBool bb b) \<and> grown bb (AddU8 bb u1) \<and>
   grown bb (AddU16 bb u2) \<and> grown bb (AddU24 bb u3) \<and> grown bb (AddU32 bb u4) \<and> grown bb (AddU64 bb u8) \<and>
   grown bb (AddF32 bb fl) \<and> grown bb (AddU256 bb u) \<and> grown bb (AddStr255 bb t) \<and> grown bb (AddBytes bb d) \<and>
   grown bb (AddBin32 bb d) \<and> grown bb (AddBin255 bb d) \<and> grown bb (AddBin64K bb d) \<and>
   grown bb (AddBin16M bb d) \<and> grown bb (AddMAC bb mac) \<and> grown bb (AddPubkey bb pk) \<and>
   grown bb (AddEllswiftPubkey bb ek) \<and> grown bb (AddSignature bb sg) \<and> grown bb (AddShortTXID bb tx) \<and>
   grown bb (AddSeq1 bb q) \<and> grown bb (AddOptionT bb q) \<and> grown bb (AddSeq255 bb q) \<and> grown bb (AddSeq64K bb q)"
  by (intro conjI cap_ok_New grows)

text \<open>
  C25. No read that returns breaks the reader: the position stays within the data and does
  not go back, the data stays, and after an error nothing changes any more. \<open>Seek\<close> may go
  back, but not out of the data.
\<close>

theorem reader_invariant:
  "reader_ok (NewBinaryReader d) \<and>
   only_advances ReadBool \<and> only_advances ReadU8 \<and> only_advances ReadU16 \<and> only_advances ReadU24 \<and>
   only_advances ReadU32 \<and> only_advances ReadU64 \<and> only_advances ReadU256 \<and> only_advances ReadF32 \<and>
   only_advances ReadStr255 \<and> only_advances ReadBin32 \<and> only_advances ReadBin255 \<and> only_advances ReadBin64K \<and>
   only_advances ReadBin16M \<and> only_advances (\<lambda>r. ReadBytes r l) \<and> only_advances ReadPubkey \<and>
   only_advances ReadEllswiftPubkey \<and> only_advances ReadSignature \<and> only_advances (\<lambda>r. Read r l) \<and>
   only_advances (\<lambda>r. ReadSeq1 r q) \<and> only_advances (\<lambda>r. ReadOptionT r q) \<and>
   only_advances (\<lambda>r. ReadSeq255 r q) \<and> only_advances (\<lambda>r. ReadSeq64K r q) \<and>
   (reader_ok r \<longrightarrow> reader_ok (snd (Seek r off whence)) \<and> br_data (snd (Seek r off whence)) = br_data r)"
proof (intro conjI)
  show "reader_ok (NewBinaryReader d)"
    by (simp add: reader_ok_def NewBinaryReader_def slice_len_def split: option.split)
  show "reader_ok r \<longrightarrow>
      reader_ok (snd (Seek r off whence)) \<and> br_data (snd (Seek r off whence)) = br_data r"
    by (simp add: reader_ok_def Seek_def Let_def)
qed (auto simp: only_advances_def dest: advances)

theorem reader_invariant_witness:
  "reader_ok (cursor [9] [2, 7]) \<and> reader_ok (snd (Seek (cursor [9] [2, 7]) 2 0)) \<and>
     advanced (cursor [9] [2, 7]) (cursor [9, 2] [7])"
proof -
  have "ReadU8 (cursor [9] [2, 7]) = Some (2, cursor [9, 2] [7])" by (simp add: ReadU8_cursor)
  moreover have "reader_ok (cursor [9] [2, 7])" by (simp add: reader_ok_def cursor_def slice_len_def)
  ultimately show ?thesis
    using reader_invariant [of None 0 "U8Sequence []" "cursor [9] [2, 7]" 2 0]
    by (simp add: only_advances_def)
qed

end
