(* ===== verification/Noise_Cipher.thy ===== *)
theory Noise_Cipher
  imports Frames "HOL-Library.Signed_Division"
begin

text \<open>
  \<open>CipherState\<close> of \<open>src/noise.go\<close>: the counter-nonce encryption of transport messages
  and of whole frames. The AEAD is a package outside the repository: the record
  \<open>AEAD\<close> holds its three functions as parameters, together with the value that the
  platform gives to \<open>uint64(math.Pow(2, 64))\<close>, a conversion out of range that Go leaves
  to the implementation. \<open>aead_ok\<close> states what is documented of the AEAD and used here.

  Results: \<open>None\<close> is a panic (a nil AEAD, or a panic below), \<open>Inl\<close> an error; the
  state afterwards is returned with both.
\<close>

section \<open>The AEAD\<close>

record 'g AEAD =
  aead_New :: "byte list \<Rightarrow> error + 'g"
  aead_Seal :: "'g \<Rightarrow> byte list \<Rightarrow> byte list \<Rightarrow> byte list \<Rightarrow> byte list"
  aead_Open :: "'g \<Rightarrow> byte list \<Rightarrow> byte list \<Rightarrow> byte list \<Rightarrow> error + byte list"
  uint64_pow :: u64

text \<open>
  A key of 32 bytes is accepted; \<open>Seal\<close> adds 16 bytes and \<open>Open\<close> undoes it under the
  same nonce and additional data; what is shorter than the tag is never opened.
\<close>

definition aead_ok :: "('g, 'z) AEAD_scheme \<Rightarrow> bool" where
  "aead_ok A \<longleftrightarrow>
     (\<forall>k. length k = 32 \<longrightarrow> (\<exists>g. aead_New A k = Inr g)) \<and>
     (\<forall>g n p ad. length n = 12 \<longrightarrow>
        aead_Open A g n (aead_Seal A g n p ad) ad = Inr p \<and>
        length (aead_Seal A g n p ad) = length p + 16) \<and>
     (\<forall>g n c ad. length c < 16 \<longrightarrow> (\<exists>e. aead_Open A g n c ad = Inl e))"

section \<open>CipherState\<close>

record 'g CipherState =
  cs_k :: slice
  cs_n :: u64
  cs_gcm :: "'g option"

definition zero_CipherState :: "'g CipherState" where
  "zero_CipherState = \<lparr>cs_k = None, cs_n = 0, cs_gcm = None\<rparr>"

definition maxNoiseNonce :: "('g, 'z) AEAD_scheme \<Rightarrow> u64" where
  "maxNoiseNonce A = uint64_pow A - 1"

definition MaxPlaintextChunkSize :: int where
  "MaxPlaintextChunkSize = 65519"

definition MaxNoiseFrameSize :: int where
  "MaxNoiseFrameSize = 65535"

definition NoiseHeaderSize :: nat where
  "NoiseHeaderSize = 22"

definition MacLen :: int where
  "MacLen = 16"

definition InitializeKey ::
    "('g, 'z) AEAD_scheme \<Rightarrow> 'g CipherState \<Rightarrow> 32 byte_array \<Rightarrow> 'g CipherState \<times> error option" where
  "InitializeKey A cs k =
     (let cs = cs\<lparr>cs_k := Some (array_bytes k), cs_n := 0\<rparr>
      in case aead_New A (array_bytes k) of
           Inl e \<Rightarrow> (cs\<lparr>cs_gcm := None\<rparr>, Some e)
         | Inr g \<Rightarrow> (cs\<lparr>cs_gcm := Some g\<rparr>, None))"

definition getNonce :: "'g CipherState \<Rightarrow> byte list \<times> 'g CipherState" where
  "getNonce cs = (replicate 4 0 @ le64 (cs_n cs), cs\<lparr>cs_n := cs_n cs + 1\<rparr>)"

text \<open>\<open>/\<close> and \<open>%\<close> of Go truncate towards zero.\<close>

definition PlainTextLenToCipherTextLen :: "int \<Rightarrow> int" where
  "PlainTextLenToCipherTextLen plainTextLen =
     (let rem = plainTextLen smod MaxPlaintextChunkSize;
          rem = (if rem > 0 then rem + MacLen else rem)
      in plainTextLen sdiv MaxPlaintextChunkSize * MaxNoiseFrameSize + rem)"

definition EncryptWithAd ::
    "('g, 'z) AEAD_scheme \<Rightarrow> 'g CipherState \<Rightarrow> byte list \<Rightarrow> byte list \<Rightarrow>
       ((error + byte list) \<times> 'g CipherState) option" where
  "EncryptWithAd A cs ad plaintext =
     (if slice_len (cs_k cs) = 0 then Some (Inr plaintext, cs)
      else if cs_n cs = maxNoiseNonce A then Some (Inl Nonce_space_exhausted, cs)
      else do {
        g \<leftarrow> cs_gcm cs;
        let (nonce, cs) = getNonce cs;
        Some (Inr (aead_Seal A g nonce plaintext ad), cs) })"

definition DecryptWithAd ::
    "('g, 'z) AEAD_scheme \<Rightarrow> 'g CipherState \<Rightarrow> byte list \<Rightarrow> byte list \<Rightarrow>
       ((error + byte list) \<times> 'g CipherState) option" where
  "DecryptWithAd A cs ad ciphertext =
     (if slice_len (cs_k cs) = 0 then Some (Inr ciphertext, cs)
      else if cs_n cs = maxNoiseNonce A then Some (Inl Nonce_space_exhausted, cs)
      else do {
        g \<leftarrow> cs_gcm cs;
        let (nonce, cs) = getNonce cs;
        case aead_Open A g nonce ciphertext ad of
          Inl e \<Rightarrow> Some (Inl e, cs\<lparr>cs_n := cs_n cs + NOT 0\<rparr>)
        | Inr out \<Rightarrow> Some (Inr out, cs) })"

definition Encrypt ::
    "('g, 'z) AEAD_scheme \<Rightarrow> 'g CipherState \<Rightarrow> byte list \<Rightarrow>
       ((error + byte list) \<times> 'g CipherState) option" where
  "Encrypt A cs plaintext = EncryptWithAd A cs [] plaintext"

definition Decrypt ::
    "('g, 'z) AEAD_scheme \<Rightarrow> 'g CipherState \<Rightarrow> byte list \<Rightarrow>
       ((error + byte list) \<times> 'g CipherState) option" where
  "Decrypt A cs ciphertext = DecryptWithAd A cs [] ciphertext"

definition EncryptFrame ::
    "('g, 'z) AEAD_scheme \<Rightarrow> 'g CipherState \<Rightarrow> Frame \<Rightarrow>
       (((error + byte list) \<times> 'g CipherState) \<times> Frame) option" where
  "EncryptFrame A cs frame =
     (case Frame_Encode frame of
        ((_, Some err), frame) \<Rightarrow> Some ((Inl err, cs), frame)
      | ((encoded, None), frame) \<Rightarrow> do {
          hdr \<leftarrow> reslice (encoded, []) 0 FrameHeaderSize;
          (header, cs) \<leftarrow> EncryptWithAd A cs [] hdr;
          case header of
            Inl err \<Rightarrow> Some ((Inl (Errorf ''error while encrypting header: '' err), cs), frame)
          | Inr header \<Rightarrow> do {
              body \<leftarrow> reslice (encoded, []) FrameHeaderSize (length encoded);
              (out, cs) \<leftarrow> EncryptWithAd A cs [] body;
              case out of
                Inl err \<Rightarrow> Some ((Inl (Errorf ''error while encrypting payload: '' err), cs), frame)
              | Inr out \<Rightarrow> Some ((Inr (header @ out), cs), frame) } })"

definition EncryptFrameToWriter ::
    "('w \<Rightarrow> byte list \<Rightarrow> (nat \<times> error option) \<times> 'w) \<Rightarrow> ('g, 'z) AEAD_scheme \<Rightarrow> 'g CipherState \<Rightarrow> Frame \<Rightarrow> 'w \<Rightarrow>
       (((nat \<times> error option) \<times> 'g CipherState) \<times> Frame \<times> 'w) option" where
  "EncryptFrameToWriter wr A cs frame w =
     (case Frame_Encode frame of
        ((_, Some err), frame) \<Rightarrow> Some (((0, Some err), cs), frame, w)
      | ((encoded, None), frame) \<Rightarrow> do {
          hdr \<leftarrow> reslice (encoded, []) 0 FrameHeaderSize;
          (header, cs) \<leftarrow> Encrypt A cs hdr;
          case header of
            Inl err \<Rightarrow> Some (((0, Some (Errorf ''error while encrypting header: '' err)), cs), frame, w)
          | Inr header \<Rightarrow> do {
              body \<leftarrow> reslice (encoded, []) FrameHeaderSize (length encoded);
              (payload, cs) \<leftarrow> Encrypt A cs body;
              case payload of
                Inl err \<Rightarrow>
                  Some (((0, Some (Errorf ''error while encrypting payload: '' err)), cs), frame, w)
              | Inr payload \<Rightarrow>
                  let (res, w) = wr w (header @ payload) in Some ((res, cs), frame, w) } })"

definition DecryptFrameFromReader ::
    "('r \<Rightarrow> int \<Rightarrow> ((byte list \<times> error option) \<times> 'r) option) \<Rightarrow> ('g, 'z) AEAD_scheme \<Rightarrow>
       'g CipherState \<Rightarrow> 'r \<Rightarrow> (((error + Frame) \<times> 'g CipherState) \<times> 'r) option" where
  "DecryptFrameFromReader rd A cs r = do {
     ((header, err), r) \<leftarrow> ReadFull rd r NoiseHeaderSize;
     case err of
       Some err \<Rightarrow> Some ((Inl err, cs), r)
     | None \<Rightarrow>
       if length header < NoiseHeaderSize then Some ((Inl Header_too_short, cs), r)
       else do {
         (decrypted, cs) \<leftarrow> DecryptWithAd A cs [] header;
         case decrypted of
           Inl err \<Rightarrow> Some ((Inl (Errorf ''error while decrypting header: '' err), cs), r)
         | Inr decrypted \<Rightarrow> do {
             (frame, _) \<leftarrow> Frame_DecodeHeader zero_Frame (Some decrypted);
             let payloadLen = PlainTextLenToCipherTextLen (uint (fr_MessageLength frame));
             ((payload, err), r) \<leftarrow> ReadFull rd r (nat payloadLen);
             case err of
               Some err \<Rightarrow> Some ((Inl err, cs), r)
             | None \<Rightarrow>
               if int (length payload) < payloadLen then Some ((Inl Payload_too_short, cs), r)
               else do {
                 (decrypted, cs) \<leftarrow> DecryptWithAd A cs [] payload;
                 case decrypted of
                   Inl err \<Rightarrow> Some ((Inl (Errorf ''error while decrypting payload: '' err), cs), r)
                 | Inr decrypted \<Rightarrow>
                     Some ((Inr (frame\<lparr>fr_Payload := Some decrypted\<rparr>), cs), r) } } } }"

text \<open>\<open>DecryptFrame\<close> has the same body over a reader of its argument, which it drops.\<close>

definition DecryptFrame ::
    "('g, 'z) AEAD_scheme \<Rightarrow> 'g CipherState \<Rightarrow> slice \<Rightarrow> ((error + Frame) \<times> 'g CipherState) option" where
  "DecryptFrame A cs f = do {
     (res, _) \<leftarrow> DecryptFrameFromReader Read A cs (NewBinaryReader f);
     Some res }"

section \<open>One call at a time\<close>

definition nonce_bytes :: "u64 \<Rightarrow> byte list" where
  "nonce_bytes n = replicate 4 0 @ le64 n"

text \<open>A cipher state with a key and its AEAD, as \<open>InitializeKey\<close> leaves it.\<close>

definition keyed :: "'g CipherState \<Rightarrow> 'g \<Rightarrow> bool" where
  "keyed cs g \<longleftrightarrow> slice_bytes (cs_k cs) \<noteq> [] \<and> cs_gcm cs = Some g"

lemma length_nonce_bytes [simp]: "length (nonce_bytes n) = 12"
  by (simp add: nonce_bytes_def)

lemma nonce_bytes_inj [simp]: "nonce_bytes m = nonce_bytes n \<longleftrightarrow> m = n"
proof
  assume "nonce_bytes m = nonce_bytes n"
  then have "le_word (le64 m) = (le_word (le64 n) :: u64)" by (simp add: nonce_bytes_def)
  then show "m = n" by (simp only: le_word_le)
qed simp

lemma array_bytes_nonempty [simp]: "array_bytes a \<noteq> []"
proof
  assume "array_bytes a = []"
  then have "length (array_bytes a) = 0" by simp
  then show False by (simp only: length_array_bytes) simp
qed

lemma keyed_update [simp]: "keyed (cs\<lparr>cs_n := n\<rparr>) g = keyed cs g"
  by (simp add: keyed_def)

lemma keyed_k: "keyed cs g \<Longrightarrow> slice_len (cs_k cs) \<noteq> 0"
  by (auto simp: keyed_def slice_len_def slice_bytes_def split: option.splits)

lemma InitializeKey_ok:
  assumes "aead_ok A"
  shows "\<exists>g. aead_New A (array_bytes k) = Inr g \<and>
    InitializeKey A cs k = (\<lparr>cs_k = Some (array_bytes k), cs_n = 0, cs_gcm = Some g\<rparr>, None)"
proof -
  have "length (array_bytes k) = 32" by simp
  then obtain g where "aead_New A (array_bytes k) = Inr g"
    using assms unfolding aead_ok_def by blast
  then show ?thesis by (simp add: InitializeKey_def)
qed

lemma keyed_Initialized: "keyed \<lparr>cs_k = Some (array_bytes (k :: 32 byte_array)), cs_n = n, cs_gcm = Some g\<rparr> g"
  by (simp add: keyed_def slice_bytes_def)

lemma Encrypt_keyed:
  assumes "keyed cs g" and "cs_n cs \<noteq> maxNoiseNonce A"
  shows "EncryptWithAd A cs ad p =
    Some (Inr (aead_Seal A g (nonce_bytes (cs_n cs)) p ad), cs\<lparr>cs_n := cs_n cs + 1\<rparr>)"
  using assms keyed_k [OF assms(1)]
  by (simp add: EncryptWithAd_def getNonce_def nonce_bytes_def keyed_def)

lemma Encrypt_exhausted:
  assumes "keyed cs g" and "cs_n cs = maxNoiseNonce A"
  shows "EncryptWithAd A cs ad p = Some (Inl Nonce_space_exhausted, cs)"
  using assms keyed_k [OF assms(1)] by (simp add: EncryptWithAd_def)

lemma Encrypt_unkeyed: "slice_bytes (cs_k cs) = [] \<Longrightarrow> EncryptWithAd A cs ad p = Some (Inr p, cs)"
  by (auto simp: EncryptWithAd_def slice_len_def slice_bytes_def split: option.splits)

lemma Decrypt_unkeyed: "slice_bytes (cs_k cs) = [] \<Longrightarrow> DecryptWithAd A cs ad p = Some (Inr p, cs)"
  by (auto simp: DecryptWithAd_def slice_len_def slice_bytes_def split: option.splits)

lemma Decrypt_keyed:
  assumes "keyed cs g" and "cs_n cs \<noteq> maxNoiseNonce A"
  shows "DecryptWithAd A cs ad c =
    (case aead_Open A g (nonce_bytes (cs_n cs)) c ad of
       Inl e \<Rightarrow> Some (Inl e, cs) | Inr p \<Rightarrow> Some (Inr p, cs\<lparr>cs_n := cs_n cs + 1\<rparr>))"
  using assms keyed_k [OF assms(1)]
  by (auto simp: DecryptWithAd_def getNonce_def nonce_bytes_def keyed_def split: sum.splits)

lemma Decrypt_Seal:
  assumes "aead_ok A" and "keyed cs g" and "cs_n cs \<noteq> maxNoiseNonce A"
  shows "DecryptWithAd A cs ad (aead_Seal A g (nonce_bytes (cs_n cs)) p ad) =
    Some (Inr p, cs\<lparr>cs_n := cs_n cs + 1\<rparr>)"
  using assms by (simp add: Decrypt_keyed aead_ok_def)

lemma Decrypt_fails:
  "DecryptWithAd A cs ad c = Some (Inl e, cs') \<Longrightarrow> cs' = cs"
  by (cases "aead_Open A (the (cs_gcm cs)) (replicate 4 0 @ le64 (cs_n cs)) c ad")
    (auto simp: DecryptWithAd_def getNonce_def bind_eq_Some_conv split: if_splits)

section \<open>Ciphertext lengths\<close>

lemma PlainTextLen_chunks:
  assumes "0 \<le> n"
  shows "PlainTextLenToCipherTextLen n = n + 16 * ((n + 65518) div 65519)"
proof -
  have "n smod 65519 = n mod 65519" "n sdiv 65519 = n div 65519"
    using assms by (simp_all add: signed_modulo_int_def signed_divide_int_def sgn_if)
  moreover have "n = 65519 * (n div 65519) + n mod 65519" by simp
  moreover have "(n + 65518) div 65519 = n div 65519 + (if n mod 65519 > 0 then 1 else 0)"
  proof -
    let ?r = "n mod 65519"
    have "(?r + 65518) div 65519 = (if ?r > 0 then 1 else 0)"
      using pos_mod_sign [of 65519 n] pos_mod_bound [of 65519 n] by (auto simp: div_pos_geq)
    moreover have "(n + 65518) div 65519 = n div 65519 + (?r + 65518) div 65519"
      using div_mult_self1 [of 65519 "?r + 65518" "n div 65519"] by simp
    ultimately show ?thesis by simp
  qed
  ultimately show ?thesis
    by (simp add: PlainTextLenToCipherTextLen_def MaxPlaintextChunkSize_def MaxNoiseFrameSize_def
        MacLen_def)
qed

lemma PlainTextLen_one_chunk:
  assumes "0 \<le> n"
  shows "PlainTextLenToCipherTextLen n = n + 16 \<longleftrightarrow> 1 \<le> n \<and> n \<le> 65519"
proof -
  have "(n + 65518) div 65519 = 1 \<longleftrightarrow> 1 \<le> n \<and> n \<le> 65519" by auto
  then show ?thesis by (simp add: PlainTextLen_chunks [OF assms])
qed

section \<open>Frames over the cipher\<close>

definition frame_header :: "Frame \<Rightarrow> byte list" where
  "frame_header f = le16 (fr_ExtensionType f) @ enc_u8 (fr_MessageType f) @ le24 (fr_MessageLength f)"

text \<open>What goes over the wire for a frame: header and payload, sealed under two nonces.\<close>

definition sealed_frame :: "('g, 'z) AEAD_scheme \<Rightarrow> 'g \<Rightarrow> u64 \<Rightarrow> Frame \<Rightarrow> byte list" where
  "sealed_frame A g n f =
     aead_Seal A g (nonce_bytes n) (frame_header f) [] @
     aead_Seal A g (nonce_bytes (n + 1)) (slice_bytes (fr_Payload f)) []"

definition nonces_left :: "('g, 'z) AEAD_scheme \<Rightarrow> 'g CipherState \<Rightarrow> bool" where
  "nonces_left A cs \<longleftrightarrow> cs_n cs \<noteq> maxNoiseNonce A \<and> cs_n cs + 1 \<noteq> maxNoiseNonce A"

lemma length_frame_header [simp]: "length (frame_header f) = 6"
  by (simp add: frame_header_def)

lemma frame_wire_header: "frame_wire f = frame_header f @ slice_bytes (fr_Payload f)"
  by (simp add: frame_wire_def frame_header_def)

lemma reslice_wire:
  "reslice (frame_wire f, []) 0 FrameHeaderSize = Some (frame_header f)"
  "reslice (frame_wire f, []) FrameHeaderSize (length (frame_wire f)) = Some (slice_bytes (fr_Payload f))"
  by (simp_all add: reslice_def FrameHeaderSize_def frame_wire_header)

lemma EncryptFrame_ok:
  assumes "keyed cs g" and "nonces_left A cs" and "frame_ok f" and "fr_TLVs f = None"
  shows "EncryptFrame A cs f =
    Some ((Inr (sealed_frame A g (cs_n cs) f), cs\<lparr>cs_n := cs_n cs + 2\<rparr>), f)"
  using assms frame_ok_len [OF assms(3)]
  by (simp add: EncryptFrame_def Frame_Encode_plain reslice_wire Encrypt_keyed nonces_left_def
      sealed_frame_def)

lemma EncryptFrameToWriter_ok:
  assumes "keyed cs g" and "nonces_left A cs" and "frame_ok f" and "fr_TLVs f = None"
  shows "EncryptFrameToWriter wr A cs f w =
    (let (res, w') = wr w (sealed_frame A g (cs_n cs) f)
     in Some ((res, cs\<lparr>cs_n := cs_n cs + 2\<rparr>), f, w'))"
  using assms frame_ok_len [OF assms(3)]
  by (simp add: EncryptFrameToWriter_def Frame_Encode_plain reslice_wire Encrypt_def Encrypt_keyed
      nonces_left_def sealed_frame_def add.commute)

text \<open>
  A frame comes back from its sealed bytes if its payload is one chunk: then
  \<open>PlainTextLenToCipherTextLen\<close> is the length that \<open>Seal\<close> gives.
\<close>

definition one_chunk :: "Frame \<Rightarrow> bool" where
  "one_chunk f \<longleftrightarrow> frame_ok f \<and> fr_TLVs f = None \<and>
     1 \<le> slice_len (fr_Payload f) \<and> slice_len (fr_Payload f) \<le> 65519"

context io_reader
begin

lemma DecryptFrameFromReader_back:
  assumes "aead_ok A" and "keyed cs g" and "nonces_left A cs" and "one_chunk f"
    and "ready r" and "avail r = sealed_frame A g (cs_n cs) f @ s"
  shows "\<exists>r'. DecryptFrameFromReader rd A cs r =
      Some ((Inr f, cs\<lparr>cs_n := cs_n cs + 2\<rparr>), r') \<and> avail r' = s \<and> ready r'"
proof -
  let ?n = "cs_n cs"
  let ?h = "aead_Seal A g (nonce_bytes ?n) (frame_header f) []"
  from assms(4) obtain p where p: "fr_Payload f = Some p" "unat (fr_MessageLength f) = length p"
    and l: "fr_MessageLength f < 16777216" and t: "fr_TLVs f = None"
    and chunk: "1 \<le> length p" "length p \<le> 65519"
    by (auto simp: one_chunk_def frame_ok_def slice_len_def)
  let ?p = "aead_Seal A g (nonce_bytes (?n + 1)) p []"
  have lens: "length ?h = 22" "length ?p = length p + 16"
    using assms(1) by (simp_all add: aead_ok_def)
  obtain r1 where r1: "ReadFull rd r 22 = Some ((?h, None), r1)" "avail r1 = ?p @ s" "ready r1"
    using ReadFull_append [OF assms(5), of ?h "?p @ s"] assms(6) lens p
    by (auto simp: sealed_frame_def slice_bytes_def)
  obtain r2 where r2: "ReadFull rd r1 (length p + 16) = Some ((?p, None), r2)" "avail r2 = s" "ready r2"
    using ReadFull_append [OF r1(3,2)] lens by auto
  let ?f = "zero_Frame\<lparr>fr_ExtensionType := fr_ExtensionType f, fr_MessageType := fr_MessageType f,
    fr_MessageLength := fr_MessageLength f\<rparr>"
  have hdr: "Frame_DecodeHeader zero_Frame (Some (frame_header f)) = Some (?f, None)"
    using DecodeHeader_back [OF l, of zero_Frame _ _ "[]"] by (simp add: frame_header_def)
  have len: "PlainTextLenToCipherTextLen (uint (fr_MessageLength f)) = int (length p) + 16"
    using PlainTextLen_one_chunk [of "int (length p)"] chunk uint_of_unat [OF p(2)] by simp
  have f: "?f\<lparr>fr_Payload := Some p\<rparr> = f"
    using p t by (simp add: zero_Frame_def)
  have "DecryptWithAd A cs [] ?h = Some (Inr (frame_header f), cs\<lparr>cs_n := ?n + 1\<rparr>)"
    using assms(1-3) by (simp add: Decrypt_Seal nonces_left_def)
  moreover have "DecryptWithAd A (cs\<lparr>cs_n := ?n + 1\<rparr>) [] ?p = Some (Inr p, cs\<lparr>cs_n := ?n + 2\<rparr>)"
    using assms(1-3) Decrypt_Seal [of A "cs\<lparr>cs_n := ?n + 1\<rparr>" g "[]" p]
    by (simp add: nonces_left_def add.commute)
  ultimately show ?thesis
    using r1 r2 lens hdr len f
    by (simp add: DecryptFrameFromReader_def NoiseHeaderSize_def nat_add_distrib)
qed

end

section \<open>Many calls\<close>

text \<open>
  A run of \<open>EncryptWithAd\<close> calls on one cipher state, one after another, with additional
  data, plaintext and ciphertext of every call that succeeds.
\<close>

inductive enc_run ::
  "('g, 'z) AEAD_scheme \<Rightarrow> 'g CipherState \<Rightarrow> (byte list \<times> byte list \<times> byte list) list \<Rightarrow>
     'g CipherState \<Rightarrow> bool" for A where
  enc_none: "enc_run A cs [] cs"
| enc_ok: "EncryptWithAd A cs ad p = Some (Inr c, cs1) \<Longrightarrow> enc_run A cs1 log cs2 \<Longrightarrow>
    enc_run A cs ((ad, p, c) # log) cs2"
| enc_err: "EncryptWithAd A cs ad p = Some (Inl e, cs1) \<Longrightarrow> enc_run A cs1 log cs2 \<Longrightarrow>
    enc_run A cs log cs2"

lemma unat_Suc_below:
  "unat (n :: u64) < unat (m :: u64) \<Longrightarrow> unat (n + 1) = Suc (unat n)"
  using unsigned_less [of m, where ?'a = nat] unat_word_ariths(1) [of n 1] by simp

lemma enc_run_nonces:
  assumes "enc_run A cs log cs'" and "keyed cs g" and "unat (cs_n cs) \<le> unat (maxNoiseNonce A)"
  shows "keyed cs' g \<and> unat (cs_n cs) + length log \<le> unat (maxNoiseNonce A) \<and>
    cs_n cs' = cs_n cs + word_of_nat (length log) \<and>
    (\<forall>i < length log. \<forall>ad p c. log ! i = (ad, p, c) \<longrightarrow>
       c = aead_Seal A g (nonce_bytes (cs_n cs + word_of_nat i)) p ad)"
  using assms
proof (induction rule: enc_run.induct)
  case (enc_none cs)
  then show ?case by simp
next
  case (enc_ok cs ad p c cs1 log cs2)
  have lt: "cs_n cs \<noteq> maxNoiseNonce A"
    using enc_ok.hyps(1) Encrypt_exhausted [OF enc_ok.prems(1)] by fastforce
  then have c: "c = aead_Seal A g (nonce_bytes (cs_n cs)) p ad" "cs1 = cs\<lparr>cs_n := cs_n cs + 1\<rparr>"
    using enc_ok.hyps(1) Encrypt_keyed [OF enc_ok.prems(1) lt] by simp_all
  have "unat (cs_n cs) < unat (maxNoiseNonce A)"
    using lt enc_ok.prems(2) by (metis le_neq_implies_less word_unat_eq_iff)
  then have s: "unat (cs_n cs1) = Suc (unat (cs_n cs))"
    using c(2) unat_Suc_below by simp
  have IH: "keyed cs2 g \<and> unat (cs_n cs1) + length log \<le> unat (maxNoiseNonce A) \<and>
    cs_n cs2 = cs_n cs1 + word_of_nat (length log) \<and>
    (\<forall>i < length log. \<forall>ad p c. log ! i = (ad, p, c) \<longrightarrow>
       c = aead_Seal A g (nonce_bytes (cs_n cs1 + word_of_nat i)) p ad)"
    using enc_ok.prems enc_ok.IH s c(2) \<open>unat (cs_n cs) < _\<close> by simp
  show ?case
  proof (intro conjI allI impI)
    fix i ad' p' c' assume i: "i < length ((ad, p, c) # log)" "((ad, p, c) # log) ! i = (ad', p', c')"
    then show "c' = aead_Seal A g (nonce_bytes (cs_n cs + word_of_nat i)) p' ad'"
      using IH c by (cases i) (auto simp: add.assoc)
  qed (use IH s c in \<open>auto simp: add.assoc\<close>)
next
  case (enc_err cs ad p e cs1 log cs2)
  then have "cs_n cs = maxNoiseNonce A"
    using Encrypt_keyed [OF enc_err.prems(1)] by fastforce
  then have "cs1 = cs"
    using enc_err.hyps(1) Encrypt_exhausted [OF enc_err.prems(1), of A ad p] by simp
  with enc_err show ?case by simp
qed

lemma distinct_nonces:
  assumes "k \<le> 2 ^ 64"
  shows "distinct (map (\<lambda>i. nonce_bytes (n + word_of_nat i)) [0..<k])"
proof -
  have "i = j" if "i < k" "j < k" "(word_of_nat i :: u64) = word_of_nat j" for i j
  proof -
    have "unat (word_of_nat i :: u64) = i" "unat (word_of_nat j :: u64) = j"
      using that(1,2) assms by (simp_all add: unat_of_nat take_bit_nat_eq_self)
    with that(3) show ?thesis by metis
  qed
  then show ?thesis by (auto simp: distinct_map inj_on_def)
qed

text \<open>Frames one after another: the sender's bytes joined, and the receiver on a stream.\<close>

fun encrypt_frames ::
    "('g, 'z) AEAD_scheme \<Rightarrow> 'g CipherState \<Rightarrow> Frame list \<Rightarrow> (byte list \<times> 'g CipherState) option" where
  "encrypt_frames A cs [] = Some ([], cs)"
| "encrypt_frames A cs (f # fs) =
     (case EncryptFrame A cs f of
        Some ((Inr b, cs), f) \<Rightarrow> do { (bs, cs) \<leftarrow> encrypt_frames A cs fs; Some (b @ bs, cs) }
      | _ \<Rightarrow> None)"

fun decrypt_frames ::
    "('r \<Rightarrow> int \<Rightarrow> ((byte list \<times> error option) \<times> 'r) option) \<Rightarrow> ('g, 'z) AEAD_scheme \<Rightarrow>
       'g CipherState \<Rightarrow> nat \<Rightarrow> 'r \<Rightarrow> (Frame list \<times> 'g CipherState \<times> 'r) option" where
  "decrypt_frames rd A cs 0 r = Some ([], cs, r)"
| "decrypt_frames rd A cs (Suc n) r =
     (case DecryptFrameFromReader rd A cs r of
        Some ((Inr f, cs), r) \<Rightarrow> do { (fs, x) \<leftarrow> decrypt_frames rd A cs n r; Some (f # fs, x) }
      | _ \<Rightarrow> None)"

lemma nonces_left_bound:
  assumes "unat (cs_n cs) + 2 * Suc k \<le> unat (maxNoiseNonce A)"
  shows "nonces_left A cs \<and> unat (cs_n cs + 2) + 2 * k \<le> unat (maxNoiseNonce A)"
proof -
  have 1: "unat (cs_n cs + 1) = Suc (unat (cs_n cs))"
    using assms by (intro unat_Suc_below [of _ "maxNoiseNonce A"]) simp
  have "unat (cs_n cs + 1 + 1) = Suc (unat (cs_n cs + 1))"
    using assms 1 by (intro unat_Suc_below [of _ "maxNoiseNonce A"]) simp
  then show ?thesis using assms 1 by (auto simp: nonces_left_def add.assoc)
qed

context io_reader
begin

lemma frames_back:
  assumes "aead_ok A"
  shows "keyed tx g \<Longrightarrow> keyed rx g \<Longrightarrow> cs_n rx = cs_n tx \<Longrightarrow> list_all one_chunk fs \<Longrightarrow>
    unat (cs_n tx) + 2 * length fs \<le> unat (maxNoiseNonce A) \<Longrightarrow>
    \<exists>b tx'. encrypt_frames A tx fs = Some (b, tx') \<and>
      (\<forall>r s. ready r \<longrightarrow> avail r = b @ s \<longrightarrow>
         (\<exists>rx' r'. decrypt_frames rd A rx (length fs) r = Some (fs, rx', r') \<and>
            cs_n rx' = cs_n tx' \<and> keyed tx' g \<and> keyed rx' g \<and> avail r' = s \<and> ready r'))"
proof (induction fs arbitrary: tx rx)
  case Nil
  then show ?case by simp
next
  case (Cons f fs)
  have nl: "nonces_left A tx" "unat (cs_n tx + 2) + 2 * length fs \<le> unat (maxNoiseNonce A)"
    using nonces_left_bound [of tx "length fs" A] Cons.prems(5) by simp_all
  have f: "one_chunk f" "list_all one_chunk fs" using Cons.prems(4) by simp_all
  then have ok: "frame_ok f" "fr_TLVs f = None" by (simp_all add: one_chunk_def)
  have enc: "EncryptFrame A tx f =
      Some ((Inr (sealed_frame A g (cs_n tx) f), tx\<lparr>cs_n := cs_n tx + 2\<rparr>), f)"
    by (rule EncryptFrame_ok [OF Cons.prems(1) nl(1) ok])
  obtain b tx' where IH: "encrypt_frames A (tx\<lparr>cs_n := cs_n tx + 2\<rparr>) fs = Some (b, tx')"
    "\<And>r s. ready r \<Longrightarrow> avail r = b @ s \<Longrightarrow>
       (\<exists>rx' r'. decrypt_frames rd A (rx\<lparr>cs_n := cs_n tx + 2\<rparr>) (length fs) r = Some (fs, rx', r') \<and>
          cs_n rx' = cs_n tx' \<and> keyed tx' g \<and> keyed rx' g \<and> avail r' = s \<and> ready r')"
    using Cons.IH [of "tx\<lparr>cs_n := cs_n tx + 2\<rparr>" "rx\<lparr>cs_n := cs_n tx + 2\<rparr>"] Cons.prems(1,2) f(2) nl(2)
    by auto
  have dec: "\<exists>rx' r'. decrypt_frames rd A rx (length (f # fs)) r = Some (f # fs, rx', r') \<and>
      cs_n rx' = cs_n tx' \<and> keyed tx' g \<and> keyed rx' g \<and> avail r' = s \<and> ready r'"
    if r: "ready r" "avail r = (sealed_frame A g (cs_n tx) f @ b) @ s" for r s
  proof -
    obtain r1 where "DecryptFrameFromReader rd A rx r = Some ((Inr f, rx\<lparr>cs_n := cs_n tx + 2\<rparr>), r1)"
      "avail r1 = b @ s" "ready r1"
      using DecryptFrameFromReader_back [OF assms Cons.prems(2) _ f(1) r(1), of "b @ s"] r(2) nl(1)
        Cons.prems(3) by (auto simp: nonces_left_def)
    with IH(2) [of r1 s] show ?thesis by auto
  qed
  show ?case using enc IH(1) dec by auto
qed

end

section \<open>Payloads that are not one chunk\<close>

lemma DecodeHeader_frame_header:
  assumes "fr_MessageLength f < 16777216"
  shows "Frame_DecodeHeader zero_Frame (Some (frame_header f)) =
    Some (zero_Frame\<lparr>fr_ExtensionType := fr_ExtensionType f, fr_MessageType := fr_MessageType f,
      fr_MessageLength := fr_MessageLength f\<rparr>, None)"
  using DecodeHeader_back [OF assms, of zero_Frame _ _ "[]"] by (simp add: frame_header_def)

lemma header_opened:
  assumes "aead_ok A" and "keyed cs g" and "nonces_left A cs"
  shows "\<exists>h. ReadFull Read (NewBinaryReader (Some (sealed_frame A g (cs_n cs) f))) NoiseHeaderSize =
      Some ((h, None), cursor h
        (aead_Seal A g (nonce_bytes (cs_n cs + 1)) (slice_bytes (fr_Payload f)) [])) \<and>
    length h = 22 \<and>
    DecryptWithAd A cs [] h = Some (Inr (frame_header f), cs\<lparr>cs_n := cs_n cs + 1\<rparr>)"
proof -
  let ?h = "aead_Seal A g (nonce_bytes (cs_n cs)) (frame_header f) []"
  let ?pl = "aead_Seal A g (nonce_bytes (cs_n cs + 1)) (slice_bytes (fr_Payload f)) []"
  have len: "length ?h = 22" using assms(1) by (simp add: aead_ok_def)
  have "Read (cursor [] (?h @ ?pl)) 22 = Some ((?h, None), cursor ?h ?pl)"
    using read_cursor [of 22 "?h @ ?pl" "[]"] len by (simp add: Read_def)
  then have "ReadFull Read (cursor [] (?h @ ?pl)) 22 = Some ((?h, None), cursor ?h ?pl)"
    using len by (simp add: ReadFull_def read_loop.simps [of Read 22 "[]"]
        read_loop.simps [of Read 22 ?h])
  moreover have "DecryptWithAd A cs [] ?h = Some (Inr (frame_header f), cs\<lparr>cs_n := cs_n cs + 1\<rparr>)"
    using assms by (simp add: Decrypt_Seal nonces_left_def)
  ultimately show ?thesis
    using len by (auto simp: NewBinaryReader_cursor sealed_frame_def NoiseHeaderSize_def)
qed

text \<open>
  After the header a ciphertext of the wrong length is asked for, so the frame is lost and
  the receiver is left one nonce behind the sender.
\<close>

lemma DecryptFrame_empty_payload:
  assumes "aead_ok A" and "keyed cs g" and "nonces_left A cs" and "frame_ok f"
    and "fr_Payload f = Some []"
  shows "\<exists>e. DecryptFrame A cs (Some (sealed_frame A g (cs_n cs) f)) =
    Some (Inl (Errorf ''error while decrypting payload: '' e), cs\<lparr>cs_n := cs_n cs + 1\<rparr>)"
proof -
  let ?cs = "cs\<lparr>cs_n := cs_n cs + 1\<rparr>"
  have ml: "fr_MessageLength f < 16777216" "fr_MessageLength f = 0"
    using assms(4,5) by (auto simp: frame_ok_def unat_eq_zero)
  obtain e where "aead_Open A g (nonce_bytes (cs_n ?cs)) [] [] = Inl e"
    using assms(1) by (fastforce simp: aead_ok_def)
  then have dec: "DecryptWithAd A ?cs [] [] = Some (Inl e, ?cs)"
    using assms(2,3) by (simp add: Decrypt_keyed nonces_left_def)
  have "ReadFull Read r 0 = Some (([], None), r)" for r
    by (simp add: ReadFull_def read_loop.simps [of Read 0])
  with header_opened [OF assms(1-3), of f] dec DecodeHeader_frame_header [OF ml(1)] show ?thesis
    by (auto simp: DecryptFrame_def DecryptFrameFromReader_def NoiseHeaderSize_def ml(2)
        PlainTextLen_chunks)
qed

lemma DecryptFrame_two_chunks:
  assumes "aead_ok A" and "keyed cs g" and "nonces_left A cs" and "frame_ok f"
    and "65519 < slice_len (fr_Payload f)"
  shows "DecryptFrame A cs (Some (sealed_frame A g (cs_n cs) f)) =
    Some (Inl Reader_EOF, cs\<lparr>cs_n := cs_n cs + 1\<rparr>)"
proof -
  from assms(4) obtain p where p: "fr_Payload f = Some p" "unat (fr_MessageLength f) = length p"
    and ml: "fr_MessageLength f < 16777216" by (auto simp: frame_ok_def)
  have lp: "65519 < length p" "length p < 16777216"
    using assms(5) p ml by (auto simp: slice_len_def word_less_nat_alt)
  define n where "n = nat (PlainTextLenToCipherTextLen (uint (fr_MessageLength f)))"
  let ?pl = "aead_Seal A g (nonce_bytes (cs_n cs + 1)) (slice_bytes (fr_Payload f)) []"
  have n: "n = length p + 16 * ((length p + 65518) div 65519)"
    using PlainTextLen_chunks [of "int (length p)"] uint_of_unat [OF p(2)]
    by (simp add: n_def nat_add_distrib nat_mult_distrib zdiv_int [symmetric])
  have "2 \<le> (length p + 65518) div 65519"
    using div_le_mono [of "65520 + 65518" "length p + 65518" 65519] lp by simp
  moreover have "(length p + 65518) div 65519 \<le> length p + 65518" by simp
  moreover have "length ?pl = length p + 16"
    using assms(1) p by (simp add: aead_ok_def slice_bytes_def)
  ultimately have len: "length ?pl < n" "n < 1000000000" using n lp by linarith+
  have "ReadFull Read (cursor h ?pl) n = Some (([], Some Reader_EOF), exhausted (h @ ?pl))"
    if "length h = 22" for h
    using read_cursor_short [OF len(1), of h] that len
    by (simp add: ReadFull_def read_loop.simps [of Read n] Read_def)
  with header_opened [OF assms(1-3), of f] DecodeHeader_frame_header [OF ml] show ?thesis
    by (auto simp: DecryptFrame_def DecryptFrameFromReader_def NoiseHeaderSize_def n_def)
qed

section \<open>Lengths\<close>

text \<open>
  The ciphertext length that is computed for a plaintext of \<open>n\<close> bytes counts 16 bytes
  for each chunk of at most 65519 bytes; it is the length of the single ciphertext that
  the code produces exactly if \<open>n\<close> is between 1 and 65519.
\<close>

lemma ciphertext_length:
  assumes "0 \<le> n"
  shows "PlainTextLenToCipherTextLen n = n + 16 * ((n + 65518) div 65519) \<and>
    (PlainTextLenToCipherTextLen n = n + 16 \<longleftrightarrow> 1 \<le> n \<and> n \<le> 65519)"
  using PlainTextLen_chunks [OF assms] PlainTextLen_one_chunk [OF assms] by blast

end
