(* ===== verification/Ellswift.thy ===== *)
theory Ellswift
  imports Codec
begin

text \<open>
  \<open>src/ellswift.go\<close> and \<open>Keypair\<close> of \<open>src/noise.go\<close>. The curve is a package
  outside the repository: the record \<open>Btcec\<close> holds the functions used of it, with type
  variables for private keys, public keys, points and field elements. The source of
  randomness is a parameter too: \<open>rnd r n\<close> gives what \<open>rand.Read\<close> puts into a buffer
  of \<open>n\<close> bytes, its error, and the source afterwards.
\<close>

section \<open>The curve and the random source\<close>

record ('k, 'q, 'j, 'f) Btcec =
  PrivKeyFromBytes :: "byte list \<Rightarrow> 'k"
  PrivKey_Serialize :: "'k \<Rightarrow> byte list"
  PrivKey_PubKey :: "'k \<Rightarrow> 'q"
  PubKey_X :: "'q \<Rightarrow> nat"
  ScalarBaseMultNonConst :: "'k \<Rightarrow> 'j"
  ToAffine :: "'j \<Rightarrow> 'j"
  Jacobian_X :: "'j \<Rightarrow> 'f"
  FieldVal_SetBytes :: "32 byte_array \<Rightarrow> 'f \<times> u32"
  FieldVal_SetByteSlice :: "byte list \<Rightarrow> 'f"
  FieldVal_Normalize :: "'f \<Rightarrow> 'f"
  FieldVal_Bytes :: "'f \<Rightarrow> 32 byte_array"
  XSwiftECInv :: "'f \<Rightarrow> 'f \<Rightarrow> int \<Rightarrow> 'f option"

type_synonym 'r random = "'r \<Rightarrow> nat \<Rightarrow> (byte list \<times> error option) \<times> 'r"

text \<open>
  A private key serialises to 32 bytes that give the key back; the coordinate of a public
  key fits 32 bytes.
\<close>

definition btcec_ok :: "('k, 'q, 'j, 'f) Btcec \<Rightarrow> bool" where
  "btcec_ok B \<longleftrightarrow>
     (\<forall>k. length (PrivKey_Serialize B k) = 32 \<and> PrivKeyFromBytes B (PrivKey_Serialize B k) = k) \<and>
     (\<forall>q. PubKey_X B q < 256 ^ 32)"

text \<open>The buffer is filled without an error.\<close>

definition rand_ok :: "'r random \<Rightarrow> bool" where
  "rand_ok rnd \<longleftrightarrow> (\<forall>r n. length (fst (fst (rnd r n))) = n \<and> snd (fst (rnd r n)) = None)"

text \<open>A zeroed array after \<open>bs\<close> has been copied into its front.\<close>

definition fill :: "byte list \<Rightarrow> 'n::len byte_array" where
  "fill bs = Array (take LENGTH('n) (bs @ replicate LENGTH('n) 0))"

section \<open>ElligatorSwift\<close>

definition getXCoord :: "('k, 'q, 'j, 'f) Btcec \<Rightarrow> 'k \<Rightarrow> 'f" where
  "getXCoord B privKey =
     (let result = ScalarBaseMultNonConst B privKey;
          result = ToAffine B result
      in Jacobian_X B result)"

text \<open>\<open>u.SetBytes\<close>, then \<open>Normalize\<close> on overflow.\<close>

definition field_of_bytes :: "('k, 'q, 'j, 'f) Btcec \<Rightarrow> 32 byte_array \<Rightarrow> 'f" where
  "field_of_bytes B bs =
     (let (u, overflow) = FieldVal_SetBytes B bs
      in if overflow = 1 then FieldVal_Normalize B u else u)"

definition XElligatorSwiftAux ::
    "('k, 'q, 'j, 'f) Btcec \<Rightarrow> 'f \<Rightarrow> 32 byte_array \<Rightarrow> u8 \<Rightarrow> error + 'f \<times> 'f" where
  "XElligatorSwiftAux B x auxRand caseNum =
     (let u = field_of_bytes B auxRand
      in case XSwiftECInv B u x (uint (caseNum AND 7)) of
           None \<Rightarrow> Inl T_not_found
         | Some t \<Rightarrow> Inr (u, t))"

partial_function (option) XElligatorSwift ::
    "('k, 'q, 'j, 'f) Btcec \<Rightarrow> 'r random \<Rightarrow> 'f \<Rightarrow> 'r \<Rightarrow>
       ((error + 'f \<times> 'f \<times> 32 byte_array \<times> u8) \<times> 'r) option" where
  "XElligatorSwift B rnd x r = do {
     ((bs, err), r) \<leftarrow> Some (rnd r 32);
     if err \<noteq> None then Some (Inl (the err), r)
     else do {
       let randUBytes = fill bs;
       let u = field_of_bytes B randUBytes;
       ((bs, err), r) \<leftarrow> Some (rnd r 1);
       if err \<noteq> None then Some (Inl (the err), r)
       else do {
         let caseNum = hd (bs @ [0]) AND 7;
         let t = XSwiftECInv B u x (uint caseNum);
         if t \<noteq> None then Some (Inr (u, the t, randUBytes, caseNum), r)
         else XElligatorSwift B rnd x r } } }"

definition ellswift_pub :: "('k, 'q, 'j, 'f) Btcec \<Rightarrow> 'f \<Rightarrow> 'f \<Rightarrow> EllswiftPubkey" where
  "ellswift_pub B u t = Array (array_bytes (FieldVal_Bytes B u) @ array_bytes (FieldVal_Bytes B t))"

definition EllswiftRecreateFromBytes ::
    "('k, 'q, 'j, 'f) Btcec \<Rightarrow> 32 byte_array \<Rightarrow> 32 byte_array \<Rightarrow> u8 \<Rightarrow> error + 'k \<times> EllswiftPubkey" where
  "EllswiftRecreateFromBytes B privKeyBytes auxRand caseNum =
     (let privKey = PrivKeyFromBytes B (array_bytes privKeyBytes);
          x = getXCoord B privKey
      in case XElligatorSwiftAux B x auxRand caseNum of
           Inl err \<Rightarrow> Inl err
         | Inr (u, t) \<Rightarrow> Inr (privKey, ellswift_pub B u t))"

definition EllswiftCreate ::
    "('k, 'q, 'j, 'f) Btcec \<Rightarrow> 'r random \<Rightarrow> 'r \<Rightarrow>
       ((error + 'k \<times> EllswiftPubkey \<times> 32 byte_array \<times> u8) \<times> 'r) option" where
  "EllswiftCreate B rnd r =
     (case rnd r 32 of
        ((bs, Some err), r) \<Rightarrow> Some (Inl err, r)
      | ((bs, None), r) \<Rightarrow> do {
          let privKey = PrivKeyFromBytes B (array_bytes (fill bs :: 32 byte_array));
          let x = getXCoord B privKey;
          (res, r) \<leftarrow> XElligatorSwift B rnd x r;
          case res of
            Inl err \<Rightarrow> Some (Inl err, r)
          | Inr (u, t, auxRand, caseNum) \<Rightarrow>
              Some (Inr (privKey, ellswift_pub B u t, auxRand, caseNum), r) })"

section \<open>Keypair\<close>

record ('k, 'q) Keypair =
  kp_Private :: "'k option"
  kp_Public :: "'q option"
  kp_publicX :: slice
  kp_publicEllswift :: EllswiftPubkey
  kp_auxRand :: "32 byte_array"
  kp_caseNum :: u8

definition zero_Keypair :: "('k, 'q) Keypair" where
  "zero_Keypair = \<lparr>kp_Private = None, kp_Public = None, kp_publicX = None,
     kp_publicEllswift = zero_array, kp_auxRand = zero_array, kp_caseNum = 0\<rparr>"

definition SerializeEllswift :: "('k, 'q) Keypair \<Rightarrow> EllswiftPubkey" where
  "SerializeEllswift kp = kp_publicEllswift kp"

definition SerializeEllswiftBytes :: "('k, 'q) Keypair \<Rightarrow> byte list" where
  "SerializeEllswiftBytes kp = array_bytes (kp_publicEllswift kp)"

definition PublicKeyBytes :: "('k, 'q) Keypair \<Rightarrow> slice" where
  "PublicKeyBytes kp = kp_publicX kp"

definition PublicKey :: "('k, 'q) Keypair \<Rightarrow> Pubkey option" where
  "PublicKey kp = array_of_slice (slice_bytes (PublicKeyBytes kp))"

text \<open>\<open>big.Int.FillBytes\<close>: big-endian, a panic if the number does not fit.\<close>

definition FillBytes :: "nat \<Rightarrow> nat \<Rightarrow> byte list option" where
  "FillBytes x n =
     (if x < 256 ^ n then Some (map (\<lambda>i. word_of_nat (x div 256 ^ (n - 1 - i))) [0..<n]) else None)"

definition Keypair_Encode ::
    "('k, 'q, 'j, 'f) Btcec \<Rightarrow> ('k, 'q) Keypair \<Rightarrow> (byte list \<times> error option) option" where
  "Keypair_Encode B kp = do {
     priv \<leftarrow> kp_Private kp;
     let out = Grow NewBinaryBuilder 65;
     let out = AddBytes out (PrivKey_Serialize B priv);
     let out = AddBytes out (array_bytes (kp_auxRand kp));
     let out = AddU8 out (kp_caseNum kp);
     Some (Bytes out) }"

definition Keypair_Decode ::
    "('k, 'q, 'j, 'f) Btcec \<Rightarrow> ('k, 'q) Keypair \<Rightarrow> slice \<Rightarrow> (('k, 'q) Keypair \<times> error option) option" where
  "Keypair_Decode B kp b = do {
     let br = NewBinaryReader b;
     (x, br) \<leftarrow> bytes_result (ReadBytes br 32); privkey \<leftarrow> array_of_slice x;
     (x, br) \<leftarrow> bytes_result (ReadBytes br 32); x \<leftarrow> array_of_slice x;
     let kp = kp\<lparr>kp_auxRand := x\<rparr>;
     (x, br) \<leftarrow> ReadU8 br; let kp = kp\<lparr>kp_caseNum := x\<rparr>;
     if Error br \<noteq> None then Some (kp, Error br)
     else case EllswiftRecreateFromBytes B privkey (kp_auxRand kp) (kp_caseNum kp) of
       Inl err \<Rightarrow> Some (kp\<lparr>kp_Private := None, kp_publicEllswift := zero_array\<rparr>, Some err)
     | Inr (priv, pub) \<Rightarrow> do {
         x \<leftarrow> FillBytes (PubKey_X B (PrivKey_PubKey B priv)) 32;
         Some (kp\<lparr>kp_Private := Some priv, kp_publicEllswift := pub,
           kp_Public := Some (PrivKey_PubKey B priv), kp_publicX := Some x\<rparr>, None) } }"

definition NewKeypair ::
    "('k, 'q, 'j, 'f) Btcec \<Rightarrow> 'r random \<Rightarrow> 'r \<Rightarrow> (('k, 'q) Keypair \<times> 'r) option" where
  "NewKeypair B rnd r = do {
     (res, r) \<leftarrow> EllswiftCreate B rnd r;
     case res of
       Inl _ \<Rightarrow> None
     | Inr (priv, ellswiftPub, auxRand, caseNum) \<Rightarrow> do {
         let pub = PrivKey_PubKey B priv;
         x \<leftarrow> FillBytes (PubKey_X B pub) 32;
         Some (\<lparr>kp_Private = Some priv, kp_Public = Some pub, kp_publicX = Some x,
           kp_publicEllswift = ellswiftPub, kp_auxRand = auxRand, kp_caseNum = caseNum\<rparr>, r) } }"

definition NewKeypairFrom ::
    "('k, 'q, 'j, 'f) Btcec \<Rightarrow> 32 byte_array \<Rightarrow> 32 byte_array \<Rightarrow> u8 \<Rightarrow> (error + ('k, 'q) Keypair) option" where
  "NewKeypairFrom B privKey auxRand caseNum =
     (case EllswiftRecreateFromBytes B privKey auxRand caseNum of
        Inl err \<Rightarrow> Some (Inl err)
      | Inr (priv, ellswiftPub) \<Rightarrow> do {
          x \<leftarrow> FillBytes (PubKey_X B (PrivKey_PubKey B priv)) 32;
          Some (Inr (zero_Keypair\<lparr>kp_Private := Some priv, kp_publicEllswift := ellswiftPub,
            kp_Public := Some (PrivKey_PubKey B priv), kp_publicX := Some x,
            kp_auxRand := auxRand, kp_caseNum := caseNum\<rparr>)) })"

section \<open>The random loop\<close>

text \<open>One round of the loop: the two draws, and the random source after them.\<close>

definition draw_u :: "('k, 'q, 'j, 'f) Btcec \<Rightarrow> 'r random \<Rightarrow> 'r \<Rightarrow> 'f" where
  "draw_u B rnd r = field_of_bytes B (fill (fst (fst (rnd r 32))))"

definition draw_case :: "'r random \<Rightarrow> 'r \<Rightarrow> u8" where
  "draw_case rnd r = hd (fst (fst (rnd (snd (rnd r 32)) 1)) @ [0]) AND 7"

definition draw_next :: "'r random \<Rightarrow> 'r \<Rightarrow> 'r" where
  "draw_next rnd r = snd (rnd (snd (rnd r 32)) 1)"

definition draw_hits :: "('k, 'q, 'j, 'f) Btcec \<Rightarrow> 'r random \<Rightarrow> 'f \<Rightarrow> 'r \<Rightarrow> bool" where
  "draw_hits B rnd x r \<longleftrightarrow> XSwiftECInv B (draw_u B rnd r) x (uint (draw_case rnd r)) \<noteq> None"

lemma XElligatorSwift_round:
  assumes "rand_ok rnd"
  shows "XElligatorSwift B rnd x r =
    (if draw_hits B rnd x r
     then Some (Inr (draw_u B rnd r, the (XSwiftECInv B (draw_u B rnd r) x (uint (draw_case rnd r))),
       fill (fst (fst (rnd r 32))), draw_case rnd r), draw_next rnd r)
     else XElligatorSwift B rnd x (draw_next rnd r))"
proof -
  obtain us r1 where 1: "rnd r 32 = ((us, None), r1)"
    using assms unfolding rand_ok_def by (metis prod.collapse)
  obtain cs r2 where 2: "rnd r1 1 = ((cs, None), r2)"
    using assms unfolding rand_ok_def by (metis prod.collapse)
  show ?thesis
    by (subst XElligatorSwift.simps)
      (simp add: 1 2 draw_u_def draw_case_def draw_next_def draw_hits_def Let_def
        del: One_nat_def)
qed

lemma XElligatorSwift_returns:
  assumes "rand_ok rnd" and "draw_hits B rnd x ((draw_next rnd ^^ i) r)"
  shows "\<exists>u t aux c r'. XElligatorSwift B rnd x r = Some (Inr (u, t, aux, c), r')"
  using assms(2)
proof (induction i arbitrary: r)
  case 0
  then show ?case by (subst XElligatorSwift_round [OF assms(1)]) simp
next
  case (Suc i)
  then have "\<exists>u t aux c r'. XElligatorSwift B rnd x (draw_next rnd r) = Some (Inr (u, t, aux, c), r')"
    by (simp add: funpow_swap1)
  then show ?case by (subst XElligatorSwift_round [OF assms(1)]) auto
qed

text \<open>What the loop returns determines the encoding: the same \<open>t\<close> is found from it again.\<close>

definition encodes ::
    "('k, 'q, 'j, 'f) Btcec \<Rightarrow> 'f \<Rightarrow> (error + 'f \<times> 'f \<times> 32 byte_array \<times> u8) \<times> 'r \<Rightarrow> bool" where
  "encodes B x res \<longleftrightarrow> (\<forall>u t aux c. fst res = Inr (u, t, aux, c) \<longrightarrow>
     u = field_of_bytes B aux \<and> c AND 7 = c \<and> XSwiftECInv B u x (uint c) = Some t)"

lemma XElligatorSwift_encodes:
  fixes B :: "('k, 'q, 'j, 'f) Btcec" and rnd :: "'r random"
  assumes "XElligatorSwift B rnd x r = Some y"
  shows "encodes B x y"
proof (rule XElligatorSwift.raw_induct [where P = "\<lambda>B rnd x r y. encodes B x y" and
      xa = "(((B, rnd), x), r)" and y = y, unfolded prod.case])
  show "XElligatorSwift B rnd x r = Some y" by (rule assms)
next
  fix loop and B :: "('k, 'q, 'j, 'f) Btcec" and rnd :: "'r random" and x r y
  assume loop: "\<And>B rnd x r y. loop B rnd x r = Some y \<Longrightarrow> encodes B x y"
    and body: "Some (rnd r 32) \<bind> (\<lambda>((bs, err), r).
       if err \<noteq> None then Some (Inl (the err), r)
       else let randUBytes = fill bs; u = field_of_bytes B randUBytes
         in Some (rnd r 1) \<bind> (\<lambda>((bs, err), r).
           if err \<noteq> None then Some (Inl (the err), r)
           else let caseNum = hd (bs @ [0]) AND 7; t = XSwiftECInv B u x (uint caseNum)
             in if t \<noteq> None then Some (Inr (u, the t, randUBytes, caseNum), r)
                else loop B rnd x r)) = Some y"
  obtain us e1 r1 where 1: "rnd r 32 = ((us, e1), r1)" by (metis prod.collapse)
  obtain cs e2 r2 where 2: "rnd r1 1 = ((cs, e2), r2)" by (metis prod.collapse)
  show "encodes B x y"
    using body loop [of B rnd x r2 y]
    by (auto simp: 1 2 encodes_def Let_def and.assoc simp del: One_nat_def split: if_splits)
qed

lemma XElligatorSwiftAux_again:
  assumes "XElligatorSwift B rnd x r = Some (Inr (u, t, aux, c), r')"
  shows "XElligatorSwiftAux B x aux c = Inr (u, t)"
  using XElligatorSwift_encodes [OF assms] by (auto simp: encodes_def XElligatorSwiftAux_def Let_def)

section \<open>Storing a key pair\<close>

lemma EllswiftCreate_Inr:
  assumes "EllswiftCreate B rnd r = Some (Inr (k, ell, aux, c), r')"
  obtains u t r1 where "XElligatorSwift B rnd (getXCoord B k) r1 = Some (Inr (u, t, aux, c), r')"
    and "ell = ellswift_pub B u t"
proof -
  obtain bs r1 where "rnd r 32 = ((bs, None), r1)"
    using assms by (cases "rnd r 32") (auto simp: EllswiftCreate_def split: prod.splits option.splits)
  moreover obtain res r2 where "XElligatorSwift B rnd
      (getXCoord B (PrivKeyFromBytes B (array_bytes (fill bs :: 32 byte_array)))) r1 = Some (res, r2)"
    using assms calculation by (auto simp: EllswiftCreate_def Let_def bind_eq_Some_conv)
  ultimately show thesis
    using assms that [of r1] by (cases res) (auto simp: EllswiftCreate_def Let_def)
qed

lemma EllswiftCreate_recreate:
  assumes "EllswiftCreate B rnd r = Some (Inr (k, ell, aux, c), r')"
    and "PrivKeyFromBytes B (array_bytes pk) = k"
  shows "EllswiftRecreateFromBytes B pk aux c = Inr (k, ell)"
proof -
  from EllswiftCreate_Inr [OF assms(1)] obtain u t r1 where
    "XElligatorSwift B rnd (getXCoord B k) r1 = Some (Inr (u, t, aux, c), r')"
    and "ell = ellswift_pub B u t" .
  with assms(2) show ?thesis
    by (simp add: EllswiftRecreateFromBytes_def XElligatorSwiftAux_again)
qed

lemma FillBytes_ok: "x < 256 ^ n \<Longrightarrow> \<exists>bs. FillBytes x n = Some bs \<and> length bs = n"
  by (simp add: FillBytes_def)

text \<open>A key pair whose parts belong together, as the constructors make it.\<close>

definition keypair_ok :: "('k, 'q, 'j, 'f) Btcec \<Rightarrow> ('k, 'q) Keypair \<Rightarrow> bool" where
  "keypair_ok B kp \<longleftrightarrow>
     (\<exists>k. kp_Private kp = Some k \<and>
       NewKeypairFrom B (Array (PrivKey_Serialize B k)) (kp_auxRand kp) (kp_caseNum kp) = Some (Inr kp))"

lemma NewKeypair_ok:
  assumes "btcec_ok B" and "NewKeypair B rnd r = Some (kp, r')"
  shows "keypair_ok B kp"
proof -
  from assms(2) obtain res r1 where "EllswiftCreate B rnd r = Some (res, r1)"
    by (auto simp: NewKeypair_def bind_eq_Some_conv)
  with assms(2) obtain k ell aux c x where
    cr: "EllswiftCreate B rnd r = Some (Inr (k, ell, aux, c), r')"
    and x: "FillBytes (PubKey_X B (PrivKey_PubKey B k)) 32 = Some x"
    and kp: "kp = \<lparr>kp_Private = Some k, kp_Public = Some (PrivKey_PubKey B k), kp_publicX = Some x,
        kp_publicEllswift = ell, kp_auxRand = aux, kp_caseNum = c\<rparr>"
    by (cases res) (auto simp: NewKeypair_def Let_def bind_eq_Some_conv)
  have "EllswiftRecreateFromBytes B (Array (PrivKey_Serialize B k)) aux c = Inr (k, ell)"
    using assms(1) by (intro EllswiftCreate_recreate [OF cr]) (simp add: btcec_ok_def)
  then show ?thesis by (simp add: keypair_ok_def kp NewKeypairFrom_def x zero_Keypair_def)
qed

lemma ReadBytes_array:
  "bytes_result (ReadBytes (cursor pre (array_bytes (a :: 32 byte_array) @ s)) 32) =
     Some (array_bytes a, cursor (pre @ array_bytes a) s)"
  using read_cursor [of 32 "array_bytes a @ s" pre]
  by (simp add: ReadBytes_def slice_bytes_def)

lemma Keypair_roundtrip:
  assumes "btcec_ok B" and "keypair_ok B kp"
  shows "\<exists>b. Keypair_Encode B kp = Some (b, None) \<and> length b = 65 \<and>
    Keypair_Decode B kp0 (Some (b @ s)) = Some (kp, None)"
proof -
  from assms(2) obtain k where k: "kp_Private kp = Some k"
    and new: "NewKeypairFrom B (Array (PrivKey_Serialize B k)) (kp_auxRand kp) (kp_caseNum kp) =
      Some (Inr kp)" by (auto simp: keypair_ok_def)
  let ?pk = "Array (PrivKey_Serialize B k) :: 32 byte_array"
  have pk: "array_bytes ?pk = PrivKey_Serialize B k" using assms(1) by (simp add: btcec_ok_def)
  let ?b = "array_bytes ?pk @ array_bytes (kp_auxRand kp) @ [kp_caseNum kp]"
  have "Keypair_Encode B kp = Some (?b, None)"
    by (simp add: Keypair_Encode_def k pk Bytes_view go_view fld_defs enc_u8_def)
  moreover have "Keypair_Decode B kp0 (Some (?b @ s)) = Some (kp, None)"
    using new
    by (cases kp0) (auto simp: Keypair_Decode_def NewBinaryReader_cursor ReadBytes_array ReadU8_cursor Let_def
        NewKeypairFrom_def zero_Keypair_def bind_eq_Some_conv split: sum.split_asm)
  moreover have "length ?b = 65" by simp
  ultimately show ?thesis by blast
qed

end
