(* ===== verification/Certificates.thy ===== *)
theory Certificates
  imports Codec
begin

text \<open>
  The server certificate of the handshake (\<open>SIGNATURE_NOISE_MESSAGE\<close> of
  \<open>src/noise.go\<close>): its encoding, its signing and verification, and the text form of
  the authority's key. Signatures and base58 are packages outside the
  repository and parameters here, and so is the hash \<open>H\<close>, the \<open>Sum256\<close> of the package
  that \<open>noise.go\<close> imports; \<open>now\<close> is what \<open>time.Now().Unix()\<close> gives.
\<close>

section \<open>The message\<close>

record SIGNATURE_NOISE_MESSAGE =
  snm_Version :: u16
  snm_ValidFrom :: u32
  snm_NotValidAfter :: u32
  snm_Signature :: Signature

definition zero_cert :: SIGNATURE_NOISE_MESSAGE where
  "zero_cert = \<lparr>snm_Version = 0, snm_ValidFrom = 0, snm_NotValidAfter = 0, snm_Signature = zero_array\<rparr>"

definition SIGNATURE_NOISE_MESSAGE_Encode :: "SIGNATURE_NOISE_MESSAGE \<Rightarrow> byte list \<times> error option" where
  "SIGNATURE_NOISE_MESSAGE_Encode m =
     (let out = Grow NewBinaryBuilder 74;
          out = AddU16 out (snm_Version m);
          out = AddU32 out (snm_ValidFrom m);
          out = AddU32 out (snm_NotValidAfter m);
          out = AddSignature out (snm_Signature m)
      in Bytes out)"

definition EncodeNoSig :: "SIGNATURE_NOISE_MESSAGE \<Rightarrow> byte list \<times> error option" where
  "EncodeNoSig m =
     (let out = Grow NewBinaryBuilder 10;
          out = AddU16 out (snm_Version m);
          out = AddU32 out (snm_ValidFrom m);
          out = AddU32 out (snm_NotValidAfter m)
      in Bytes out)"

definition SIGNATURE_NOISE_MESSAGE_Decode ::
    "SIGNATURE_NOISE_MESSAGE \<Rightarrow> slice \<Rightarrow> (SIGNATURE_NOISE_MESSAGE \<times> error option) option" where
  "SIGNATURE_NOISE_MESSAGE_Decode m data =
     (if slice_len data \<noteq> 74 then Some (m, Some Cert_invalid_length)
      else do {
        let r = NewBinaryReader data;
        (x, r) \<leftarrow> ReadU16 r; let m = m\<lparr>snm_Version := x\<rparr>;
        (x, r) \<leftarrow> ReadU32 r; let m = m\<lparr>snm_ValidFrom := x\<rparr>;
        (x, r) \<leftarrow> ReadU32 r; let m = m\<lparr>snm_NotValidAfter := x\<rparr>;
        (x, r) \<leftarrow> ReadSignature r; let m = m\<lparr>snm_Signature := x\<rparr>;
        Some (m, Error r) })"

section \<open>Signing and verifying\<close>

record ('k, 's, 'p) Schnorr =
  ParseSignature :: "byte list \<Rightarrow> error + 's"
  ParsePubKey :: "byte list \<Rightarrow> error + 'p"
  Sig_Verify :: "'s \<Rightarrow> byte list \<Rightarrow> 'p \<Rightarrow> bool"
  Schnorr_Sign :: "'k \<Rightarrow> byte list \<Rightarrow> error + 's"
  Sig_Serialize :: "'s \<Rightarrow> byte list"

text \<open>
  \<open>pk\<close> is the public key of the private key \<open>k\<close>: it parses, and a signature of \<open>k\<close>
  on a hash of 32 bytes is serialised to 64 bytes that parse to it and verifies under \<open>pk\<close>.
  Nothing is said of hashes of another length, which the package refuses.
\<close>

definition schnorr_pair :: "('k, 's, 'p) Schnorr \<Rightarrow> 'k \<Rightarrow> Pubkey \<Rightarrow> bool" where
  "schnorr_pair S k pk \<longleftrightarrow>
     (\<exists>p. ParsePubKey S (array_bytes pk) = Inr p \<and>
       (\<forall>h. length h = 32 \<longrightarrow> (\<exists>s. Schnorr_Sign S k h = Inr s \<and>
          length (Sig_Serialize S s) = 64 \<and> ParseSignature S (Sig_Serialize S s) = Inr s \<and>
          Sig_Verify S s h p)))"

definition CertificateFormatVersion :: u16 where
  "CertificateFormatVersion = 0"

definition VerifyServerCertificate ::
    "(byte list \<Rightarrow> 32 byte_array) \<Rightarrow> ('k, 's, 'p) Schnorr \<Rightarrow> int \<Rightarrow>
       SIGNATURE_NOISE_MESSAGE option \<Rightarrow> Pubkey \<Rightarrow> Pubkey \<Rightarrow> (bool \<times> error option) option" where
  "VerifyServerCertificate H S now cert authorityPubkey staticPubkey = do {
     cert \<leftarrow> cert;
     if snm_Version cert \<noteq> CertificateFormatVersion then Some (False, Some Cert_unsupported_version)
     else if snm_ValidFrom cert > word_of_int now then Some (False, Some Cert_not_yet_valid)
     else if snm_NotValidAfter cert < word_of_int now then Some (False, Some Cert_expired)
     else case EncodeNoSig cert of
       (_, Some err) \<Rightarrow> Some (False, Some err)
     | (buf, None) \<Rightarrow>
       (case ParseSignature S (array_bytes (snm_Signature cert)) of
          Inl err \<Rightarrow> Some (False, Some err)
        | Inr sig \<Rightarrow>
          (case ParsePubKey S (array_bytes authorityPubkey) of
             Inl err \<Rightarrow> Some (False, Some err)
           | Inr pub \<Rightarrow>
               let buf = buf @ array_bytes staticPubkey;
                   hash = H buf
               in Some (Sig_Verify S sig (array_bytes hash) pub, None))) }"

definition NewSignedCertificate ::
    "(byte list \<Rightarrow> 32 byte_array) \<Rightarrow> ('k, 's, 'p) Schnorr \<Rightarrow> 'k \<Rightarrow> Pubkey \<Rightarrow> u32 \<Rightarrow> u32 \<Rightarrow>
       (error + SIGNATURE_NOISE_MESSAGE) option" where
  "NewSignedCertificate H S authorityPrivkey staticPubkey validFrom notValidAfter =
     (let m = \<lparr>snm_Version = CertificateFormatVersion, snm_ValidFrom = validFrom,
            snm_NotValidAfter = notValidAfter, snm_Signature = zero_array\<rparr>
      in case EncodeNoSig m of
           (_, Some err) \<Rightarrow> Some (Inl err)
         | (buf, None) \<Rightarrow>
             let buf = buf @ array_bytes staticPubkey;
                 hash = H buf
             in case Schnorr_Sign S authorityPrivkey (array_bytes hash) of
                  Inl err \<Rightarrow> Some (Inl err)
                | Inr sig \<Rightarrow> do {
                    sg \<leftarrow> array_of_slice (Sig_Serialize S sig);
                    Some (Inr (m\<lparr>snm_Signature := sg\<rparr>)) })"

section \<open>Authority keys\<close>

definition SerializeAuthorityKey :: "(byte list \<Rightarrow> u8 \<Rightarrow> string) \<Rightarrow> Pubkey \<Rightarrow> string" where
  "SerializeAuthorityKey CheckEncode pubkey = CheckEncode ([0] @ array_bytes pubkey) 1"

definition DeserializeAuthorityKey ::
    "(string \<Rightarrow> error + byte list \<times> u8) \<Rightarrow> string \<Rightarrow> (error + byte list) option" where
  "DeserializeAuthorityKey CheckDecode authorityKey =
     (case CheckDecode authorityKey of
        Inl err \<Rightarrow> Some (Inl err)
      | Inr (decoded, version) \<Rightarrow>
          if version \<noteq> 1 then Some (Inl Authority_key_version)
          else do {
            d \<leftarrow> index decoded 0;
            if d \<noteq> 0 then Some (Inl Authority_key_version)
            else Some (Inr (drop 1 decoded)) })"

section \<open>The certificate on the wire\<close>

lemma EncodeNoSig_bytes:
  "EncodeNoSig m = (le16 (snm_Version m) @ le32 (snm_ValidFrom m) @ le32 (snm_NotValidAfter m), None)"
  by (simp add: EncodeNoSig_def Let_def Bytes_view go_view fld_defs)

lemma cert_Encode_bytes:
  "SIGNATURE_NOISE_MESSAGE_Encode m =
     (le16 (snm_Version m) @ le32 (snm_ValidFrom m) @ le32 (snm_NotValidAfter m) @
       array_bytes (snm_Signature m), None)"
  by (simp add: SIGNATURE_NOISE_MESSAGE_Encode_def Let_def Bytes_view go_view fld_defs)

lemma cert_Decode_back:
  assumes "SIGNATURE_NOISE_MESSAGE_Encode m = (b, None)"
  shows "length b = 74 \<and> SIGNATURE_NOISE_MESSAGE_Decode m0 (Some b) = Some (m, None)"
proof -
  have b: "b = le16 (snm_Version m) @ le32 (snm_ValidFrom m) @ le32 (snm_NotValidAfter m) @
      array_bytes (snm_Signature m)" using assms by (simp add: cert_Encode_bytes)
  have len: "length b = 74" by (simp add: b)
  then have "SIGNATURE_NOISE_MESSAGE_Decode m0 (Some b) = Some (m, None)"
    using ReadSignature_cursor [of "array_bytes (snm_Signature m)"]
    by (simp add: SIGNATURE_NOISE_MESSAGE_Decode_def slice_len_def Let_def NewBinaryReader_cursor
        ReadU16_cursor ReadU32_cursor ReadSignature_cursor b)
  with len show ?thesis by simp
qed

lemma cert_Decode_total:
  "\<exists>m' e. SIGNATURE_NOISE_MESSAGE_Decode m (Some b) = Some (m', e) \<and>
     (e = None \<longleftrightarrow> length b = 74)"
proof (cases "length b = 74")
  case True
  then show ?thesis
    by (simp add: SIGNATURE_NOISE_MESSAGE_Decode_def slice_len_def Let_def NewBinaryReader_cursor
        ReadU16_cursor ReadU32_cursor ReadSignature_cursor)
qed (simp add: SIGNATURE_NOISE_MESSAGE_Decode_def slice_len_def)

section \<open>A signed certificate verifies\<close>

lemma VerifyServerCertificate_outcome:
  "VerifyServerCertificate H S now (Some cert) apk spk = Some (True, None) \<longleftrightarrow>
     snm_Version cert = 0 \<and>
     snm_ValidFrom cert \<le> word_of_int now \<and> word_of_int now \<le> snm_NotValidAfter cert \<and>
     (\<exists>sig pub. ParseSignature S (array_bytes (snm_Signature cert)) = Inr sig \<and>
        ParsePubKey S (array_bytes apk) = Inr pub \<and>
        Sig_Verify S sig (array_bytes (H (fst (EncodeNoSig cert) @ array_bytes spk))) pub)"
  by (auto simp: VerifyServerCertificate_def EncodeNoSig_bytes CertificateFormatVersion_def
      Let_def not_less split: sum.splits)

lemma NewSignedCertificate_ok:
  assumes "schnorr_pair S k apk"
  shows "\<exists>m. NewSignedCertificate H S k spk vf nva = Some (Inr m) \<and>
    snm_Version m = 0 \<and> snm_ValidFrom m = vf \<and> snm_NotValidAfter m = nva \<and>
    (\<exists>sig pub. ParseSignature S (array_bytes (snm_Signature m)) = Inr sig \<and>
       ParsePubKey S (array_bytes apk) = Inr pub \<and>
       Sig_Verify S sig (array_bytes (H (fst (EncodeNoSig m) @ array_bytes spk))) pub)"
proof -
  let ?h = "array_bytes (H ((le16 0 @ le32 vf @ le32 nva) @ array_bytes spk))"
  have "length ?h = 32" by simp
  with assms obtain p s where p: "ParsePubKey S (array_bytes apk) = Inr p"
    and s: "Schnorr_Sign S k ?h = Inr s" "length (Sig_Serialize S s) = 64"
      "ParseSignature S (Sig_Serialize S s) = Inr s" "Sig_Verify S s ?h p"
    unfolding schnorr_pair_def by blast
  have sig: "array_of_slice (Sig_Serialize S s) = Some (Array (Sig_Serialize S s) :: Signature)"
    using s(2) by (simp add: array_of_slice_Some)
  have "array_bytes (Array (Sig_Serialize S s) :: Signature) = Sig_Serialize S s"
    using s(2) by simp
  with p s sig show ?thesis
    by (simp add: NewSignedCertificate_def EncodeNoSig_bytes CertificateFormatVersion_def)
qed

text \<open>Exactly within its validity period, both ends included.\<close>

lemma signed_certificate_outcome:
  assumes "schnorr_pair S k apk" and "0 \<le> now" and "now < 2 ^ 32"
  shows "\<exists>m. NewSignedCertificate H S k spk vf nva = Some (Inr m) \<and>
    VerifyServerCertificate H S now (Some m) apk spk =
      (if now < uint vf then Some (False, Some Cert_not_yet_valid)
       else if uint nva < now then Some (False, Some Cert_expired)
       else Some (True, None))"
proof -
  obtain m where new: "NewSignedCertificate H S k spk vf nva = Some (Inr m)"
    and m: "snm_Version m = 0" "snm_ValidFrom m = vf" "snm_NotValidAfter m = nva"
    and sig: "\<exists>sig pub. ParseSignature S (array_bytes (snm_Signature m)) = Inr sig \<and>
       ParsePubKey S (array_bytes apk) = Inr pub \<and>
       Sig_Verify S sig (array_bytes (H (fst (EncodeNoSig m) @ array_bytes spk))) pub"
    using NewSignedCertificate_ok [OF assms(1), of H spk vf nva] by blast
  have now: "uint (word_of_int now :: u32) = now"
    using assms(2,3) by (simp add: uint_word_of_int)
  then have "VerifyServerCertificate H S now (Some m) apk spk =
      (if now < uint vf then Some (False, Some Cert_not_yet_valid)
       else if uint nva < now then Some (False, Some Cert_expired)
       else Some (True, None))"
    using VerifyServerCertificate_outcome [of H S now m apk spk] sig m
    by (auto simp: VerifyServerCertificate_def CertificateFormatVersion_def word_less_def word_le_def)
  with new show ?thesis by blast
qed

lemma NewSignedCertificate_fields:
  assumes "NewSignedCertificate H S k spk vf nva = Some (Inr m)"
  shows "snm_Version m = 0" "snm_ValidFrom m = vf" "snm_NotValidAfter m = nva"
proof -
  let ?m = "\<lparr>snm_Version = CertificateFormatVersion, snm_ValidFrom = vf, snm_NotValidAfter = nva,
    snm_Signature = zero_array\<rparr>"
  obtain sg where "m = ?m\<lparr>snm_Signature := sg\<rparr>"
    using assms by (auto simp: NewSignedCertificate_def EncodeNoSig_bytes Let_def bind_eq_Some_conv
        split: sum.splits)
  then show "snm_Version m = 0" "snm_ValidFrom m = vf" "snm_NotValidAfter m = nva"
    by (simp_all add: CertificateFormatVersion_def)
qed

end
