(* ===== verification/Handshake.thy ===== *)
theory Handshake
  imports Noise_Cipher Ellswift Certificates
begin

text \<open>
  The NX handshake of \<open>src/noise.go\<close>: key derivation, \<open>HandshakeState\<close> and the two
  sides \<open>PerformHandshakeInitiator\<close> and \<open>PerformHandshakeResponder\<close>, each as one
  function over its connection. The ElligatorSwift key exchange and SHA-256 are packages
  outside the repository: \<open>Noise_Lib\<close> adds them to the AEAD as parameters. Of the hash the
  code relies on one thing, the 32 bytes of its result, which its type says; \<open>New\<close>, \<open>Write\<close>
  and \<open>Sum\<close> hash what was written, as \<open>Sum256\<close> does. HMAC is of the standard library and
  written out over that hash.
\<close>

section \<open>Key derivation\<close>

record ('g, 'k) Noise_Lib = "'g AEAD" +
  V2Ecdh :: "'k \<Rightarrow> EllswiftPubkey \<Rightarrow> EllswiftPubkey \<Rightarrow> bool \<Rightarrow> error + 32 byte_array"
  Sum256 :: "byte list \<Rightarrow> 32 byte_array"

definition HmacHash :: "('g, 'k) Noise_Lib \<Rightarrow> byte list \<Rightarrow> byte list \<Rightarrow> byte list" where
  "HmacHash N key data =
     (let key = (if 64 < length key then array_bytes (Sum256 N key) else key);
          key = key @ replicate (64 - length key) 0;
          inner = Sum256 N (map (\<lambda>b. b XOR 0x36) key @ data)
      in array_bytes (Sum256 N (map (\<lambda>b. b XOR 0x5c) key @ array_bytes inner)))"

definition HKDF :: "('g, 'k) Noise_Lib \<Rightarrow> byte list \<Rightarrow> byte list \<Rightarrow> byte list \<times> byte list" where
  "HKDF N chainingKey inputKeyMaterial =
     (let temp = HmacHash N chainingKey inputKeyMaterial;
          out1 = HmacHash N temp [1];
          out2 = HmacHash N temp (out1 @ [2])
      in (out1, out2))"

text \<open>\<open>hash.Sum(b)\<close> appends to \<open>b\<close> the digest of what was written, here of nothing.\<close>

definition TaggedHash :: "('g, 'k) Noise_Lib \<Rightarrow> byte list \<Rightarrow> byte list \<Rightarrow> byte list \<Rightarrow> byte list" where
  "TaggedHash N a b c =
     (let tag = string_bytes ''bip324_ellswift_xonly_ecdh'' @ array_bytes (Sum256 N [])
      in array_bytes (Sum256 N (tag @ tag @ a @ b @ c)))"

definition ProtocolName :: string where
  "ProtocolName = ''Noise_NX_Secp256k1+EllSwift_ChaChaPoly_SHA256''"

definition handshakeInit :: "('g, 'k) Noise_Lib \<Rightarrow> byte list \<times> byte list" where
  "handshakeInit N =
     (let digest = array_bytes (Sum256 N (string_bytes ProtocolName));
          hashOutput = array_bytes (Sum256 N digest)
      in (digest, hashOutput))"

section \<open>HandshakeState\<close>

record 'g HandshakeState =
  hs_cs :: "'g CipherState option"
  hs_h :: "32 byte_array"
  hs_ck :: "32 byte_array"
  hs_cert :: "SIGNATURE_NOISE_MESSAGE option"
  hs_serverStatic :: EllswiftPubkey

definition mixHash :: "('g, 'k) Noise_Lib \<Rightarrow> 'g HandshakeState \<Rightarrow> byte list \<Rightarrow> 'g HandshakeState" where
  "mixHash N hs data = hs\<lparr>hs_h := Sum256 N (array_bytes (hs_h hs) @ data)\<rparr>"

definition mixKey ::
    "('g, 'k) Noise_Lib \<Rightarrow> 'g HandshakeState \<Rightarrow> byte list \<Rightarrow> 'g HandshakeState option" where
  "mixKey N hs inputKeyMaterial = do {
     let (ck, temp) = HKDF N (array_bytes (hs_ck hs)) inputKeyMaterial;
     ck \<leftarrow> array_of_slice ck;
     let hs = hs\<lparr>hs_ck := ck\<rparr>;
     cs \<leftarrow> hs_cs hs;
     temp \<leftarrow> array_of_slice temp;
     let (cs, _) = InitializeKey N cs temp;
     Some (hs\<lparr>hs_cs := Some cs\<rparr>) }"

definition encryptAndHash ::
    "('g, 'k) Noise_Lib \<Rightarrow> 'g HandshakeState \<Rightarrow> byte list \<Rightarrow> (byte list \<times> 'g HandshakeState) option" where
  "encryptAndHash N hs plaintext = do {
     cs \<leftarrow> hs_cs hs;
     (ciphertext, hs) \<leftarrow>
       (if slice_len (cs_k cs) \<noteq> 0 then do {
          (res, cs) \<leftarrow> EncryptWithAd N cs (array_bytes (hs_h hs)) plaintext;
          Some (case res of Inl _ \<Rightarrow> [] | Inr c \<Rightarrow> c, hs\<lparr>hs_cs := Some cs\<rparr>) }
        else Some (plaintext, hs));
     Some (ciphertext, mixHash N hs ciphertext) }"

definition decryptAndHash ::
    "('g, 'k) Noise_Lib \<Rightarrow> 'g HandshakeState \<Rightarrow> byte list \<Rightarrow>
       ((error + byte list) \<times> 'g HandshakeState) option" where
  "decryptAndHash N hs ciphertext = do {
     cs \<leftarrow> hs_cs hs;
     (plaintext, hs) \<leftarrow>
       (if slice_len (cs_k cs) \<noteq> 0 then do {
          (res, cs) \<leftarrow> DecryptWithAd N cs (array_bytes (hs_h hs)) ciphertext;
          Some (res, hs\<lparr>hs_cs := Some cs\<rparr>) }
        else Some (Inr ciphertext, hs));
     case plaintext of
       Inl err \<Rightarrow> Some (Inl err, hs)
     | Inr plaintext \<Rightarrow> Some (Inr plaintext, mixHash N hs ciphertext) }"

definition ecdh ::
    "('g, 'k) Noise_Lib \<Rightarrow> ('k, 'q) Keypair \<Rightarrow> EllswiftPubkey \<Rightarrow> bool \<Rightarrow> byte list option" where
  "ecdh N k remoteKey initiator = do {
     priv \<leftarrow> kp_Private k;
     case V2Ecdh N priv remoteKey (SerializeEllswift k) initiator of
       Inl err \<Rightarrow> None
     | Inr hash \<Rightarrow> Some (array_bytes hash) }"

text \<open>The head that both sides share: a fresh cipher state and the initial keys.\<close>

definition start_handshake :: "('g, 'k) Noise_Lib \<Rightarrow> 'g HandshakeState \<Rightarrow> 'g HandshakeState option" where
  "start_handshake N hs = do {
     let (ck, h) = handshakeInit N;
     ck \<leftarrow> array_of_slice ck;
     h \<leftarrow> array_of_slice h;
     Some (hs\<lparr>hs_cs := Some zero_CipherState, hs_ck := ck, hs_h := h\<rparr>) }"

text \<open>
  The two sides. A \<open>Read\<close> and a \<open>Write\<close> of the connection are parameters, the
  results of \<open>Write\<close> are ignored as in the source. The random source \<open>rnd\<close> with its
  state \<open>\<rho>\<close> serves \<open>NewKeypair\<close>.
\<close>

definition PerformHandshakeInitiator ::
    "('r \<Rightarrow> int \<Rightarrow> ((byte list \<times> error option) \<times> 'r) option) \<Rightarrow>
     ('r \<Rightarrow> byte list \<Rightarrow> (nat \<times> error option) \<times> 'r) \<Rightarrow>
     ('g, 'k) Noise_Lib \<Rightarrow> ('k, 'q, 'j, 'f) Btcec \<Rightarrow> 'u random \<Rightarrow> 'g HandshakeState \<Rightarrow> 'r \<Rightarrow> 'u \<Rightarrow>
     ((error + 'g CipherState \<times> 'g CipherState) \<times> 'g HandshakeState \<times> 'r) option" where
  "PerformHandshakeInitiator rd wr N B rnd hs rw \<rho> = do {
     hs \<leftarrow> start_handshake N hs;
     (ephemeral, _) \<leftarrow> NewKeypair B rnd \<rho>;
     let out = SerializeEllswiftBytes ephemeral;
     let hs = mixHash N hs (SerializeEllswiftBytes ephemeral);
     (_, hs) \<leftarrow> encryptAndHash N hs [];
     let (_, rw) = wr rw out;
     ((pt2, err), rw) \<leftarrow> ReadFull rd rw 234;
     case err of
       Some err \<Rightarrow> Some (Inl err, hs, rw)
     | None \<Rightarrow> do {
         let remoteEphemeral = take 64 pt2;
         let encryptedStatic = take 80 (drop 64 pt2);
         let encryptedCert = drop 144 pt2;
         let hs = mixHash N hs remoteEphemeral;
         re \<leftarrow> array_of_slice remoteEphemeral;
         sharedeeDH \<leftarrow> ecdh N ephemeral re True;
         hs \<leftarrow> mixKey N hs sharedeeDH;
         (plainStatic, hs) \<leftarrow> decryptAndHash N hs encryptedStatic;
         case plainStatic of
           Inl err \<Rightarrow> Some (Inl err, hs, rw)
         | Inr plainStatic \<Rightarrow> do {
             rs \<leftarrow> array_of_slice plainStatic;
             let hs = hs\<lparr>hs_serverStatic := rs\<rparr>;
             sharedesDH \<leftarrow> ecdh N ephemeral rs True;
             hs \<leftarrow> mixKey N hs sharedesDH;
             (plainCert, hs) \<leftarrow> decryptAndHash N hs encryptedCert;
             case plainCert of
               Inl err \<Rightarrow> Some (Inl err, hs, rw)
             | Inr plainCert \<Rightarrow> do {
                 (cert, err) \<leftarrow> SIGNATURE_NOISE_MESSAGE_Decode zero_cert (Some plainCert);
                 case err of
                   Some err \<Rightarrow> Some (Inl err, hs, rw)
                 | None \<Rightarrow> do {
                     let hs = hs\<lparr>hs_cert := Some cert\<rparr>;
                     let (temp_k1, temp_k2) = HKDF N (array_bytes (hs_ck hs)) [];
                     k1 \<leftarrow> array_of_slice temp_k1;
                     k2 \<leftarrow> array_of_slice temp_k2;
                     let (send, _) = InitializeKey N zero_CipherState k1;
                     let (recv, _) = InitializeKey N zero_CipherState k2;
                     Some (Inr (send, recv), hs, rw) } } } } }"

text \<open>The responder from its first read on; where it waits there, the state can change under it.\<close>

definition responder_rest ::
    "('r \<Rightarrow> int \<Rightarrow> ((byte list \<times> error option) \<times> 'r) option) \<Rightarrow>
     ('r \<Rightarrow> byte list \<Rightarrow> (nat \<times> error option) \<times> 'r) \<Rightarrow>
     ('g, 'k) Noise_Lib \<Rightarrow> ('k, 'q, 'j, 'f) Btcec \<Rightarrow> 'u random \<Rightarrow> 'g HandshakeState \<Rightarrow> 'r \<Rightarrow>
     SIGNATURE_NOISE_MESSAGE \<Rightarrow> ('k, 'q) Keypair \<Rightarrow> 'u \<Rightarrow>
     ((error + 'g CipherState \<times> 'g CipherState) \<times> 'g HandshakeState \<times> 'r) option" where
  "responder_rest rd wr N B rnd hs rw signedCert staticKeys \<rho> = do {
     ((remoteEphemeral, err), rw) \<leftarrow> ReadFull rd rw 64;
     case err of
       Some err \<Rightarrow> Some (Inl err, hs, rw)
     | None \<Rightarrow> do {
         let hs = mixHash N hs remoteEphemeral;
         (res, hs) \<leftarrow> decryptAndHash N hs [];
         case res of
           Inl err \<Rightarrow> Some (Inl err, hs, rw)
         | Inr _ \<Rightarrow> do {
             (ephemeral, _) \<leftarrow> NewKeypair B rnd \<rho>;
             let out = SerializeEllswiftBytes ephemeral;
             let hs = mixHash N hs (SerializeEllswiftBytes ephemeral);
             re \<leftarrow> array_of_slice remoteEphemeral;
             sharedeeDH \<leftarrow> ecdh N ephemeral re False;
             hs \<leftarrow> mixKey N hs sharedeeDH;
             (c, hs) \<leftarrow> encryptAndHash N hs (SerializeEllswiftBytes staticKeys);
             let out = out @ c;
             sharedesDH \<leftarrow> ecdh N staticKeys re False;
             hs \<leftarrow> mixKey N hs sharedesDH;
             let (certBytes, err) = SIGNATURE_NOISE_MESSAGE_Encode signedCert;
             case err of
               Some err \<Rightarrow> Some (Inl err, hs, rw)
             | None \<Rightarrow> do {
                 (c, hs) \<leftarrow> encryptAndHash N hs certBytes;
                 let out = out @ c;
                 let (_, rw) = wr rw out;
                 let (temp_k1, temp_k2) = HKDF N (array_bytes (hs_ck hs)) [];
                 k1 \<leftarrow> array_of_slice temp_k1;
                 k2 \<leftarrow> array_of_slice temp_k2;
                 let (recv, _) = InitializeKey N zero_CipherState k1;
                 let (send, _) = InitializeKey N zero_CipherState k2;
                 Some (Inr (recv, send), hs, rw) } } } }"

definition PerformHandshakeResponder ::
    "('r \<Rightarrow> int \<Rightarrow> ((byte list \<times> error option) \<times> 'r) option) \<Rightarrow>
     ('r \<Rightarrow> byte list \<Rightarrow> (nat \<times> error option) \<times> 'r) \<Rightarrow>
     ('g, 'k) Noise_Lib \<Rightarrow> ('k, 'q, 'j, 'f) Btcec \<Rightarrow> 'u random \<Rightarrow> 'g HandshakeState \<Rightarrow> 'r \<Rightarrow>
     SIGNATURE_NOISE_MESSAGE \<Rightarrow> ('k, 'q) Keypair \<Rightarrow> 'u \<Rightarrow>
     ((error + 'g CipherState \<times> 'g CipherState) \<times> 'g HandshakeState \<times> 'r) option" where
  "PerformHandshakeResponder rd wr N B rnd hs rw signedCert staticKeys \<rho> = do {
     hs \<leftarrow> start_handshake N hs;
     responder_rest rd wr N B rnd hs rw signedCert staticKeys \<rho> }"

text \<open>
  The check of the certificate that the initiator keeps: the X coordinate of the server's
  static key comes from its ElligatorSwift form.
\<close>

definition HandshakeState_VerifyServerCertificate ::
    "(byte list \<Rightarrow> 32 byte_array) \<Rightarrow> ('f \<Rightarrow> 'f \<Rightarrow> error + 'f) \<Rightarrow> ('k, 'q, 'j, 'f) Btcec \<Rightarrow> ('k, 's, 'p) Schnorr \<Rightarrow>
       int \<Rightarrow> 'g HandshakeState \<Rightarrow> Pubkey \<Rightarrow> (bool \<times> error option) option" where
  "HandshakeState_VerifyServerCertificate H XSwiftEC B S now hs authorityPubkey =
     (let u = FieldVal_SetByteSlice B (take 32 (array_bytes (hs_serverStatic hs)));
          t = FieldVal_SetByteSlice B (drop 32 (array_bytes (hs_serverStatic hs)))
      in case XSwiftEC u t of
           Inl err \<Rightarrow> Some (False, Some err)
         | Inr x \<Rightarrow> VerifyServerCertificate H S now (hs_cert hs) authorityPubkey
             (FieldVal_Bytes B (FieldVal_Normalize B x)))"

section \<open>The steps on a handshake state\<close>

lemma length_HmacHash [simp]: "length (HmacHash N k d) = 32"
  by (simp add: HmacHash_def Let_def)

text \<open>The keys that \<open>HKDF\<close> gives, as arrays.\<close>

definition hkdf1 :: "('g, 'k) Noise_Lib \<Rightarrow> 32 byte_array \<Rightarrow> byte list \<Rightarrow> 32 byte_array" where
  "hkdf1 N ck ikm = Array (fst (HKDF N (array_bytes ck) ikm))"

definition hkdf2 :: "('g, 'k) Noise_Lib \<Rightarrow> 32 byte_array \<Rightarrow> byte list \<Rightarrow> 32 byte_array" where
  "hkdf2 N ck ikm = Array (snd (HKDF N (array_bytes ck) ikm))"

lemma HKDF_arrays:
  "HKDF N (array_bytes ck) ikm = (array_bytes (hkdf1 N ck ikm), array_bytes (hkdf2 N ck ikm))"
  by (simp add: hkdf1_def hkdf2_def HKDF_def Let_def)

text \<open>A cipher state right after \<open>InitializeKey\<close>.\<close>

definition fresh_cipher :: "('g, 'k) Noise_Lib \<Rightarrow> 32 byte_array \<Rightarrow> 'g CipherState" where
  "fresh_cipher N k = fst (InitializeKey N zero_CipherState k)"

lemma InitializeKey_fresh: "fst (InitializeKey N cs k) = fresh_cipher N k"
  by (cases cs) (simp add: fresh_cipher_def InitializeKey_def Let_def split: sum.splits)

lemma fresh_keyed:
  assumes "aead_ok N"
  shows "\<exists>g. aead_New N (array_bytes k) = Inr g \<and> keyed (fresh_cipher N k) g"
    and "cs_n (fresh_cipher N k) = 0"
proof -
  obtain g where "aead_New N (array_bytes k) = Inr g"
    "InitializeKey N zero_CipherState k = (\<lparr>cs_k = Some (array_bytes k), cs_n = 0, cs_gcm = Some g\<rparr>, None)"
    using InitializeKey_ok [OF assms, of k zero_CipherState] by blast
  then show "\<exists>g. aead_New N (array_bytes k) = Inr g \<and> keyed (fresh_cipher N k) g"
    and "cs_n (fresh_cipher N k) = 0"
    using keyed_Initialized [of k 0 g] by (auto simp: fresh_cipher_def)
qed

lemma start_handshake_eq:
  "start_handshake N hs = Some (hs\<lparr>hs_cs := Some zero_CipherState,
     hs_ck := Sum256 N (string_bytes ProtocolName),
     hs_h := Sum256 N (array_bytes (Sum256 N (string_bytes ProtocolName)))\<rparr>)"
  by (simp add: start_handshake_def handshakeInit_def Let_def)

lemma mixKey_eq:
  "hs_cs hs \<noteq> None \<Longrightarrow> mixKey N hs ikm =
     Some (hs\<lparr>hs_ck := hkdf1 N (hs_ck hs) ikm, hs_cs := Some (fresh_cipher N (hkdf2 N (hs_ck hs) ikm))\<rparr>)"
  using InitializeKey_fresh [of N]
  by (auto simp: mixKey_def HKDF_arrays split: prod.splits) (metis fst_conv)

lemma EncryptHash_unkeyed:
  "hs_cs hs = Some zero_CipherState \<Longrightarrow> encryptAndHash N hs p = Some (p, mixHash N hs p)"
  "hs_cs hs = Some zero_CipherState \<Longrightarrow> decryptAndHash N hs p = Some (Inr p, mixHash N hs p)"
  by (simp_all add: encryptAndHash_def decryptAndHash_def zero_CipherState_def slice_len_def)

text \<open>What one side encrypts under a fresh key, the other side decrypts, and both mix it in.\<close>

definition sealed :: "('g, 'k) Noise_Lib \<Rightarrow> 32 byte_array \<Rightarrow> 32 byte_array \<Rightarrow> byte list \<Rightarrow> byte list" where
  "sealed N k h p =
     aead_Seal N (the (cs_gcm (fresh_cipher N k))) (nonce_bytes 0) p (array_bytes h)"

definition used_cipher :: "('g, 'k) Noise_Lib \<Rightarrow> 32 byte_array \<Rightarrow> 'g CipherState" where
  "used_cipher N k = (fresh_cipher N k)\<lparr>cs_n := 1\<rparr>"

lemma AndHash_fresh:
  assumes "aead_ok N" and "maxNoiseNonce N \<noteq> 0" and "hs_cs hs = Some (fresh_cipher N k)"
  shows "encryptAndHash N hs p =
      Some (sealed N k (hs_h hs) p,
        mixHash N (hs\<lparr>hs_cs := Some (used_cipher N k)\<rparr>) (sealed N k (hs_h hs) p))"
    and "decryptAndHash N hs (sealed N k (hs_h hs) p) =
      Some (Inr p, mixHash N (hs\<lparr>hs_cs := Some (used_cipher N k)\<rparr>) (sealed N k (hs_h hs) p))"
proof -
  obtain g where g: "keyed (fresh_cipher N k) g" and n: "cs_n (fresh_cipher N k) = 0"
    using fresh_keyed [OF assms(1), of k] by blast
  have s: "sealed N k h p = aead_Seal N g (nonce_bytes 0) p (array_bytes h)" for h p
    using g by (simp add: sealed_def keyed_def)
  show "encryptAndHash N hs p =
      Some (sealed N k (hs_h hs) p,
        mixHash N (hs\<lparr>hs_cs := Some (used_cipher N k)\<rparr>) (sealed N k (hs_h hs) p))"
    using Encrypt_keyed [OF g, of N "array_bytes (hs_h hs)" p] assms(2,3) n keyed_k [OF g]
    by (simp add: encryptAndHash_def s used_cipher_def)
  show "decryptAndHash N hs (sealed N k (hs_h hs) p) =
      Some (Inr p, mixHash N (hs\<lparr>hs_cs := Some (used_cipher N k)\<rparr>) (sealed N k (hs_h hs) p))"
    using Decrypt_Seal [OF assms(1) g, of "array_bytes (hs_h hs)" p] assms(2,3) n keyed_k [OF g]
    by (simp add: decryptAndHash_def s used_cipher_def)
qed

lemma decryptAndHash_sealed:
  assumes "aead_ok N" and "maxNoiseNonce N \<noteq> 0"
  shows "hs_cs hs = Some (fresh_cipher N k) \<Longrightarrow> h = hs_h hs \<Longrightarrow>
    decryptAndHash N hs (sealed N k h p) =
      Some (Inr p, mixHash N (hs\<lparr>hs_cs := Some (used_cipher N k)\<rparr>) (sealed N k h p))"
  using AndHash_fresh(2) [OF assms] by simp

lemma length_sealed: "aead_ok N \<Longrightarrow> length (sealed N k h p) = length p + 16"
  by (simp add: sealed_def aead_ok_def)

lemma InitializeKey_eq:
  assumes "aead_ok N"
  shows "InitializeKey N zero_CipherState k = (fresh_cipher N k, None)"
  using InitializeKey_ok [OF assms, of k zero_CipherState] by (auto simp: fresh_cipher_def)

lemmas handshake_steps = start_handshake_eq EncryptHash_unkeyed mixHash_def mixKey_eq HKDF_arrays
  SerializeEllswift_def SerializeEllswiftBytes_def

section \<open>The transcript\<close>

text \<open>
  What the protocol prescribes, from the public keys, the two shared secrets and the
  certificate: the second message, the final handshake hash and chaining key, and the
  cipher of the handshake after its last use.
\<close>

record 'g transcript =
  tr_reply :: "byte list"
  tr_h :: "32 byte_array"
  tr_ck :: "32 byte_array"
  tr_cipher :: "'g CipherState"

definition nx_transcript ::
    "('g, 'k) Noise_Lib \<Rightarrow> EllswiftPubkey \<Rightarrow> EllswiftPubkey \<Rightarrow> EllswiftPubkey \<Rightarrow> byte list \<Rightarrow> byte list \<Rightarrow>
       byte list \<Rightarrow> 'g transcript" where
  "nx_transcript N e re rs ee es cert =
     (let H = (\<lambda>h d. Sum256 N (array_bytes h @ d));
          ck0 = Sum256 N (string_bytes ProtocolName);
          h1 = H (H (Sum256 N (array_bytes ck0)) (array_bytes e)) [];
          h2 = H h1 (array_bytes re);
          c1 = sealed N (hkdf2 N ck0 ee) h2 (array_bytes rs);
          h3 = H h2 c1;
          ck1 = hkdf1 N ck0 ee;
          c2 = sealed N (hkdf2 N ck1 es) h3 cert
      in \<lparr>tr_reply = array_bytes re @ c1 @ c2, tr_h = H h3 c2, tr_ck = hkdf1 N ck1 es,
           tr_cipher = used_cipher N (hkdf2 N ck1 es)\<rparr>)"

text \<open>The two transport ciphers, initiator to responder first.\<close>

definition transport :: "('g, 'k) Noise_Lib \<Rightarrow> 'g transcript \<Rightarrow> 'g CipherState \<times> 'g CipherState" where
  "transport N tr = (fresh_cipher N (hkdf1 N (tr_ck tr) []), fresh_cipher N (hkdf2 N (tr_ck tr) []))"

definition finished :: "'g HandshakeState \<Rightarrow> 'g transcript \<Rightarrow> 'g HandshakeState" where
  "finished hs tr = hs\<lparr>hs_cs := Some (tr_cipher tr), hs_h := tr_h tr, hs_ck := tr_ck tr\<rparr>"

section \<open>Connections that are read and written\<close>

locale io_duplex = io_reader rd ready avail steps
  for rd :: "'r \<Rightarrow> int \<Rightarrow> ((byte list \<times> error option) \<times> 'r) option" and ready avail steps +
  fixes wr :: "'r \<Rightarrow> byte list \<Rightarrow> (nat \<times> error option) \<times> 'r"
    and sent :: "'r \<Rightarrow> byte list"
  assumes write_ok: "ready r \<Longrightarrow> \<exists>res r'. wr r b = (res, r') \<and> ready r' \<and> avail r' = avail r \<and>
      sent r' = sent r @ b"
    and read_sent: "rd r n = Some (x, r') \<Longrightarrow> sent r' = sent r"
begin

lemma read_loop_sent:
  assumes "read_loop rd m acc r = Some (x, r')"
  shows "sent r' = sent r"
proof -
  have "rd = rd \<longrightarrow> sent (snd (x, r')) = sent r"
  proof (rule read_loop.raw_induct [where P = "\<lambda>rd' m acc r y. rd' = rd \<longrightarrow> sent (snd y) = sent r"])
    show "read_loop rd m acc r = Some (x, r')" by (rule assms)
  next
    fix loop rd' m acc r y
    assume loop: "\<And>rd' m acc r y. loop rd' m acc r = Some y \<Longrightarrow> rd' = rd \<longrightarrow> sent (snd y) = sent r"
      and body: "(if m \<le> length acc then Some ((acc, None), r)
        else rd' r (int (m - length acc)) \<bind> (\<lambda>((bs, e), r).
          if e \<noteq> None then Some ((acc @ bs, e), r) else loop rd' m (acc @ bs) r)) = Some y"
    show "rd' = rd \<longrightarrow> sent (snd y) = sent r"
    proof (cases "m \<le> length acc")
      case False
      with body obtain bs e r1 where "rd' r (int (m - length acc)) = Some ((bs, e), r1)"
        and "(if e \<noteq> None then Some ((acc @ bs, e), r1) else loop rd' m (acc @ bs) r1) = Some y"
        by (auto simp: bind_eq_Some_conv)
      then show ?thesis
        using read_sent loop [of rd' m "acc @ bs" r1 y] by (fastforce split: if_split_asm)
    qed (use body in auto)
  qed
  then show ?thesis by simp
qed

lemma ReadFull_sent: "ReadFull rd r m = Some (x, r') \<Longrightarrow> sent r' = sent r"
  by (auto simp: ReadFull_def bind_eq_Some_conv dest: read_loop_sent)

lemma ReadFull_exact:
  assumes "ready r" and "avail r = bs @ s" and "length bs = n"
  shows "\<exists>r'. ReadFull rd r n = Some ((bs, None), r') \<and> avail r' = s \<and> ready r' \<and> sent r' = sent r"
  using ReadFull_append [OF assms(1,2)] ReadFull_sent assms(3) by blast

lemma responder_run:
  fixes cert :: SIGNATURE_NOISE_MESSAGE
  assumes "aead_ok N" and "maxNoiseNonce N \<noteq> 0"
    and "NewKeypair B rnd \<rho> = Some (e, \<rho>')"
    and "ready r" and "avail r = array_bytes re @ s"
    and "ecdh N e re False = Some ee" and "ecdh N st re False = Some es"
  defines "tr \<equiv> nx_transcript N re (SerializeEllswift e) (SerializeEllswift st) ee es
      (fst (SIGNATURE_NOISE_MESSAGE_Encode cert))"
  shows "\<exists>r'. PerformHandshakeResponder rd wr N B rnd hs r cert st \<rho> =
      Some (Inr (transport N tr), finished hs tr, r') \<and>
    sent r' = sent r @ tr_reply tr \<and> avail r' = s \<and> ready r'"
proof -
  obtain r1 where r1: "ReadFull rd r 64 = Some ((array_bytes re, None), r1)" "avail r1 = s" "ready r1"
    "sent r1 = sent r" using ReadFull_exact [OF assms(4,5), of 64] by auto
  obtain res r2 where r2: "wr r1 (tr_reply tr) = (res, r2)" "ready r2" "avail r2 = s"
    "sent r2 = sent r @ tr_reply tr" using write_ok [OF r1(3), of "tr_reply tr"] r1 by auto
  obtain cb where cert: "SIGNATURE_NOISE_MESSAGE_Encode cert = (cb, None)"
    by (simp add: cert_Encode_bytes)
  note tr = tr_def nx_transcript_def Let_def cert
  show ?thesis
    using assms(3,6,7) r1 r2
    by (simp add: PerformHandshakeResponder_def responder_rest_def tr transport_def finished_def handshake_steps
        AndHash_fresh [OF assms(1,2)] InitializeKey_eq [OF assms(1)])
qed

lemma initiator_run:
  fixes cert :: SIGNATURE_NOISE_MESSAGE
  assumes "aead_ok N" and "maxNoiseNonce N \<noteq> 0"
    and "NewKeypair B rnd \<rho> = Some (e, \<rho>')"
    and "ecdh N e re True = Some ee" and "ecdh N e rs True = Some es"
  defines "tr \<equiv> nx_transcript N (SerializeEllswift e) re rs ee es
      (fst (SIGNATURE_NOISE_MESSAGE_Encode cert))"
  assumes "ready r" and "avail r = tr_reply tr @ s"
  shows "\<exists>r'. PerformHandshakeInitiator rd wr N B rnd hs r \<rho> =
      Some (Inr (transport N tr),
        (finished hs tr)\<lparr>hs_cert := Some cert, hs_serverStatic := rs\<rparr>, r') \<and>
    sent r' = sent r @ SerializeEllswiftBytes e \<and> avail r' = s \<and> ready r'"
proof -
  obtain cb where cert: "SIGNATURE_NOISE_MESSAGE_Encode cert = (cb, None)"
    by (simp add: cert_Encode_bytes)
  have dec: "SIGNATURE_NOISE_MESSAGE_Decode zero_cert (Some cb) = Some (cert, None)" "length cb = 74"
    using cert_Decode_back [OF cert] by auto
  obtain res r1 where r1: "wr r (SerializeEllswiftBytes e) = (res, r1)" "ready r1"
    "avail r1 = tr_reply tr @ s" "sent r1 = sent r @ SerializeEllswiftBytes e"
    using write_ok [OF assms(7), of "SerializeEllswiftBytes e"] assms(8) by auto
  note len = length_sealed [OF assms(1)] and tr = tr_def nx_transcript_def Let_def cert
  have "length (tr_reply tr) = 234" by (simp add: tr len dec)
  then obtain r2 where r2: "ReadFull rd r1 234 = Some ((tr_reply tr, None), r2)" "avail r2 = s"
    "ready r2" "sent r2 = sent r @ SerializeEllswiftBytes e"
    using ReadFull_exact [OF r1(2,3), of 234] r1(4) by auto
  show ?thesis
    using assms(3-5) r1 r2 dec
    by (simp add: PerformHandshakeInitiator_def tr transport_def finished_def handshake_steps
        len decryptAndHash_sealed [OF assms(1,2)] InitializeKey_eq [OF assms(1)])
qed

end

text \<open>
  A connection as the code sees it: what arrives comes in chunks, what is written is
  appended to what was sent. The peer of \<open>duplex_Read\<close> sends the chunks and closes its
  side: the read after the last chunk is \<open>io.EOF\<close>. The peer of \<open>idle_Read\<close> stays connected
  and silent after them: that read never returns and has no result.
\<close>

record Duplex =
  dx_in :: "byte list list"
  dx_out :: "byte list"

definition duplex_Read :: "Duplex \<Rightarrow> int \<Rightarrow> ((byte list \<times> error option) \<times> Duplex) option" where
  "duplex_Read d l = do { (x, cs) \<leftarrow> conn_Read (dx_in d) l; Some (x, d\<lparr>dx_in := cs\<rparr>) }"

definition idle_Read :: "Duplex \<Rightarrow> int \<Rightarrow> ((byte list \<times> error option) \<times> Duplex) option" where
  "idle_Read d l = (if dx_in d = [] then None else duplex_Read d l)"

definition duplex_Write :: "Duplex \<Rightarrow> byte list \<Rightarrow> (nat \<times> error option) \<times> Duplex" where
  "duplex_Write d b = ((length b, None), d\<lparr>dx_out := dx_out d @ b\<rparr>)"

interpretation duplex: io_duplex duplex_Read "\<lambda>_. True" "\<lambda>d. concat (dx_in d)"
  "\<lambda>d. length (dx_in d) + length (concat (dx_in d))" duplex_Write dx_out
proof unfold_locales
  fix d :: Duplex and n assume "0 < n" "n \<le> length (concat (dx_in d))"
  from conn.read_some [OF TrueI this]
  show "\<exists>bs r'. duplex_Read d (int n) = Some ((bs, None), r') \<and> length bs \<le> n \<and>
      concat (dx_in d) = bs @ concat (dx_in r') \<and> True \<and>
      length (dx_in r') + length (concat (dx_in r')) < length (dx_in d) + length (concat (dx_in d))"
    by (fastforce simp: duplex_Read_def)
qed (auto simp: duplex_Read_def duplex_Write_def bind_eq_Some_conv)

interpretation idle: io_reader idle_Read "\<lambda>_. True" "\<lambda>d. concat (dx_in d)"
  "\<lambda>d. length (dx_in d) + length (concat (dx_in d))"
proof unfold_locales
  fix d :: Duplex and n assume n: "0 < n" "n \<le> length (concat (dx_in d))"
  then have "idle_Read d (int n) = duplex_Read d (int n)" by (auto simp: idle_Read_def)
  with duplex.read_some [OF TrueI n]
  show "\<exists>bs r'. idle_Read d (int n) = Some ((bs, None), r') \<and> length bs \<le> n \<and>
      concat (dx_in d) = bs @ concat (dx_in r') \<and> True \<and>
      length (dx_in r') + length (concat (dx_in r')) < length (dx_in d) + length (concat (dx_in d))" by simp
qed

text \<open>A peer that stays silent keeps \<open>io.ReadFull\<close> waiting for what is missing.\<close>

lemma idle_read_loop_waits:
  "length acc + length (concat (dx_in d)) < m \<Longrightarrow> read_loop idle_Read m acc d = None"
proof (induction "dx_in d" arbitrary: acc d)
  case Nil
  then show ?case by (subst read_loop.simps) (simp add: idle_Read_def)
next
  case (Cons c cs)
  let ?d = "d\<lparr>dx_in := cs\<rparr>"
  have d: "dx_in d = c # cs" using Cons.hyps(2) by simp
  then have "\<not> m \<le> length acc" "int (length c) \<le> int (m - length acc)" using Cons.prems by auto
  then have "read_loop idle_Read m acc d = read_loop idle_Read m (acc @ c) ?d"
    by (subst read_loop.simps) (simp add: idle_Read_def duplex_Read_def d)
  with Cons.hyps(1) [of ?d "acc @ c"] Cons.prems show ?case by (simp add: d)
qed

text \<open>With a peer that closes it always returns: what was asked for, or all there is.\<close>

lemma duplex_read_loop_short:
  "length acc + length (concat (dx_in d)) < m \<Longrightarrow>
    read_loop duplex_Read m acc d = Some ((acc @ concat (dx_in d), Some IO_EOF), d\<lparr>dx_in := []\<rparr>)"
proof (induction "dx_in d" arbitrary: acc d)
  case Nil
  then show ?case by (subst read_loop.simps) (cases d; simp add: duplex_Read_def)
next
  case (Cons c cs)
  let ?d = "d\<lparr>dx_in := cs\<rparr>"
  have d: "dx_in d = c # cs" using Cons.hyps(2) by simp
  then have "\<not> m \<le> length acc" "int (length c) \<le> int (m - length acc)" using Cons.prems by auto
  then have "read_loop duplex_Read m acc d = read_loop duplex_Read m (acc @ c) ?d"
    by (subst read_loop.simps) (simp add: duplex_Read_def d)
  with Cons.hyps(1) [of ?d "acc @ c"] Cons.prems show ?case by (simp add: d)
qed

lemma duplex_ReadFull_total:
  "\<exists>bs e d'. ReadFull duplex_Read d m = Some ((bs, e), d') \<and>
     (e = None \<longrightarrow> length bs = m \<and> concat (dx_in d) = bs @ concat (dx_in d'))"
proof (cases "m \<le> length (concat (dx_in d))")
  case True
  then have "concat (dx_in d) = take m (concat (dx_in d)) @ drop m (concat (dx_in d))" by simp
  from duplex.ReadFull_exact [OF TrueI this] True show ?thesis by fastforce
next
  case False
  then show ?thesis using duplex_read_loop_short [of "[]" d m] by (simp add: ReadFull_def)
qed

section \<open>Both sides agree\<close>

text \<open>
  The key exchange is symmetric: the two owners of well-formed key pairs compute the same
  secret, one as initiator and the other as responder.
\<close>

definition ecdh_ok :: "('g, 'k) Noise_Lib \<Rightarrow> ('k, 'q, 'j, 'f) Btcec \<Rightarrow> bool" where
  "ecdh_ok N B \<longleftrightarrow> (\<forall>a b. keypair_ok B a \<longrightarrow> keypair_ok B b \<longrightarrow>
     (\<exists>x. V2Ecdh N (the (kp_Private a)) (kp_publicEllswift b) (kp_publicEllswift a) True = Inr x \<and>
          V2Ecdh N (the (kp_Private b)) (kp_publicEllswift a) (kp_publicEllswift b) False = Inr x))"

lemma ecdh_agrees:
  assumes "ecdh_ok N B" and "keypair_ok B a" and "keypair_ok B b"
  shows "\<exists>x. ecdh N a (SerializeEllswift b) True = Some x \<and> ecdh N b (SerializeEllswift a) False = Some x"
proof -
  obtain x where "V2Ecdh N (the (kp_Private a)) (kp_publicEllswift b) (kp_publicEllswift a) True = Inr x"
    "V2Ecdh N (the (kp_Private b)) (kp_publicEllswift a) (kp_publicEllswift b) False = Inr x"
    using assms unfolding ecdh_ok_def by blast
  moreover obtain ka kb where "kp_Private a = Some ka" "kp_Private b = Some kb"
    using assms(2,3) by (auto simp: keypair_ok_def)
  ultimately show ?thesis by (simp add: ecdh_def SerializeEllswift_def)
qed

text \<open>The transport ciphers of a finished handshake, as the two sides hold them.\<close>

lemma transport_keyed:
  assumes "aead_ok N"
  shows "\<exists>g1 g2. keyed (fst (transport N tr)) g1 \<and> keyed (snd (transport N tr)) g2"
    and "cs_n (fst (transport N tr)) = 0" "cs_n (snd (transport N tr)) = 0"
proof -
  show "\<exists>g1 g2. keyed (fst (transport N tr)) g1 \<and> keyed (snd (transport N tr)) g2"
    using fresh_keyed(1) [OF assms, of "hkdf1 N (tr_ck tr) []"]
      fresh_keyed(1) [OF assms, of "hkdf2 N (tr_ck tr) []"]
    by (auto simp: transport_def)
qed (simp_all add: transport_def fresh_keyed(2) [OF assms])

text \<open>
  Each side, whatever its handshake state held before and however its input is cut, runs
  through to the transcript \<open>tr\<close>.
\<close>

definition responds ::
    "('g, 'k) Noise_Lib \<Rightarrow> ('k, 'q, 'j, 'f) Btcec \<Rightarrow> 'u random \<Rightarrow> 'u \<Rightarrow> SIGNATURE_NOISE_MESSAGE \<Rightarrow>
       ('k, 'q) Keypair \<Rightarrow> byte list \<Rightarrow> 'g transcript \<Rightarrow> bool" where
  "responds N B rnd \<rho> cert st first tr \<longleftrightarrow>
     (\<forall>hs r s. concat (dx_in r) = first @ s \<longrightarrow>
       (\<exists>r'. PerformHandshakeResponder duplex_Read duplex_Write N B rnd hs r cert st \<rho> =
           Some (Inr (transport N tr), finished hs tr, r') \<and>
         dx_out r' = dx_out r @ tr_reply tr \<and> concat (dx_in r') = s))"

definition initiates ::
    "('g, 'k) Noise_Lib \<Rightarrow> ('k, 'q, 'j, 'f) Btcec \<Rightarrow> 'u random \<Rightarrow> 'u \<Rightarrow> SIGNATURE_NOISE_MESSAGE \<Rightarrow>
       ('k, 'q) Keypair \<Rightarrow> byte list \<Rightarrow> 'g transcript \<Rightarrow> bool" where
  "initiates N B rnd \<rho> cert st first tr \<longleftrightarrow>
     (\<forall>hs r s. concat (dx_in r) = tr_reply tr @ s \<longrightarrow>
       (\<exists>r'. PerformHandshakeInitiator duplex_Read duplex_Write N B rnd hs r \<rho> =
           Some (Inr (transport N tr), (finished hs tr)\<lparr>hs_cert := Some cert,
             hs_serverStatic := SerializeEllswift st\<rparr>, r') \<and>
         dx_out r' = dx_out r @ first \<and> concat (dx_in r') = s))"

lemma handshake_runs:
  fixes N :: "('g, 'k) Noise_Lib" and B :: "('k, 'q, 'j, 'f) Btcec"
  assumes "aead_ok N" and "maxNoiseNonce N \<noteq> 0" and "btcec_ok B" and "ecdh_ok N B"
    and "NewKeypair B rnd \<rho>1 = Some (e1, \<rho>1')" and "NewKeypair B rnd \<rho>2 = Some (e2, \<rho>2')"
    and "keypair_ok B st"
  obtains tr :: "'g transcript" where "length (tr_reply tr) = 234"
    and "responds N B rnd \<rho>2 cert st (SerializeEllswiftBytes e1) tr"
    and "initiates N B rnd \<rho>1 cert st (SerializeEllswiftBytes e1) tr"
proof -
  note ok = NewKeypair_ok [OF assms(3,5)] NewKeypair_ok [OF assms(3,6)]
  obtain ee where ee: "ecdh N e1 (SerializeEllswift e2) True = Some ee"
    "ecdh N e2 (SerializeEllswift e1) False = Some ee" using ecdh_agrees [OF assms(4) ok] by blast
  obtain es where es: "ecdh N e1 (SerializeEllswift st) True = Some es"
    "ecdh N st (SerializeEllswift e1) False = Some es"
    using ecdh_agrees [OF assms(4) ok(1) assms(7)] by blast
  define tr where "tr = nx_transcript N (SerializeEllswift e1) (SerializeEllswift e2)
    (SerializeEllswift st) ee es (fst (SIGNATURE_NOISE_MESSAGE_Encode cert))"
  have "length (tr_reply tr) = 234"
    by (simp add: tr_def nx_transcript_def Let_def length_sealed [OF assms(1)] cert_Encode_bytes)
  moreover have "SerializeEllswiftBytes e1 = array_bytes (SerializeEllswift e1)"
    by (simp add: SerializeEllswift_def SerializeEllswiftBytes_def)
  ultimately show thesis
    using duplex.responder_run [OF assms(1,2,6) TrueI _ ee(2) es(2), where cert = cert]
      duplex.initiator_run [OF assms(1,2,5) ee(1) es(1) TrueI, where cert = cert]
    by (intro that [of tr]) (simp_all add: tr_def responds_def initiates_def)
qed

end
