(* ===== verification/Sv2_Conn.thy ===== *)
theory Sv2_Conn
  imports Handshake
begin

text \<open>
  \<open>Sv2Conn\<close> of \<open>src/examples/shared/shared.go\<close>: frames written to and read from a
  network connection through the two transport ciphers. The log output is not modelled,
  but the calls of \<open>Encode\<close> that it makes are: they change the frame.
\<close>

record ('g, 'r) Sv2Conn =
  sv_NetConn :: 'r
  sv_Send :: "'g CipherState"
  sv_Recv :: "'g CipherState"

definition WriteFrame ::
    "('r \<Rightarrow> byte list \<Rightarrow> (nat \<times> error option) \<times> 'r) \<Rightarrow> ('g, 'z) AEAD_scheme \<Rightarrow> ('g, 'r) Sv2Conn \<Rightarrow> Frame \<Rightarrow>
       ((nat \<times> error option) \<times> ('g, 'r) Sv2Conn \<times> Frame) option" where
  "WriteFrame wr A conn frame = do {
     let (_, frame) = Frame_Encode frame;
     ((res, cs), frame, w) \<leftarrow> EncryptFrameToWriter wr A (sv_Send conn) frame (sv_NetConn conn);
     Some (res, conn\<lparr>sv_Send := cs, sv_NetConn := w\<rparr>, frame) }"

definition ReadFrame ::
    "('r \<Rightarrow> int \<Rightarrow> ((byte list \<times> error option) \<times> 'r) option) \<Rightarrow> ('g, 'z) AEAD_scheme \<Rightarrow> ('g, 'r) Sv2Conn \<Rightarrow>
       ((error + Frame) \<times> ('g, 'r) Sv2Conn) option" where
  "ReadFrame rd A conn = do {
     ((res, cs), r) \<leftarrow> DecryptFrameFromReader rd A (sv_Recv conn) (sv_NetConn conn);
     let conn = conn\<lparr>sv_Recv := cs, sv_NetConn := r\<rparr>;
     case res of
       Inl err \<Rightarrow> Some (Inl err, conn)
     | Inr frame \<Rightarrow> let (_, frame) = Frame_Encode frame in Some (Inr frame, conn) }"

text \<open>
  The methods that make the type a \<open>net.Conn\<close> pass the call on; what they call is a
  parameter, a function on the connection. So bytes given to \<open>Write\<close> are not encrypted.
\<close>

definition pass_on :: "('r \<Rightarrow> 'x \<times> 'r) \<Rightarrow> ('g, 'r) Sv2Conn \<Rightarrow> 'x \<times> ('g, 'r) Sv2Conn" where
  "pass_on f conn = (let (x, r) = f (sv_NetConn conn) in (x, conn\<lparr>sv_NetConn := r\<rparr>))"

definition Conn_Write ::
    "('r \<Rightarrow> byte list \<Rightarrow> (nat \<times> error option) \<times> 'r) \<Rightarrow> ('g, 'r) Sv2Conn \<Rightarrow> byte list \<Rightarrow>
       (nat \<times> error option) \<times> ('g, 'r) Sv2Conn" where
  "Conn_Write wr conn b = pass_on (\<lambda>r. wr r b) conn"

definition Conn_Read ::
    "('r \<Rightarrow> int \<Rightarrow> ((byte list \<times> error option) \<times> 'r) option) \<Rightarrow> ('g, 'r) Sv2Conn \<Rightarrow> int \<Rightarrow>
       ((byte list \<times> error option) \<times> ('g, 'r) Sv2Conn) option" where
  "Conn_Read rd conn l = do { (x, r) \<leftarrow> rd (sv_NetConn conn) l; Some (x, conn\<lparr>sv_NetConn := r\<rparr>) }"

definition Conn_Close :: "('r \<Rightarrow> error option \<times> 'r) \<Rightarrow> ('g, 'r) Sv2Conn \<Rightarrow> error option \<times> ('g, 'r) Sv2Conn" where
  "Conn_Close close conn = pass_on close conn"

definition LocalAddr :: "('r \<Rightarrow> 'a) \<Rightarrow> ('g, 'r) Sv2Conn \<Rightarrow> 'a" where
  "LocalAddr local conn = local (sv_NetConn conn)"

definition RemoteAddr :: "('r \<Rightarrow> 'a) \<Rightarrow> ('g, 'r) Sv2Conn \<Rightarrow> 'a" where
  "RemoteAddr remote conn = remote (sv_NetConn conn)"

definition SetDeadline ::
    "('r \<Rightarrow> 't \<Rightarrow> error option \<times> 'r) \<Rightarrow> ('g, 'r) Sv2Conn \<Rightarrow> 't \<Rightarrow> error option \<times> ('g, 'r) Sv2Conn" where
  "SetDeadline set_both conn t = pass_on (\<lambda>r. set_both r t) conn"

definition SetReadDeadline ::
    "('r \<Rightarrow> 't \<Rightarrow> error option \<times> 'r) \<Rightarrow> ('g, 'r) Sv2Conn \<Rightarrow> 't \<Rightarrow> error option \<times> ('g, 'r) Sv2Conn" where
  "SetReadDeadline set_read conn t = pass_on (\<lambda>r. set_read r t) conn"

definition SetWriteDeadline ::
    "('r \<Rightarrow> 't \<Rightarrow> error option \<times> 'r) \<Rightarrow> ('g, 'r) Sv2Conn \<Rightarrow> 't \<Rightarrow> error option \<times> ('g, 'r) Sv2Conn" where
  "SetWriteDeadline set_write conn t = pass_on (\<lambda>r. set_write r t) conn"

text \<open>None of them touches the nonces.\<close>

lemma passed_on_keeps_ciphers:
  "sv_Send (snd (pass_on f conn)) = sv_Send conn" "sv_Recv (snd (pass_on f conn)) = sv_Recv conn"
  "Conn_Read rd conn l = Some (x, conn') \<Longrightarrow> sv_Send conn' = sv_Send conn \<and> sv_Recv conn' = sv_Recv conn"
  by (auto simp: pass_on_def Conn_Read_def bind_eq_Some_conv split: prod.splits)

section \<open>Frames without TLVs\<close>

lemma WriteFrame_ok:
  assumes "keyed (sv_Send conn) g" and "nonces_left A (sv_Send conn)" and "one_chunk f"
  shows "WriteFrame duplex_Write A conn f =
    Some ((length (sealed_frame A g (cs_n (sv_Send conn)) f), None),
      conn\<lparr>sv_Send := (sv_Send conn)\<lparr>cs_n := cs_n (sv_Send conn) + 2\<rparr>,
        sv_NetConn := (sv_NetConn conn)\<lparr>dx_out := dx_out (sv_NetConn conn) @
          sealed_frame A g (cs_n (sv_Send conn)) f\<rparr>\<rparr>, f)"
proof -
  have f: "frame_ok f" "fr_TLVs f = None" using assms(3) by (simp_all add: one_chunk_def)
  then show ?thesis
    using EncryptFrameToWriter_ok [OF assms(1,2) f, of duplex_Write] frame_ok_len [OF f(1)]
    by (simp add: WriteFrame_def Frame_Encode_plain duplex_Write_def)
qed

text \<open>The frame is read from any reader that has its bytes.\<close>

context io_reader
begin

lemma ReadFrame_back:
  assumes "aead_ok A" and "keyed (sv_Recv conn) g" and "nonces_left A (sv_Recv conn)" and "one_chunk f"
    and "ready (sv_NetConn conn)" and "avail (sv_NetConn conn) = sealed_frame A g (cs_n (sv_Recv conn)) f @ s"
  shows "\<exists>c'. ReadFrame rd A conn = Some (Inr f, c') \<and>
    sv_Recv c' = (sv_Recv conn)\<lparr>cs_n := cs_n (sv_Recv conn) + 2\<rparr> \<and>
    avail (sv_NetConn c') = s \<and> ready (sv_NetConn c')"
proof -
  have f: "frame_ok f" "fr_TLVs f = None" using assms(4) by (simp_all add: one_chunk_def)
  obtain r' where "DecryptFrameFromReader rd A (sv_Recv conn) (sv_NetConn conn) =
      Some ((Inr f, (sv_Recv conn)\<lparr>cs_n := cs_n (sv_Recv conn) + 2\<rparr>), r')" "avail r' = s" "ready r'"
    using DecryptFrameFromReader_back [OF assms] by blast
  then show ?thesis
    using f frame_ok_len [OF f(1)] by (simp add: ReadFrame_def Frame_Encode_plain)
qed

end

lemma ReadFrame_ok:
  assumes "aead_ok A" and "keyed (sv_Recv conn) g" and "nonces_left A (sv_Recv conn)" and "one_chunk f"
    and "concat (dx_in (sv_NetConn conn)) = sealed_frame A g (cs_n (sv_Recv conn)) f @ s"
  shows "\<exists>c'. ReadFrame duplex_Read A conn = Some (Inr f, c') \<and>
    sv_Recv c' = (sv_Recv conn)\<lparr>cs_n := cs_n (sv_Recv conn) + 2\<rparr> \<and>
    concat (dx_in (sv_NetConn c')) = s"
  using duplex.ReadFrame_back [OF assms(1-4) TrueI assms(5)] by blast

section \<open>Frames with TLVs\<close>

text \<open>
  \<open>Encode\<close> has already put the TLVs into the payload when \<open>WriteFrame\<close> encrypts the
  frame, and encrypting encodes it once more: the receiver gets them twice.
\<close>

lemma slice_bytes_append: "slice_bytes (slice_append p b) = slice_bytes p @ b"
  by (simp add: slice_append_def slice_bytes_def split: option.splits)

lemma slice_len_bytes: "slice_len p = int (length (slice_bytes p))"
  by (simp add: slice_len_def slice_bytes_def split: option.splits)

lemma sorted_tlvs_idem: "sorted_tlvs (sorted_tlvs ts) = sorted_tlvs ts"
  by (simp add: sorted_tlvs_def sort_key_id_if_sorted)

lemma Frame_Encode_wire:
  assumes "Frame_Encode f = ((b, e), f')" and "e = None"
  shows "b = frame_wire f'"
  using assms
  by (auto simp: Frame_Encode_def Let_def frame_bytes_wire split: if_splits option.splits sum.splits
      prod.splits)

lemma Frame_Encode_twice:
  assumes "uint (fr_MessageLength f) = slice_len (fr_Payload f)" and "fr_TLVs f = Some ts"
    and "\<forall>t \<in> set ts. length (tlv_Value t) \<le> 65535"
    and "length (slice_bytes (fr_Payload f)) + length (tlv_block ts) < 2 ^ 32"
    and "Frame_Encode f = (r1, f1)" and "Frame_Encode f1 = (r2, f2)"
  shows "snd r1 = None \<and> snd r2 = None \<and>
    slice_bytes (fr_Payload f1) = slice_bytes (fr_Payload f) @ tlv_block ts \<and>
    slice_bytes (fr_Payload f2) = slice_bytes (fr_Payload f) @ tlv_block ts @ tlv_block ts"
proof -
  let ?n = "length (tlv_block ts)" and ?p = "slice_bytes (fr_Payload f)"
  have f1: "f1 = f\<lparr>fr_MessageLength := fr_MessageLength f + word_of_nat ?n,
      fr_Payload := slice_append (fr_Payload f) (tlv_block ts), fr_TLVs := Some (sorted_tlvs ts)\<rparr>"
    "snd r1 = None" using Frame_Encode_tlvs [OF assms(1-3)] assms(5) by auto
  have "fr_MessageLength f = word_of_nat (length ?p)"
    using assms(1) by (metis slice_len_bytes word_of_int_uint of_int_of_nat_eq)
  then have "fr_MessageLength f1 = word_of_nat (length ?p + ?n)" by (simp add: f1)
  then have len: "uint (fr_MessageLength f1) = slice_len (fr_Payload f1)"
    using assms(4) by (simp add: f1 slice_len_bytes slice_bytes_append unsigned_of_nat take_bit_nat_eq_self
        del: of_nat_add flip: of_nat_add)
  have blk: "tlv_block (sorted_tlvs ts) = tlv_block ts" by (simp add: tlv_block_def sorted_tlvs_idem)
  have "\<forall>t \<in> set (sorted_tlvs ts). length (tlv_Value t) \<le> 65535"
    using assms(3) by (simp add: sorted_tlvs_def)
  from Frame_Encode_tlvs [OF len _ this] have "snd r2 = None"
    "slice_bytes (fr_Payload f2) = ?p @ tlv_block ts @ tlv_block ts"
    using assms(6) f1 by (auto simp: blk slice_bytes_append)
  then show ?thesis using f1 by (simp add: slice_bytes_append)
qed

end
