(* ===== verification/Nonce_Concurrency.thy ===== *)
theory Nonce_Concurrency
  imports Noise_Cipher
begin

text \<open>
  \<open>EncryptWithAd\<close> of \<open>src/noise.go\<close> called by several goroutines on one
  \<open>CipherState\<close>. The counter is an \<open>atomic.Uint64\<close>, so each \<open>Load\<close> and each
  \<open>Add\<close> is one step, but a call makes three of them: the test against the limit, the
  \<open>Load\<close> and the \<open>Add\<close> in \<open>getNonce\<close>. The steps of different calls interleave.

  The steps are those of a state with a key. Without one \<open>EncryptWithAd\<close> returns the plaintext
  before it looks at the counter: such a call touches nothing shared and uses no nonce.
\<close>

datatype pc = Start | Checked | Loaded u64 | Returned "u64 option"

record 'g Shared =
  sh_cs :: "'g CipherState"
  sh_pc :: "nat \<Rightarrow> pc"

inductive enc_step :: "('g, 'z) AEAD_scheme \<Rightarrow> nat \<Rightarrow> 'g Shared \<Rightarrow> 'g Shared \<Rightarrow> bool" for A i where
  check_exhausted: "sh_pc s i = Start \<Longrightarrow> cs_n (sh_cs s) = maxNoiseNonce A \<Longrightarrow>
    enc_step A i s (s\<lparr>sh_pc := (sh_pc s)(i := Returned None)\<rparr>)"
| check: "sh_pc s i = Start \<Longrightarrow> cs_n (sh_cs s) \<noteq> maxNoiseNonce A \<Longrightarrow>
    enc_step A i s (s\<lparr>sh_pc := (sh_pc s)(i := Checked)\<rparr>)"
| load: "sh_pc s i = Checked \<Longrightarrow>
    enc_step A i s (s\<lparr>sh_pc := (sh_pc s)(i := Loaded (cs_n (sh_cs s)))\<rparr>)"
| add: "sh_pc s i = Loaded v \<Longrightarrow>
    enc_step A i s (s\<lparr>sh_cs := (sh_cs s)\<lparr>cs_n := cs_n (sh_cs s) + 1\<rparr>,
      sh_pc := (sh_pc s)(i := Returned (Some v))\<rparr>)"

inductive_cases enc_stepE: "enc_step A i s s'"

text \<open>Steps of one goroutine, and of any.\<close>

definition run_alone :: "('g, 'z) AEAD_scheme \<Rightarrow> nat \<Rightarrow> 'g Shared \<Rightarrow> 'g Shared \<Rightarrow> bool" where
  "run_alone A i = (enc_step A i)\<^sup>*\<^sup>*"

definition interleave :: "('g, 'z) AEAD_scheme \<Rightarrow> 'g Shared \<Rightarrow> 'g Shared \<Rightarrow> bool" where
  "interleave A = (\<lambda>s s'. \<exists>i. enc_step A i s s')\<^sup>*\<^sup>*"

definition all_start :: "'g CipherState \<Rightarrow> 'g Shared" where
  "all_start cs = \<lparr>sh_cs = cs, sh_pc = (\<lambda>_. Start)\<rparr>"

section \<open>A call that runs alone\<close>

text \<open>The states one goroutine goes through while no other moves.\<close>

definition alone_at :: "('g, 'z) AEAD_scheme \<Rightarrow> 'g CipherState \<Rightarrow> pc \<Rightarrow> 'g CipherState \<Rightarrow> bool" where
  "alone_at A cs p cs' \<longleftrightarrow>
     (p = Start \<and> cs' = cs) \<or>
     (p = Checked \<and> cs' = cs \<and> cs_n cs \<noteq> maxNoiseNonce A) \<or>
     (p = Loaded (cs_n cs) \<and> cs' = cs \<and> cs_n cs \<noteq> maxNoiseNonce A) \<or>
     (p = Returned None \<and> cs' = cs \<and> cs_n cs = maxNoiseNonce A) \<or>
     (p = Returned (Some (cs_n cs)) \<and> cs' = cs\<lparr>cs_n := cs_n cs + 1\<rparr> \<and> cs_n cs \<noteq> maxNoiseNonce A)"

lemma alone_inv:
  assumes "run_alone A i s s'" and "sh_pc s i = Start"
  shows "alone_at A (sh_cs s) (sh_pc s' i) (sh_cs s')"
  using assms(1) unfolding run_alone_def
proof (induction rule: rtranclp_induct)
  case base
  then show ?case using assms(2) by (simp add: alone_at_def)
next
  case (step t u)
  from step.hyps(2) step.IH show ?case
    by (elim enc_stepE) (auto simp: alone_at_def)
qed

lemma alone_refines:
  assumes "keyed cs g" and "run_alone A i (all_start cs) s" and "sh_pc s i = Returned r"
  shows "EncryptWithAd A cs ad p =
    Some (case r of None \<Rightarrow> Inl Nonce_space_exhausted
      | Some v \<Rightarrow> Inr (aead_Seal A g (nonce_bytes v) p ad), sh_cs s)"
proof -
  have "alone_at A cs (Returned r) (sh_cs s)"
    using alone_inv [OF assms(2)] assms(3) by (simp add: all_start_def)
  then show ?thesis
    using assms(1) by (auto simp: alone_at_def Encrypt_keyed Encrypt_exhausted)
qed

section \<open>Calls that interleave\<close>

lemma two_calls:
  assumes "cs_n cs \<noteq> maxNoiseNonce A"
  shows "interleave A (all_start cs) \<lparr>sh_cs = cs\<lparr>cs_n := cs_n cs + 2\<rparr>,
    sh_pc = (\<lambda>_. Start)(0 := Returned (Some (cs_n cs)), 1 := Returned (Some (cs_n cs)))\<rparr>"
proof -
  let ?n = "cs_n cs" and ?s = "\<lambda>k p0 p1. \<lparr>sh_cs = cs\<lparr>cs_n := k\<rparr>, sh_pc = (\<lambda>_. Start)(0 := p0, 1 := p1)\<rparr>"
  have s0: "all_start cs = ?s ?n Start Start" by (simp add: all_start_def fun_eq_iff)
  have st: "interleave A x z" if "enc_step A i x y" "interleave A y z" for x y z i
    using that unfolding interleave_def by (auto intro: converse_rtranclp_into_rtranclp)
  have "interleave A (?s (?n + 2) (Returned (Some ?n)) (Returned (Some ?n)))
      (?s (?n + 2) (Returned (Some ?n)) (Returned (Some ?n)))"
    by (simp add: interleave_def)
  moreover have "enc_step A 1 (?s (?n + 1) (Returned (Some ?n)) (Loaded ?n))
      (?s (?n + 2) (Returned (Some ?n)) (Returned (Some ?n)))"
    using add [of "?s (?n + 1) (Returned (Some ?n)) (Loaded ?n)" 1 ?n A] by (simp add: add.assoc)
  moreover have "enc_step A 0 (?s ?n (Loaded ?n) (Loaded ?n)) (?s (?n + 1) (Returned (Some ?n)) (Loaded ?n))"
    using add [of "?s ?n (Loaded ?n) (Loaded ?n)" 0 ?n A] by (simp add: fun_upd_twist)
  moreover have "enc_step A 1 (?s ?n (Loaded ?n) Checked) (?s ?n (Loaded ?n) (Loaded ?n))"
    using load [of "?s ?n (Loaded ?n) Checked" 1 A] by simp
  moreover have "enc_step A 0 (?s ?n Checked Checked) (?s ?n (Loaded ?n) Checked)"
    using load [of "?s ?n Checked Checked" 0 A] by (simp add: fun_upd_twist)
  moreover have "enc_step A 1 (?s ?n Checked Start) (?s ?n Checked Checked)"
    using check [of "?s ?n Checked Start" 1 A] assms by simp
  moreover have "enc_step A 0 (?s ?n Start Start) (?s ?n Checked Start)"
    using check [of "?s ?n Start Start" 0 A] assms by (simp add: fun_upd_twist)
  ultimately show ?thesis unfolding s0 by (blast intro: st)
qed

end
