(* ===== verification/Step_Systems.thy ===== *)
theory Step_Systems
  imports Main
begin

text \<open>
  What the programs with several goroutines share: a step relation on the state of the
  whole program. \<open>invariant_system\<close> is the interface of a program whose invariant holds
  at the start and is kept by every step; \<open>measured_system\<close> that of a program phase which
  no step leaves and in which a measure goes down with every step, so that its runs are
  bounded and end where no step is left.
\<close>

locale invariant_system =
  fixes init :: 's and step :: "'s \<Rightarrow> 's \<Rightarrow> bool" and inv :: "'s \<Rightarrow> bool"
  assumes inv_init: "inv init"
    and inv_step: "inv s \<Longrightarrow> step s t \<Longrightarrow> inv t"
begin

lemma reachable_inv: "step\<^sup>*\<^sup>* init s \<Longrightarrow> inv s"
  by (induction rule: rtranclp_induct) (auto intro: inv_init inv_step)

end

locale measured_system =
  fixes step :: "'s \<Rightarrow> 's \<Rightarrow> bool" and phase :: "'s \<Rightarrow> bool" and left :: "'s \<Rightarrow> nat"
  assumes phase_step: "phase s \<Longrightarrow> step s t \<Longrightarrow> phase t"
    and left_step: "phase s \<Longrightarrow> step s t \<Longrightarrow> left t < left s"
begin

lemma run_bounded: "phase s \<Longrightarrow> (step ^^ n) s t \<Longrightarrow> phase t \<and> n + left t \<le> left s"
proof (induction n arbitrary: t)
  case (Suc n)
  then obtain u where u: "(step ^^ n) s u" "step u t" by auto
  then have "phase u" "n + left u \<le> left s" using Suc by auto
  with phase_step left_step u(2) show ?case by fastforce
qed simp

lemma reaches_end: "phase s \<Longrightarrow> \<exists>t. step\<^sup>*\<^sup>* s t \<and> phase t \<and> (\<forall>u. \<not> step t u)"
proof (induction "left s" arbitrary: s rule: less_induct)
  case less
  show ?case
  proof (cases "\<exists>u. step s u")
    case True
    then obtain u where u: "step s u" ..
    with less.hyps [of u] less.prems phase_step left_step
    obtain t where "step\<^sup>*\<^sup>* u t" "phase t" "\<forall>v. \<not> step t v" by blast
    with u show ?thesis by (meson converse_rtranclp_into_rtranclp)
  qed (use less.prems in auto)
qed

end

end
