(* ===== verification/Key_Grinder.thy ===== *)
theory Key_Grinder
  imports Certificates Ellswift Step_Systems
begin

text \<open>
  The key grinder of \<open>src/examples/grinder/pubkeygrinder.go\<close>: four goroutines draw key
  pairs until the text form of the public key has a wanted string after its first two
  characters, and send what they find over a buffered channel to \<open>main\<close>, which
  cancels them once it has enough results, reports and waits for them.

  One round of a goroutine is the function \<open>grinder_try\<close>; the program is the step
  relation \<open>grind_step\<close>, in which a goroutine moves from one of its blocking or shared
  operations to the next: the \<open>select\<close> on the context, the draw, the send. The random
  source and the clock are the environment: every draw may find the source in any state.
  What is printed is left out.
\<close>

section \<open>One round of a goroutine\<close>

record grind_result =
  r_pubKey :: string
  r_privKey :: "byte list"
  r_auxRand :: "32 byte_array"
  r_caseNum :: u8
  r_nonce :: u64
  r_timeTaken :: int

datatype try_outcome = Hit grind_result | Miss | Try_panics

text \<open>
  \<open>None\<close>: the search of \<open>EllswiftCreate\<close> does not return. The round panics on an error
  of the random source, on a coordinate above 32 bytes and when the text is too short for
  the slice expression.
\<close>

definition grinder_try ::
    "('k, 'q, 'j, 'f) Btcec \<Rightarrow> (byte list \<Rightarrow> u8 \<Rightarrow> string) \<Rightarrow> 'u random \<Rightarrow> nat \<Rightarrow> string \<Rightarrow> u64 \<Rightarrow> int \<Rightarrow> 'u \<Rightarrow>
       (try_outcome \<times> 'u) option" where
  "grinder_try B CheckEncode rnd strLen str nonce elapsed \<rho> = do {
     (res, \<rho>) \<leftarrow> EllswiftCreate B rnd \<rho>;
     case res of
       Inl err \<Rightarrow> Some (Try_panics, \<rho>)
     | Inr (key, _, auxrand, casenum) \<Rightarrow>
       (case FillBytes (PubKey_X B (PrivKey_PubKey B key)) 32 of
          None \<Rightarrow> Some (Try_panics, \<rho>)
        | Some x \<Rightarrow>
          let enc = SerializeAuthorityKey CheckEncode (Array x)
          in if length enc < 2 + strLen then Some (Try_panics, \<rho>)
             else if take strLen (drop 2 enc) = str
             then Some (Hit \<lparr>r_pubKey = enc, r_privKey = PrivKey_Serialize B key, r_auxRand = auxrand,
               r_caseNum = casenum, r_nonce = nonce, r_timeTaken = elapsed\<rparr>, \<rho>)
             else Some (Miss, \<rho>)) }"

section \<open>The program\<close>

definition grind_str :: string where
  "grind_str = ''SV2''"

definition maxResults :: nat where
  "maxResults = 1"

definition grinders :: nat where
  "grinders = 4"

text \<open>Where a goroutine is: at its \<open>select\<close>, past it, or blocked in the send; with its nonce.\<close>

datatype worker = Grinding u64 | Trying u64 | Sending u64 grind_result | Exited

datatype grind_main = Collecting | Reporting | Waiting | Finished

record grind_state =
  g_workers :: "nat \<Rightarrow> worker"
  g_chan :: "grind_result list"
  g_coll :: "grind_result list"
  g_cancelled :: bool
  g_main :: grind_main
  g_panicked :: bool

definition grind_init :: grind_state where
  "grind_init = \<lparr>g_workers = (\<lambda>_. Grinding 0), g_chan = [], g_coll = [], g_cancelled = False,
     g_main = Collecting, g_panicked = False\<rparr>"

definition move :: "grind_state \<Rightarrow> nat \<Rightarrow> worker \<Rightarrow> grind_state" where
  "move s i w = s\<lparr>g_workers := (g_workers s)(i := w)\<rparr>"

text \<open>\<open>main\<close> takes a result, and cancels the goroutines when it has enough.\<close>

definition collect :: "grind_state \<Rightarrow> grind_result \<Rightarrow> grind_result list \<Rightarrow> grind_state" where
  "collect s res rest =
     (let s = s\<lparr>g_chan := rest, g_coll := g_coll s @ [res]\<rparr>
      in if length (g_coll s) = maxResults then s\<lparr>g_cancelled := True, g_main := Reporting\<rparr> else s)"

text \<open>The report on one result: the key pair made again and encoded. \<open>nil\<close> panics in \<open>Encode\<close>.\<close>

definition report_result :: "('k, 'q, 'j, 'f) Btcec \<Rightarrow> grind_result \<Rightarrow> (byte list \<times> error option) option" where
  "report_result B res = do {
     pk \<leftarrow> array_of_slice (r_privKey res);
     kp \<leftarrow> NewKeypairFrom B pk (r_auxRand res) (r_caseNum res);
     case kp of Inl err \<Rightarrow> None | Inr kp \<Rightarrow> Keypair_Encode B kp }"

inductive grind_step ::
    "('k, 'q, 'j, 'f) Btcec \<Rightarrow> (byte list \<Rightarrow> u8 \<Rightarrow> string) \<Rightarrow> 'u random \<Rightarrow> grind_state \<Rightarrow> grind_state \<Rightarrow> bool"
  for B CheckEncode rnd where
  stop: "\<not> g_panicked s \<Longrightarrow> i < grinders \<Longrightarrow> g_workers s i = Grinding n \<Longrightarrow> g_cancelled s \<Longrightarrow>
    grind_step B CheckEncode rnd s (move s i Exited)"
| go_on: "\<not> g_panicked s \<Longrightarrow> i < grinders \<Longrightarrow> g_workers s i = Grinding n \<Longrightarrow> \<not> g_cancelled s \<Longrightarrow>
    grind_step B CheckEncode rnd s (move s i (Trying n))"
| miss: "\<not> g_panicked s \<Longrightarrow> i < grinders \<Longrightarrow> g_workers s i = Trying n \<Longrightarrow>
    grinder_try B CheckEncode rnd (length grind_str) grind_str n elapsed \<rho> = Some (Miss, \<rho>') \<Longrightarrow>
    grind_step B CheckEncode rnd s (move s i (Grinding (n + 1)))"
| hit: "\<not> g_panicked s \<Longrightarrow> i < grinders \<Longrightarrow> g_workers s i = Trying n \<Longrightarrow>
    grinder_try B CheckEncode rnd (length grind_str) grind_str n elapsed \<rho> = Some (Hit res, \<rho>') \<Longrightarrow>
    grind_step B CheckEncode rnd s (move s i (Sending n res))"
| panic: "\<not> g_panicked s \<Longrightarrow> i < grinders \<Longrightarrow> g_workers s i = Trying n \<Longrightarrow>
    grinder_try B CheckEncode rnd (length grind_str) grind_str n elapsed \<rho> = Some (Try_panics, \<rho>') \<Longrightarrow>
    grind_step B CheckEncode rnd s (s\<lparr>g_panicked := True\<rparr>)"
| send: "\<not> g_panicked s \<Longrightarrow> i < grinders \<Longrightarrow> g_workers s i = Sending n res \<Longrightarrow>
    length (g_chan s) < maxResults \<Longrightarrow>
    grind_step B CheckEncode rnd s (move (s\<lparr>g_chan := g_chan s @ [res]\<rparr>) i (Grinding (n + 1)))"
| recv: "\<not> g_panicked s \<Longrightarrow> g_main s = Collecting \<Longrightarrow> g_chan s = res # rest \<Longrightarrow>
    grind_step B CheckEncode rnd s (collect s res rest)"
| report: "\<not> g_panicked s \<Longrightarrow> g_main s = Reporting \<Longrightarrow> \<forall>res \<in> set (g_coll s). report_result B res \<noteq> None \<Longrightarrow>
    grind_step B CheckEncode rnd s (s\<lparr>g_main := Waiting\<rparr>)"
| report_panics: "\<not> g_panicked s \<Longrightarrow> g_main s = Reporting \<Longrightarrow> \<exists>res \<in> set (g_coll s). report_result B res = None \<Longrightarrow>
    grind_step B CheckEncode rnd s (s\<lparr>g_panicked := True\<rparr>)"
| finish: "\<not> g_panicked s \<Longrightarrow> g_main s = Waiting \<Longrightarrow> \<forall>i < grinders. g_workers s i = Exited \<Longrightarrow>
    grind_step B CheckEncode rnd s (s\<lparr>g_main := Finished\<rparr>)"

section \<open>Every result is a key pair with the wanted text\<close>

definition found ::
    "('k, 'q, 'j, 'f) Btcec \<Rightarrow> (byte list \<Rightarrow> u8 \<Rightarrow> string) \<Rightarrow> 'u random \<Rightarrow> grind_result \<Rightarrow> bool" where
  "found B CheckEncode rnd res \<longleftrightarrow>
     (\<exists>n elapsed \<rho> \<rho>'. grinder_try B CheckEncode rnd (length grind_str) grind_str n elapsed \<rho> = Some (Hit res, \<rho>'))"

lemma grinder_try_Hit:
  assumes "grinder_try B CheckEncode rnd l str n el \<rho> = Some (Hit res, \<rho>')"
  obtains k ell x where "EllswiftCreate B rnd \<rho> = Some (Inr (k, ell, r_auxRand res, r_caseNum res), \<rho>')"
    and "FillBytes (PubKey_X B (PrivKey_PubKey B k)) 32 = Some x"
    and "r_pubKey res = SerializeAuthorityKey CheckEncode (Array x)"
    and "r_privKey res = PrivKey_Serialize B k"
    and "2 + l \<le> length (r_pubKey res)" and "take l (drop 2 (r_pubKey res)) = str"
proof -
  obtain r \<rho>1 where r: "EllswiftCreate B rnd \<rho> = Some (r, \<rho>1)"
    using assms by (auto simp: grinder_try_def bind_eq_Some_conv)
  with assms obtain k ell aux c where i: "r = Inr (k, ell, aux, c)"
    by (cases r) (auto simp: grinder_try_def)
  with assms r obtain x where x: "FillBytes (PubKey_X B (PrivKey_PubKey B k)) 32 = Some x"
    by (auto simp: grinder_try_def split: option.splits)
  show thesis
    using assms by (intro that [of k ell x])
      (auto simp: grinder_try_def r i x Let_def not_less split: if_splits)
qed

lemma FillBytes_length: "FillBytes x n = Some bs \<Longrightarrow> length bs = n"
  by (auto simp: FillBytes_def split: if_splits)

lemma found_report:
  assumes "btcec_ok B" and "found B CheckEncode rnd res"
  shows "\<exists>kp pk b. NewKeypairFrom B (Array (r_privKey res)) (r_auxRand res) (r_caseNum res) = Some (Inr kp) \<and>
    PublicKey kp = Some pk \<and> r_pubKey res = SerializeAuthorityKey CheckEncode pk \<and>
    take (length grind_str) (drop 2 (r_pubKey res)) = grind_str \<and>
    report_result B res = Some (b, None) \<and> length b = 65 \<and>
    Keypair_Decode B kp0 (Some b) = Some (kp, None)"
proof -
  from assms(2) obtain n el \<rho> \<rho>' where
    "grinder_try B CheckEncode rnd (length grind_str) grind_str n el \<rho> = Some (Hit res, \<rho>')"
    by (auto simp: found_def)
  from grinder_try_Hit [OF this] obtain k ell x where
    cr: "EllswiftCreate B rnd \<rho> = Some (Inr (k, ell, r_auxRand res, r_caseNum res), \<rho>')"
    and x: "FillBytes (PubKey_X B (PrivKey_PubKey B k)) 32 = Some x"
    and res: "r_pubKey res = SerializeAuthorityKey CheckEncode (Array x)"
      "r_privKey res = PrivKey_Serialize B k" "take (length grind_str) (drop 2 (r_pubKey res)) = grind_str"
    by metis
  let ?pk = "Array (PrivKey_Serialize B k) :: 32 byte_array"
  have pk: "array_bytes ?pk = PrivKey_Serialize B k" "PrivKeyFromBytes B (PrivKey_Serialize B k) = k"
    "array_of_slice (PrivKey_Serialize B k) = Some ?pk"
    using assms(1) by (simp_all add: btcec_ok_def array_of_slice_Some)
  obtain kp where kp: "NewKeypairFrom B ?pk (r_auxRand res) (r_caseNum res) = Some (Inr kp)"
    "kp_publicX kp = Some x" "kp_Private kp = Some k" "kp_auxRand kp = r_auxRand res"
    "kp_caseNum kp = r_caseNum res"
    using EllswiftCreate_recreate [OF cr, of ?pk] pk x
    by (simp add: NewKeypairFrom_def zero_Keypair_def)
  then have "keypair_ok B kp" by (simp add: keypair_ok_def)
  from Keypair_roundtrip [OF assms(1) this, of kp0 "[]"] kp x res pk show ?thesis
    by (auto simp: report_result_def PublicKey_def PublicKeyBytes_def FillBytes_length
        array_of_slice_Some slice_bytes_def)
qed

text \<open>
  The invariant: whatever has been found is genuine, the channel keeps its bound, \<open>main\<close>
  collects exactly until it has cancelled, and it finishes only after the goroutines.
\<close>

definition grind_inv ::
    "('k, 'q, 'j, 'f) Btcec \<Rightarrow> (byte list \<Rightarrow> u8 \<Rightarrow> string) \<Rightarrow> 'u random \<Rightarrow> grind_state \<Rightarrow> bool" where
  "grind_inv B CheckEncode rnd s \<longleftrightarrow>
     (\<forall>res \<in> set (g_chan s) \<union> set (g_coll s). found B CheckEncode rnd res) \<and>
     (\<forall>i n res. g_workers s i = Sending n res \<longrightarrow> found B CheckEncode rnd res) \<and>
     length (g_chan s) \<le> maxResults \<and>
     (g_main s = Collecting \<longleftrightarrow> \<not> g_cancelled s) \<and>
     length (g_coll s) \<le> maxResults \<and> (g_cancelled s \<longleftrightarrow> length (g_coll s) = maxResults) \<and>
     (g_main s = Finished \<longrightarrow> (\<forall>i < grinders. g_workers s i = Exited))"

lemma grind_inv_step:
  assumes "grind_inv B CheckEncode rnd s" and "grind_step B CheckEncode rnd s t"
  shows "grind_inv B CheckEncode rnd t"
  using assms(2,1)
proof cases
  case (hit i n el \<rho> res \<rho>')
  then have "found B CheckEncode rnd res" by (auto simp: found_def)
  with hit assms(1) show ?thesis by (auto simp: grind_inv_def move_def)
next
  case (recv res rest)
  with assms(1) show ?thesis by (auto simp: grind_inv_def collect_def Let_def)
next
  case (send i n res)
  with assms(1) show ?thesis by (auto simp: grind_inv_def move_def)
qed (auto simp: grind_inv_def move_def)

interpretation grinder: invariant_system grind_init "grind_step B CheckEncode rnd"
  "grind_inv B CheckEncode rnd" for B CheckEncode rnd
  by unfold_locales (simp add: grind_inv_def grind_init_def maxResults_def, rule grind_inv_step)

section \<open>After the cancellation\<close>

text \<open>Once cancelled, a goroutine finishes its round, sends what it found if it can, and stops.\<close>

fun rounds_left :: "worker \<Rightarrow> nat" where
  "rounds_left (Trying n) = 3"
| "rounds_left (Sending n res) = 2"
| "rounds_left (Grinding n) = 1"
| "rounds_left Exited = 0"

definition stopping :: "grind_state \<Rightarrow> bool" where
  "stopping s \<longleftrightarrow> g_cancelled s \<and> g_main s \<noteq> Collecting"

definition steps_left :: "grind_state \<Rightarrow> nat" where
  "steps_left s = (\<Sum>i < grinders. rounds_left (g_workers s i)) + (case g_main s of Reporting \<Rightarrow> 2 | Waiting \<Rightarrow> 1 | _ \<Rightarrow> 0) +
     of_bool (\<not> g_panicked s)"

lemma steps_left_move:
  assumes "i < grinders" and "rounds_left w < rounds_left (g_workers s i)"
  shows "steps_left (move s i w) < steps_left s"
proof -
  have "(\<Sum>j < grinders. rounds_left (((g_workers s)(i := w)) j)) <
      (\<Sum>j < grinders. rounds_left (g_workers s j))"
    using assms by (intro sum_strict_mono_ex1) auto
  then show ?thesis by (simp add: steps_left_def move_def)
qed

lemma rounds_left_le: "rounds_left w \<le> 3"
  by (cases w) auto

lemma steps_left_le: "steps_left s \<le> 15"
proof -
  have "(\<Sum>i < grinders. rounds_left (g_workers s i)) \<le> (\<Sum>i < grinders. 3)"
    by (intro sum_mono rounds_left_le)
  then show ?thesis by (simp add: steps_left_def grinders_def of_bool_def split: grind_main.split)
qed

lemma stopping_step:
  assumes "stopping s" and "grind_step B CheckEncode rnd s t"
  shows "stopping t" and "steps_left t < steps_left s"
proof -
  from assms(2,1) show "stopping t" by cases (auto simp: stopping_def move_def)
  from assms(2,1) show "steps_left t < steps_left s"
  proof cases
    case (send i n res)
    then show ?thesis
      using steps_left_move [of i "Grinding (n + 1)" "s\<lparr>g_chan := g_chan s @ [res]\<rparr>"]
      by (simp add: steps_left_def)
  next
    case (panic i n el \<rho> \<rho>')
    then show ?thesis by (simp add: steps_left_def)
  next
    case report
    then show ?thesis by (simp add: steps_left_def)
  next
    case report_panics
    then show ?thesis by (simp add: steps_left_def)
  next
    case finish
    then show ?thesis by (simp add: steps_left_def)
  qed (auto simp: stopping_def intro: steps_left_move)
qed

interpretation cancelled: measured_system "grind_step B CheckEncode rnd" stopping steps_left
  for B CheckEncode rnd
  using stopping_step by unfold_locales

lemma stopping_stuck:
  assumes "\<And>n. \<exists>el \<rho> y. grinder_try B CheckEncode rnd (length grind_str) grind_str n el \<rho> = Some y"
    and "stopping s" and "\<And>t. \<not> grind_step B CheckEncode rnd s t" and "\<not> g_panicked s"
    and "g_main s \<noteq> Finished"
  shows "maxResults \<le> length (g_chan s) \<and> (\<exists>i < grinders. \<exists>n res. g_workers s i = Sending n res)"
proof -
  have "g_main s \<noteq> Reporting"
  proof
    assume r: "g_main s = Reporting"
    show False
    proof (cases "\<exists>res \<in> set (g_coll s). report_result B res = None")
      case True
      then show ?thesis using report_panics [OF assms(4) r] assms(3) by blast
    next
      case False
      then have "\<forall>res \<in> set (g_coll s). report_result B res \<noteq> None" by simp
      from report [OF assms(4) r this, of CheckEncode rnd] assms(3) show ?thesis by blast
    qed
  qed
  then have main: "g_main s = Waiting" using assms(2,5) by (cases "g_main s") (auto simp: stopping_def)
  from assms(3) [of "s\<lparr>g_main := Finished\<rparr>"] obtain i where i: "i < grinders" "g_workers s i \<noteq> Exited"
    using finish [OF assms(4) main] by blast
  have "\<exists>n res. g_workers s i = Sending n res"
  proof (cases "g_workers s i")
    case (Grinding n)
    then have "grind_step B CheckEncode rnd s (move s i Exited)"
      using assms(2) by (intro stop [OF assms(4) i(1)]) (auto simp: stopping_def)
    then show ?thesis using assms(3) by blast
  next
    case (Trying n)
    obtain el \<rho> o' \<rho>' where
      "grinder_try B CheckEncode rnd (length grind_str) grind_str n el \<rho> = Some (o', \<rho>')"
      using assms(1) [of n] by fastforce
    then have "\<exists>t. grind_step B CheckEncode rnd s t"
      by (cases o') (auto intro: miss [OF assms(4) i(1) Trying] hit [OF assms(4) i(1) Trying]
          panic [OF assms(4) i(1) Trying])
    then show ?thesis using assms(3) by blast
  qed (use i in auto)
  then show ?thesis using send [OF assms(4) i(1)] assms(3) i(1) not_less by blast
qed

text \<open>
  The results that may still come, with those in the channel: as nobody receives after the
  cancellation, they all have to fit the channel.
\<close>

fun past_select :: "worker \<Rightarrow> bool" where
  "past_select (Trying n) = True"
| "past_select (Sending n res) = True"
| "past_select w = False"

definition pending :: "grind_state \<Rightarrow> nat" where
  "pending s = (\<Sum>i < grinders. of_bool (past_select (g_workers s i))) + length (g_chan s)"

lemma pending_move:
  assumes "i < grinders"
  shows "pending (move s i w) + of_bool (past_select (g_workers s i)) = pending s + of_bool (past_select w)"
proof -
  have "(\<Sum>j < grinders. of_bool (past_select (f j)) :: nat) =
      of_bool (past_select (f i)) + (\<Sum>j \<in> {..< grinders} - {i}. of_bool (past_select (f j)))" for f
    using assms by (intro sum.remove) auto
  from this [of "g_workers s"] this [of "(g_workers s)(i := w)"] show ?thesis
    by (simp add: pending_def move_def)
qed

lemma pending_step:
  assumes "stopping s" and "grind_step B CheckEncode rnd s t"
  shows "pending t \<le> pending s"
  using assms(2,1)
proof cases
  case (stop i n)
  then show ?thesis using pending_move [of i s Exited] by simp
next
  case (miss i n el \<rho> \<rho>')
  then show ?thesis using pending_move [of i s "Grinding (n + 1)"] by simp
next
  case (hit i n el \<rho> res \<rho>')
  then show ?thesis using pending_move [of i s "Sending n res"] by simp
next
  case (send i n res)
  then show ?thesis
    using pending_move [of i "s\<lparr>g_chan := g_chan s @ [res]\<rparr>" "Grinding (n + 1)"] by (simp add: pending_def)
qed (auto simp: stopping_def pending_def)

interpretation uncrowded: measured_system "grind_step B CheckEncode rnd"
  "\<lambda>s. stopping s \<and> pending s \<le> maxResults" steps_left for B CheckEncode rnd
  using stopping_step pending_step by unfold_locales (fastforce intro: order.trans)+

lemma blocked_crowded:
  assumes "maxResults \<le> length (g_chan s)" and "i < grinders" and "past_select (g_workers s i)"
  shows "maxResults < pending s"
proof -
  have "of_bool (past_select (g_workers s i)) \<le> (\<Sum>i < grinders. of_bool (past_select (g_workers s i)) :: nat)"
    using assms(2) by (intro member_le_sum) auto
  then show ?thesis using assms by (simp add: pending_def)
qed

section \<open>The run that never ends\<close>

definition four :: "worker \<Rightarrow> worker \<Rightarrow> worker \<Rightarrow> worker \<Rightarrow> nat \<Rightarrow> worker" where
  "four a b c d = (\<lambda>_. Grinding 0)(0 := a, 1 := b, 2 := c, 3 := d)"

lemma four_simps [simp]:
  "four a b c d 0 = a" "four a b c d (Suc 0) = b" "four a b c d 2 = c" "four a b c d 3 = d"
  "(four a b c d)(0 := w) = four w b c d" "(four a b c d)(Suc 0 := w) = four a w c d"
  "(four a b c d)(2 := w) = four a b w d" "(four a b c d)(3 := w) = four a b c w"
  by (simp_all add: four_def fun_eq_iff)

text \<open>Three goroutines have found a key: one result is taken, one fills the channel, one cannot be sent.\<close>

definition blocked_state :: "grind_result \<Rightarrow> grind_state" where
  "blocked_state res = \<lparr>g_workers = four Exited Exited (Sending 0 res) Exited,
     g_chan = [res], g_coll = [res], g_cancelled = True, g_main = Waiting, g_panicked = False\<rparr>"

lemma blocked_stuck: "\<not> grind_step B CheckEncode rnd (blocked_state res) t"
proof
  assume "grind_step B CheckEncode rnd (blocked_state res) t"
  then show False
    by cases (auto simp: blocked_state_def four_def grinders_def maxResults_def less_Suc_eq numeral_eq_Suc
        split: if_splits)
qed

lemma blocked_reachable:
  assumes "btcec_ok B"
    and tried: "grinder_try B CheckEncode rnd (length grind_str) grind_str 0 el \<rho> = Some (Hit res, \<rho>')"
  shows "(grind_step B CheckEncode rnd)\<^sup>*\<^sup>* grind_init (blocked_state res)"
proof -
  let ?S = "grind_step B CheckEncode rnd"
  let ?st = "\<lambda>a b c d ch co. \<lparr>g_workers = four a b c d, g_chan = ch,
    g_coll = co, g_cancelled = co \<noteq> [], g_main = (if co = [] then Collecting else Reporting), g_panicked = False\<rparr>"
  let ?G = "Grinding 0" and ?H = "Sending 0 res"
  have find: "?S\<^sup>*\<^sup>* s (move s i ?H)"
    if "\<not> g_panicked s" "i < grinders" "g_workers s i = ?G" "\<not> g_cancelled s" for s i
  proof -
    have "?S s (move s i (Trying 0))" by (rule go_on [OF that])
    moreover have "?S (move s i (Trying 0)) (move (move s i (Trying 0)) i ?H)"
      using that by (intro hit [OF _ _ _ tried]) (auto simp: move_def)
    ultimately show ?thesis by (simp add: move_def)
  qed
  have send': "?S s (move (s\<lparr>g_chan := [res]\<rparr>) i (Grinding 1))"
    if "\<not> g_panicked s" "i < grinders" "g_workers s i = ?H" "g_chan s = []" for s i
    using send [OF that(1-3), of B CheckEncode rnd] that(4) by (simp add: maxResults_def)
  have "found B CheckEncode rnd res" using tried by (auto simp: found_def)
  from found_report [OF assms(1) this, of undefined] have reported: "report_result B res \<noteq> None" by fastforce
  have init: "grind_init = ?st ?G ?G ?G ?G [] []" by (simp add: grind_init_def four_def fun_eq_iff)
  note ev = move_def grinders_def
  have "?S\<^sup>*\<^sup>* (?st ?G ?G ?G ?G [] []) (?st ?H ?G ?G ?G [] [])"
    using find [of "?st ?G ?G ?G ?G [] []" 0] by (simp add: ev)
  also have "?S (?st ?H ?G ?G ?G [] []) (?st (Grinding 1) ?G ?G ?G [res] [])"
    using send' [of "?st ?H ?G ?G ?G [] []" 0] by (simp add: ev)
  also have "?S\<^sup>*\<^sup>* (?st (Grinding 1) ?G ?G ?G [res] []) (?st (Grinding 1) ?H ?G ?G [res] [])"
    using find [of "?st (Grinding 1) ?G ?G ?G [res] []" 1] by (simp add: ev)
  also have "?S\<^sup>*\<^sup>* (?st (Grinding 1) ?H ?G ?G [res] []) (?st (Grinding 1) ?H ?H ?G [res] [])"
    using find [of "?st (Grinding 1) ?H ?G ?G [res] []" 2] by (simp add: ev)
  also have "?S (?st (Grinding 1) ?H ?H ?G [res] []) (?st (Grinding 1) ?H ?H ?G [] [res])"
    using recv [of "?st (Grinding 1) ?H ?H ?G [res] []" res "[]"]
    by (simp add: collect_def maxResults_def)
  also have "?S (?st (Grinding 1) ?H ?H ?G [] [res]) (?st (Grinding 1) (Grinding 1) ?H ?G [res] [res])"
    using send' [of "?st (Grinding 1) ?H ?H ?G [] [res]" 1] by (simp add: ev)
  also have "?S (?st (Grinding 1) (Grinding 1) ?H ?G [res] [res]) (?st Exited (Grinding 1) ?H ?G [res] [res])"
    using stop [of "?st (Grinding 1) (Grinding 1) ?H ?G [res] [res]" 0 1] by (simp add: ev)
  also have "?S (?st Exited (Grinding 1) ?H ?G [res] [res]) (?st Exited Exited ?H ?G [res] [res])"
    using stop [of "?st Exited (Grinding 1) ?H ?G [res] [res]" 1 1] by (simp add: ev)
  also have "?S (?st Exited Exited ?H ?G [res] [res]) (?st Exited Exited ?H Exited [res] [res])"
    using stop [of "?st Exited Exited ?H ?G [res] [res]" 3 0] by (simp add: ev)
  also have "?S (?st Exited Exited ?H Exited [res] [res]) (blocked_state res)"
    using report [of "?st Exited Exited ?H Exited [res] [res]" B CheckEncode rnd] reported
    by (simp add: blocked_state_def)
  finally show ?thesis by (simp add: init)
qed

end
