(* ===== verification/Example_Server.thy ===== *)
theory Example_Server
  imports Sv2_Conn Core_Messages Message_Types Step_Systems
begin

text \<open>
  The test server of \<open>src/examples/server/server.go\<close>: \<open>main\<close> makes its keys and a
  certificate, then accepts connections, each handled by a goroutine of its own that
  performs the handshake and reads frames. All goroutines use one \<open>HandshakeState\<close>, and
  \<open>loog.Fatal\<close> in any of them ends the process.

  \<open>serve_conn\<close> is a goroutine after its handshake. \<open>server_step\<close> is the whole server:
  a goroutine moves from one wait to the next, so the goroutine that has reset the
  handshake state waits for the first message of its client while others run. A
  connection holds all that its client sends before it closes its side; the goroutine of
  a client that stays connected is considered apart, over \<open>idle_Read\<close>. A signal ends the
  server. The certificate of the relation is one that was made; with the \<open>nil\<close> of a failed
  signing the first handshake panics. Printing and listening are left out, and so are
  \<open>Accept\<close> errors, which are printed and change nothing.
\<close>

section \<open>Address, keys and certificate\<close>

text \<open>The address to listen on: the flags, which are never \<open>nil\<close>, replace what is built in.\<close>

definition listen_on :: "string \<Rightarrow> u64 \<Rightarrow> string \<times> u16" where
  "listen_on srv port = (srv, ucast port)"

text \<open>\<open>None\<close> in place of the certificate is the \<open>nil\<close> that an ignored error leaves.\<close>

definition server_setup ::
    "(byte list \<Rightarrow> 32 byte_array) \<Rightarrow> ('k, 'q, 'j, 'f) Btcec \<Rightarrow> ('k, 's, 'p) Schnorr \<Rightarrow> 'u random \<Rightarrow> 'u \<Rightarrow>
       (('k, 'q) Keypair \<times> ('k, 'q) Keypair \<times> SIGNATURE_NOISE_MESSAGE option) option" where
  "server_setup H B S rnd \<rho> = do {
     (authKey, \<rho>) \<leftarrow> NewKeypair B rnd \<rho>;
     (staticKey, \<rho>) \<leftarrow> NewKeypair B rnd \<rho>;
     priv \<leftarrow> kp_Private authKey;
     pub \<leftarrow> PublicKey staticKey;
     cert \<leftarrow> NewSignedCertificate H S priv pub 0 65535;
     Some (authKey, staticKey, case cert of Inl err \<Rightarrow> None | Inr m \<Rightarrow> Some m) }"

section \<open>A goroutine after its handshake\<close>

datatype served = Returns | Fatal error

definition stops_quietly :: "error \<Rightarrow> bool" where
  "stops_quietly err \<longleftrightarrow> err = IO_EOF \<or> err = Net_ErrClosed"

partial_function (option) serve_loop ::
    "('r \<Rightarrow> int \<Rightarrow> ((byte list \<times> error option) \<times> 'r) option) \<Rightarrow> ('g, 'k) Noise_Lib \<Rightarrow> ('g, 'r) Sv2Conn \<Rightarrow>
       (served \<times> ('g, 'r) Sv2Conn) option" where
  "serve_loop rd N conn = do {
     (res, conn) \<leftarrow> ReadFrame rd N conn;
     if isl res then Some (if stops_quietly (projl res) then Returns else Fatal (projl res), conn)
     else serve_loop rd N conn }"

text \<open>The answer is built, but nothing sends it.\<close>

definition serve_conn ::
    "('r \<Rightarrow> int \<Rightarrow> ((byte list \<times> error option) \<times> 'r) option) \<Rightarrow> ('g, 'k) Noise_Lib \<Rightarrow> ('g, 'r) Sv2Conn \<Rightarrow>
       (served \<times> ('g, 'r) Sv2Conn) option" where
  "serve_conn rd N conn = do {
     (res, conn) \<leftarrow> ReadFrame rd N conn;
     case res of
       Inl err \<Rightarrow> Some (if stops_quietly err then Returns else Fatal err, conn)
     | Inr frame \<Rightarrow>
       if fr_MessageType frame \<noteq> MessageSetupConnection then Some (Returns, conn)
       else do {
         let (sendFrame, _) = Frame_FromParams SetupConnectionSuccess_Encode zero_Frame
               MessageSetupConnectionSuccess \<lparr>scs_UsedVersion = ProtocolVersion, scs_Flags = 0\<rparr>;
         serve_loop rd N conn } }"

section \<open>The server\<close>

text \<open>A connection: not accepted, waiting for the client's key, past its handshake, or left.\<close>

datatype 'g session = Idle | Hello Duplex | Ready "('g, Duplex) Sv2Conn" | Ended

record 'g server =
  s_hs :: "'g HandshakeState"
  s_sessions :: "nat \<Rightarrow> 'g session"
  s_fatal :: "error option"
  s_stopped :: bool

definition zero_HandshakeState :: "'g HandshakeState" where
  "zero_HandshakeState = \<lparr>hs_cs = None, hs_h = zero_array, hs_ck = zero_array, hs_cert = None,
     hs_serverStatic = zero_array\<rparr>"

definition server_init :: "'g server" where
  "server_init = \<lparr>s_hs = zero_HandshakeState, s_sessions = (\<lambda>_. Idle), s_fatal = None, s_stopped = False\<rparr>"

definition session_to :: "'g server \<Rightarrow> nat \<Rightarrow> 'g session \<Rightarrow> 'g HandshakeState \<Rightarrow> 'g server" where
  "session_to s i x hs = s\<lparr>s_sessions := (s_sessions s)(i := x), s_hs := hs\<rparr>"

definition running :: "'g server \<Rightarrow> bool" where
  "running s \<longleftrightarrow> s_fatal s = None \<and> \<not> s_stopped s"

inductive server_step ::
    "('g, 'k) Noise_Lib \<Rightarrow> ('k, 'q, 'j, 'f) Btcec \<Rightarrow> 'u random \<Rightarrow> SIGNATURE_NOISE_MESSAGE \<Rightarrow>
       ('k, 'q) Keypair \<Rightarrow> 'g server \<Rightarrow> 'g server \<Rightarrow> bool"
  for N B rnd cert staticKey where
  accept: "running s \<Longrightarrow> s_sessions s i = Idle \<Longrightarrow> dx_out rawConn = [] \<Longrightarrow>
    start_handshake N (s_hs s) = Some hs \<Longrightarrow>
    server_step N B rnd cert staticKey s (session_to s i (Hello rawConn) hs)"
| shake: "running s \<Longrightarrow> s_sessions s i = Hello rawConn \<Longrightarrow>
    responder_rest duplex_Read duplex_Write N B rnd (s_hs s) rawConn cert staticKey \<rho> =
      Some (Inr (recv, snd'), hs, rawConn') \<Longrightarrow>
    server_step N B rnd cert staticKey s
      (session_to s i (Ready \<lparr>sv_NetConn = rawConn', sv_Send = snd', sv_Recv = recv\<rparr>) hs)"
| shake_fails: "running s \<Longrightarrow> s_sessions s i = Hello rawConn \<Longrightarrow>
    responder_rest duplex_Read duplex_Write N B rnd (s_hs s) rawConn cert staticKey \<rho> =
      Some (Inl err, hs, rawConn') \<Longrightarrow>
    server_step N B rnd cert staticKey s ((session_to s i Ended hs)\<lparr>s_fatal := Some err\<rparr>)"
| serve: "running s \<Longrightarrow> s_sessions s i = Ready conn \<Longrightarrow>
    serve_conn duplex_Read N conn = Some (Returns, conn') \<Longrightarrow>
    server_step N B rnd cert staticKey s (session_to s i Ended (s_hs s))"
| serve_fails: "running s \<Longrightarrow> s_sessions s i = Ready conn \<Longrightarrow>
    serve_conn duplex_Read N conn = Some (Fatal err, conn') \<Longrightarrow>
    server_step N B rnd cert staticKey s ((session_to s i Ended (s_hs s))\<lparr>s_fatal := Some err\<rparr>)"
| signal: "running s \<Longrightarrow> server_step N B rnd cert staticKey s (s\<lparr>s_stopped := True\<rparr>)"

section \<open>The goroutines only read\<close>

lemma DecryptFrame_keeps_sent:
  assumes "DecryptFrameFromReader duplex_Read A cs r = Some (x, r')"
  shows "dx_out r' = dx_out r"
proof -
  obtain h e r1 where h: "ReadFull duplex_Read r NoiseHeaderSize = Some ((h, e), r1)"
    using assms by (auto simp: DecryptFrameFromReader_def bind_eq_Some_conv)
  note 1 = duplex.ReadFull_sent [OF h]
  show ?thesis
  proof (cases "e \<noteq> None \<or> length h < NoiseHeaderSize")
    case True
    with assms h 1 show ?thesis
      by (auto simp: DecryptFrameFromReader_def split: option.splits)
  next
    case False
    then obtain d cs1 where d: "DecryptWithAd A cs [] h = Some (d, cs1)"
      using assms h by (auto simp: DecryptFrameFromReader_def bind_eq_Some_conv)
    show ?thesis
    proof (cases d)
      case (Inl err)
      with assms h d False 1 show ?thesis by (auto simp: DecryptFrameFromReader_def)
    next
      case (Inr b)
      then obtain f fe p e2 r2 where f: "Frame_DecodeHeader zero_Frame (Some b) = Some (f, fe)"
        and p: "ReadFull duplex_Read r1 (nat (PlainTextLenToCipherTextLen (uint (fr_MessageLength f)))) =
          Some ((p, e2), r2)"
        using assms h d False by (auto simp: DecryptFrameFromReader_def bind_eq_Some_conv Let_def)
      note 2 = duplex.ReadFull_sent [OF p]
      have "r' = r2"
      proof (cases "e2 \<noteq> None \<or>
          int (length p) < PlainTextLenToCipherTextLen (uint (fr_MessageLength f))")
        case True
        with assms h d False Inr f p show ?thesis
          by (auto simp: DecryptFrameFromReader_def Let_def split: option.splits)
      next
        case ok: False
        then obtain d2 cs2 where d2: "DecryptWithAd A cs1 [] p = Some (d2, cs2)"
          using assms h d False Inr f p by (auto simp: DecryptFrameFromReader_def bind_eq_Some_conv Let_def)
        with assms h d False Inr f p ok show ?thesis
          by (cases d2) (auto simp: DecryptFrameFromReader_def Let_def)
      qed
      with 1 2 show ?thesis by simp
    qed
  qed
qed

lemma ReadFrame_keeps_sent:
  assumes "ReadFrame duplex_Read N conn = Some (res, conn')"
  shows "dx_out (sv_NetConn conn') = dx_out (sv_NetConn conn)"
proof -
  obtain x cs r where "DecryptFrameFromReader duplex_Read N (sv_Recv conn) (sv_NetConn conn) = Some ((x, cs), r)"
    using assms by (auto simp: ReadFrame_def bind_eq_Some_conv)
  with assms DecryptFrame_keeps_sent [OF this] show ?thesis
    by (cases x) (auto simp: ReadFrame_def Let_def split: prod.splits)
qed

lemma serve_loop_keeps_sent:
  fixes N :: "('g, 'k) Noise_Lib" and conn :: "('g, Duplex) Sv2Conn"
  assumes "serve_loop duplex_Read N conn = Some y"
  shows "dx_out (sv_NetConn (snd y)) = dx_out (sv_NetConn conn)"
proof -
  have "duplex_Read = duplex_Read \<longrightarrow> dx_out (sv_NetConn (snd y)) = dx_out (sv_NetConn conn)"
  proof (rule serve_loop.raw_induct [where P = "\<lambda>rd (N :: ('g, 'k) Noise_Lib) conn y.
        rd = duplex_Read \<longrightarrow> dx_out (sv_NetConn (snd y)) = dx_out (sv_NetConn conn)"])
    show "serve_loop duplex_Read N conn = Some y" by (rule assms)
  next
    fix loop rd and N :: "('g, 'k) Noise_Lib" and conn y
    assume loop: "\<And>rd (N :: ('g, 'k) Noise_Lib) conn y. loop rd N conn = Some y \<Longrightarrow>
        rd = duplex_Read \<longrightarrow> dx_out (sv_NetConn (snd y)) = dx_out (sv_NetConn conn)"
      and body: "ReadFrame rd N conn \<bind> (\<lambda>(res, conn). if isl res
        then Some (if stops_quietly (projl res) then Returns else Fatal (projl res), conn)
        else loop rd N conn) = Some y"
    from body obtain res c where r: "ReadFrame rd N conn = Some (res, c)"
      by (auto simp: bind_eq_Some_conv)
    show "rd = duplex_Read \<longrightarrow> dx_out (sv_NetConn (snd y)) = dx_out (sv_NetConn conn)"
      using body r loop [of rd N c y] ReadFrame_keeps_sent [of N conn res c] by (cases res) auto
  qed
  then show ?thesis by simp
qed

lemma serve_conn_keeps_sent:
  assumes "serve_conn duplex_Read N conn = Some (out, conn')"
  shows "dx_out (sv_NetConn conn') = dx_out (sv_NetConn conn)"
proof -
  obtain res c where r: "ReadFrame duplex_Read N conn = Some (res, c)"
    using assms by (auto simp: serve_conn_def bind_eq_Some_conv)
  with assms ReadFrame_keeps_sent [OF r] serve_loop_keeps_sent [of N c "(out, conn')"] show ?thesis
    by (cases res) (auto simp: serve_conn_def Let_def split: if_splits prod.splits)
qed

section \<open>The shared handshake state\<close>

lemma hs_cs_mixHash [simp]: "hs_cs (mixHash N hs d) = hs_cs hs"
  by (simp add: mixHash_def)

lemma mixKey_fresh: "mixKey N hs ikm = Some hs' \<Longrightarrow> \<exists>k. hs_cs hs' = Some (fresh_cipher N k)"
proof (cases "hs_cs hs")
  case None
  assume "mixKey N hs ikm = Some hs'"
  with None show ?thesis by (auto simp: mixKey_def HKDF_arrays)
qed (auto simp: mixKey_eq)

lemma responder_rest_ciphers:
  assumes "aead_ok N" and "maxNoiseNonce N \<noteq> 0"
    and run: "responder_rest rd wr N B rnd hs r cert st \<rho> = Some (Inr (recv, snd'), hs', r')"
  shows "\<exists>k k1 k2. hs_cs hs' = Some (used_cipher N k) \<and> recv = fresh_cipher N k1 \<and> snd' = fresh_cipher N k2"
proof -
  obtain re e r1 where 1: "ReadFull rd r 64 = Some ((re, e), r1)"
    using run by (auto simp: responder_rest_def bind_eq_Some_conv)
  then have e: "e = None" using run by (auto simp: responder_rest_def split: option.splits)
  let ?h1 = "mixHash N hs re"
  obtain x h2 where 2: "decryptAndHash N ?h1 [] = Some (x, h2)"
    using run 1 e by (auto simp: responder_rest_def bind_eq_Some_conv)
  then obtain y where y: "x = Inr y" using run 1 e by (cases x) (auto simp: responder_rest_def)
  obtain kp \<rho>' where 3: "NewKeypair B rnd \<rho> = Some (kp, \<rho>')"
    using run 1 e 2 y by (auto simp: responder_rest_def bind_eq_Some_conv)
  let ?h3 = "mixHash N h2 (SerializeEllswiftBytes kp)"
  obtain re' ee h4 c h5 es h6 where 4: "array_of_slice re = Some re'" "ecdh N kp re' False = Some ee"
    "mixKey N ?h3 ee = Some h4" "encryptAndHash N h4 (SerializeEllswiftBytes st) = Some (c, h5)"
    "ecdh N st re' False = Some es" "mixKey N h5 es = Some h6"
    using run 1 e 2 y 3 by (auto simp: responder_rest_def bind_eq_Some_conv Let_def)
  obtain cb where cert: "SIGNATURE_NOISE_MESSAGE_Encode cert = (cb, None)"
    by (simp add: cert_Encode_bytes)
  obtain k where k: "hs_cs h6 = Some (fresh_cipher N k)" using mixKey_fresh [OF 4(6)] ..
  show ?thesis
    using run unfolding responder_rest_def
    by (auto simp: 1 e 2 y 3 4 cert Let_def AndHash_fresh(1) [OF assms(1,2) k] HKDF_arrays
        InitializeKey_eq [OF assms(1)] split: prod.splits)
qed

text \<open>
  A goroutine that finds the state of another, finished handshake cannot read its client's
  key: it tries to decrypt the empty payload that follows it.
\<close>

lemma responder_rest_keyed:
  assumes "aead_ok N" and "hs_cs hs = Some cs" and "keyed cs g" and "cs_n cs \<noteq> maxNoiseNonce N"
    and "concat (dx_in r) = first @ s" and "length first = 64"
  shows "\<exists>err hs' r'. responder_rest duplex_Read duplex_Write N B rnd hs r cert st \<rho> = Some (Inl err, hs', r')"
proof -
  obtain r1 where r1: "ReadFull duplex_Read r 64 = Some ((first, None), r1)"
    using duplex.ReadFull_exact [OF TrueI assms(5,6)] by auto
  obtain e where "aead_Open N g (nonce_bytes (cs_n cs)) [] (array_bytes (hs_h (mixHash N hs first))) = Inl e"
    using assms(1) unfolding aead_ok_def by fastforce
  then have "decryptAndHash N (mixHash N hs first) [] = Some (Inl e, mixHash N hs first)"
    using assms(2-4) keyed_k [OF assms(3)]
    by (cases hs) (simp add: decryptAndHash_def mixHash_def Decrypt_keyed)
  then show ?thesis by (simp add: responder_rest_def r1)
qed

text \<open>A client that leaves before its key is complete.\<close>

lemma responder_rest_short:
  assumes "length (concat (dx_in r)) < 64"
  shows "responder_rest duplex_Read duplex_Write N B rnd hs r cert st \<rho> =
    Some (Inl (if concat (dx_in r) = [] then IO_EOF else IO_ErrUnexpectedEOF), hs, r\<lparr>dx_in := []\<rparr>)"
  using assms duplex_read_loop_short [of "[]" r 64] by (simp add: responder_rest_def ReadFull_def)

section \<open>A goroutine ends\<close>

text \<open>What opens is 16 bytes shorter than its ciphertext, as documented of the AEAD.\<close>

definition open_length :: "('g, 'z) AEAD_scheme \<Rightarrow> bool" where
  "open_length A \<longleftrightarrow> (\<forall>g n c ad p. aead_Open A g n c ad = Inr p \<longrightarrow> length p + 16 = length c)"

lemma DecodeHeader_total:
  "6 \<le> length b \<Longrightarrow> \<exists>f' e. Frame_DecodeHeader f (Some b) = Some (f', e)"
  by (simp add: Frame_DecodeHeader_def Let_def NewBinaryReader_cursor ReadU16_cursor ReadU8_cursor
      ReadU24_cursor)

lemma Decrypt_total:
  assumes "keyed cs g"
  shows "\<exists>res cs'. DecryptWithAd A cs ad c = Some (res, cs') \<and> keyed cs' g \<and>
    (\<forall>p. open_length A \<longrightarrow> res = Inr p \<longrightarrow> length p + 16 = length c)"
proof (cases "cs_n cs = maxNoiseNonce A")
  case True
  then show ?thesis using assms keyed_k [OF assms] by (simp add: DecryptWithAd_def)
next
  case False
  then show ?thesis
    using assms Decrypt_keyed [OF assms, of A ad c]
    by (cases "aead_Open A g (nonce_bytes (cs_n cs)) c ad") (auto simp: open_length_def)
qed

lemma DecryptFrame_total:
  assumes "open_length A" and "keyed cs g"
  shows "\<exists>res cs' r'. DecryptFrameFromReader duplex_Read A cs r = Some ((res, cs'), r') \<and> keyed cs' g \<and>
    (\<not> isl res \<longrightarrow> length (concat (dx_in r')) < length (concat (dx_in r)))"
proof -
  obtain h e r1 where h: "ReadFull duplex_Read r NoiseHeaderSize = Some ((h, e), r1)"
    and h1: "e = None \<Longrightarrow> length h = NoiseHeaderSize \<and> concat (dx_in r) = h @ concat (dx_in r1)"
    using duplex_ReadFull_total by blast
  obtain d cs1 where d: "DecryptWithAd A cs [] h = Some (d, cs1)" "keyed cs1 g"
    "\<And>p. d = Inr p \<Longrightarrow> length p + 16 = length h"
    using Decrypt_total [OF assms(2)] assms(1) by blast
  show ?thesis
  proof (cases "e = None \<and> (\<exists>b. d = Inr b)")
    case False
    then show ?thesis
      using h h1 d assms(2) by (cases d; cases e) (auto simp: DecryptFrameFromReader_def)
  next
    case True
    then obtain b where b: "d = Inr b" "e = None" by blast
    with d(3) h1 obtain f fe where f: "Frame_DecodeHeader zero_Frame (Some b) = Some (f, fe)"
      using DecodeHeader_total [of b zero_Frame] by (auto simp: NoiseHeaderSize_def)
    let ?l = "PlainTextLenToCipherTextLen (uint (fr_MessageLength f))"
    obtain p e2 r2 where p: "ReadFull duplex_Read r1 (nat ?l) = Some ((p, e2), r2)"
      and p1: "e2 = None \<Longrightarrow> length p = nat ?l \<and> concat (dx_in r1) = p @ concat (dx_in r2)"
      using duplex_ReadFull_total by blast
    obtain d2 cs2 where d2: "DecryptWithAd A cs1 [] p = Some (d2, cs2)" "keyed cs2 g"
      using Decrypt_total [OF d(2)] by blast
    show ?thesis
      using h h1 d b f p p1 d2
      by (cases d2; cases e2) (auto simp: DecryptFrameFromReader_def NoiseHeaderSize_def Let_def)
  qed
qed

lemma ReadFrame_total:
  assumes "open_length N" and "keyed (sv_Recv conn) g"
  shows "\<exists>res c'. ReadFrame duplex_Read N conn = Some (res, c') \<and> keyed (sv_Recv c') g \<and>
    (\<not> isl res \<longrightarrow> length (concat (dx_in (sv_NetConn c'))) < length (concat (dx_in (sv_NetConn conn))))"
proof -
  obtain res cs r' where "DecryptFrameFromReader duplex_Read N (sv_Recv conn) (sv_NetConn conn) =
      Some ((res, cs), r')" "keyed cs g"
    "\<not> isl res \<longrightarrow> length (concat (dx_in r')) < length (concat (dx_in (sv_NetConn conn)))"
    using DecryptFrame_total [OF assms] by blast
  then show ?thesis by (cases res) (auto simp: ReadFrame_def Let_def split: prod.split)
qed

lemma serve_loop_returns:
  assumes "open_length N"
  shows "keyed (sv_Recv conn) g \<Longrightarrow> \<exists>y. serve_loop duplex_Read N conn = Some y"
proof (induction "length (concat (dx_in (sv_NetConn conn)))" arbitrary: conn rule: less_induct)
  case less
  obtain res c where r: "ReadFrame duplex_Read N conn = Some (res, c)" "keyed (sv_Recv c) g"
    "\<not> isl res \<longrightarrow> length (concat (dx_in (sv_NetConn c))) < length (concat (dx_in (sv_NetConn conn)))"
    using ReadFrame_total [OF assms less.prems] by blast
  with less.hyps [of c] show ?case by (subst serve_loop.simps) (cases res; simp)
qed

lemma serve_conn_returns:
  assumes "open_length N" and "keyed (sv_Recv conn) g"
  shows "\<exists>out conn'. serve_conn duplex_Read N conn = Some (out, conn')"
proof -
  obtain res c where r: "ReadFrame duplex_Read N conn = Some (res, c)" "keyed (sv_Recv c) g"
    using ReadFrame_total [OF assms] by blast
  with serve_loop_returns [OF assms(1) r(2)] show ?thesis
    by (cases res) (auto simp: serve_conn_def Let_def split: prod.split)
qed

section \<open>A client's frames are read to the end\<close>

fun sealed_frames :: "('g, 'z) AEAD_scheme \<Rightarrow> 'g \<Rightarrow> u64 \<Rightarrow> Frame list \<Rightarrow> byte list" where
  "sealed_frames A g n [] = []"
| "sealed_frames A g n (f # fs) = sealed_frame A g n f @ sealed_frames A g (n + 2) fs"

definition nonces_for :: "('g, 'z) AEAD_scheme \<Rightarrow> u64 \<Rightarrow> nat \<Rightarrow> bool" where
  "nonces_for A n k \<longleftrightarrow> (\<forall>i < 2 * k. n + word_of_nat i \<noteq> maxNoiseNonce A)"

lemma nonces_for_Suc:
  assumes "nonces_for A n (Suc k)"
  shows "n \<noteq> maxNoiseNonce A" "n + 1 \<noteq> maxNoiseNonce A" "nonces_for A (n + 2) k"
proof -
  have all: "n + word_of_nat i \<noteq> maxNoiseNonce A" if "i < 2 * Suc k" for i
    using assms that by (simp add: nonces_for_def)
  show "n \<noteq> maxNoiseNonce A" "n + 1 \<noteq> maxNoiseNonce A" using all [of 0] all [of 1] by simp_all
  have "n + 2 + word_of_nat i \<noteq> maxNoiseNonce A" if "i < 2 * k" for i
    using all [of "i + 2"] that by (simp add: ac_simps)
  then show "nonces_for A (n + 2) k" by (simp add: nonces_for_def)
qed

lemma ReadFrame_EOF:
  assumes "concat (dx_in (sv_NetConn conn)) = []"
  shows "\<exists>c'. ReadFrame duplex_Read N conn = Some (Inl IO_EOF, c') \<and> dx_in (sv_NetConn c') = []"
  using duplex_read_loop_short [of "[]" "sv_NetConn conn" NoiseHeaderSize, unfolded assms]
  by (simp add: ReadFrame_def DecryptFrameFromReader_def ReadFull_def NoiseHeaderSize_def)

text \<open>\<open>ReadFrame\<close> gives these frames one after the other, then the end of the input.\<close>

fun reads_frames :: "('g, 'k) Noise_Lib \<Rightarrow> ('g, Duplex) Sv2Conn \<Rightarrow> Frame list \<Rightarrow> bool" where
  "reads_frames N conn [] = (\<exists>c. ReadFrame duplex_Read N conn = Some (Inl IO_EOF, c))"
| "reads_frames N conn (f # fs) = (\<exists>c. ReadFrame duplex_Read N conn = Some (Inr f, c) \<and> reads_frames N c fs)"

lemma sealed_reads_frames:
  assumes "aead_ok N"
  shows "keyed (sv_Recv conn) g \<Longrightarrow> list_all one_chunk fs \<Longrightarrow> nonces_for N (cs_n (sv_Recv conn)) (length fs) \<Longrightarrow>
    concat (dx_in (sv_NetConn conn)) = sealed_frames N g (cs_n (sv_Recv conn)) fs \<Longrightarrow> reads_frames N conn fs"
proof (induction fs arbitrary: conn)
  case Nil
  then show ?case using ReadFrame_EOF [of conn N] by auto
next
  case (Cons f fs)
  note n = nonces_for_Suc [OF Cons.prems(3) [simplified]]
  obtain c where c: "ReadFrame duplex_Read N conn = Some (Inr f, c)"
    "sv_Recv c = (sv_Recv conn)\<lparr>cs_n := cs_n (sv_Recv conn) + 2\<rparr>"
    "concat (dx_in (sv_NetConn c)) = sealed_frames N g (cs_n (sv_Recv conn) + 2) fs"
    using ReadFrame_ok [OF assms Cons.prems(1), of f "sealed_frames N g (cs_n (sv_Recv conn) + 2) fs"]
      Cons.prems(2,4) n by (auto simp: nonces_left_def)
  have "reads_frames N c fs" using Cons.prems(1,2) n(3) c by (intro Cons.IH) simp_all
  with c(1) show ?case by auto
qed

lemma serve_loop_reads: "reads_frames N conn fs \<Longrightarrow> \<exists>c'. serve_loop duplex_Read N conn = Some (Returns, c')"
proof (induction fs arbitrary: conn)
  case Nil
  then show ?case by (subst serve_loop.simps) (auto simp: stops_quietly_def)
next
  case (Cons f fs)
  then show ?case by (subst serve_loop.simps) auto
qed

lemma serve_conn_reads:
  assumes "reads_frames N conn (f # fs)" and "fr_MessageType f = MessageSetupConnection"
  shows "\<exists>c'. serve_conn duplex_Read N conn = Some (Returns, c')"
proof -
  obtain c where c: "ReadFrame duplex_Read N conn = Some (Inr f, c)" "reads_frames N c fs"
    using assms(1) by auto
  from serve_loop_reads [OF c(2)] c(1) assms(2) show ?thesis
    by (auto simp: serve_conn_def Let_def split: prod.split)
qed

section \<open>A client that stays\<close>

text \<open>
  No read has a deadline: after the frames of a client that neither sends more nor closes,
  the goroutine waits.
\<close>

lemma idle_ReadFrame_waits:
  assumes "concat (dx_in (sv_NetConn conn)) = []"
  shows "ReadFrame idle_Read N conn = None"
  using idle_read_loop_waits [of "[]" "sv_NetConn conn" NoiseHeaderSize, unfolded assms]
  by (simp add: ReadFrame_def DecryptFrameFromReader_def ReadFull_def NoiseHeaderSize_def)

lemma idle_ReadFrame_next:
  assumes "aead_ok N" and "keyed (sv_Recv conn) g" and "list_all one_chunk (f # fs)"
    and "nonces_for N (cs_n (sv_Recv conn)) (length (f # fs))"
    and "concat (dx_in (sv_NetConn conn)) = sealed_frames N g (cs_n (sv_Recv conn)) (f # fs)"
  obtains c where "ReadFrame idle_Read N conn = Some (Inr f, c)" and "keyed (sv_Recv c) g"
    and "nonces_for N (cs_n (sv_Recv c)) (length fs)"
    and "concat (dx_in (sv_NetConn c)) = sealed_frames N g (cs_n (sv_Recv c)) fs"
proof -
  note n = nonces_for_Suc [OF assms(4) [simplified]]
  have "nonces_left N (sv_Recv conn)" "one_chunk f" using n assms(3) by (simp_all add: nonces_left_def)
  from idle.ReadFrame_back [OF assms(1,2) this TrueI, of "sealed_frames N g (cs_n (sv_Recv conn) + 2) fs"]
  obtain c where "ReadFrame idle_Read N conn = Some (Inr f, c)"
    "sv_Recv c = (sv_Recv conn)\<lparr>cs_n := cs_n (sv_Recv conn) + 2\<rparr>"
    "concat (dx_in (sv_NetConn c)) = sealed_frames N g (cs_n (sv_Recv conn) + 2) fs"
    using assms(5) by auto
  with assms(2) n(3) show thesis by (intro that [of c]) simp_all
qed

lemma serve_loop_waits:
  assumes "aead_ok N"
  shows "keyed (sv_Recv conn) g \<Longrightarrow> list_all one_chunk fs \<Longrightarrow> nonces_for N (cs_n (sv_Recv conn)) (length fs) \<Longrightarrow>
    concat (dx_in (sv_NetConn conn)) = sealed_frames N g (cs_n (sv_Recv conn)) fs \<Longrightarrow>
    serve_loop idle_Read N conn = None"
proof (induction fs arbitrary: conn)
  case Nil
  then show ?case by (subst serve_loop.simps) (simp add: idle_ReadFrame_waits)
next
  case (Cons f fs)
  obtain c where "ReadFrame idle_Read N conn = Some (Inr f, c)" "keyed (sv_Recv c) g"
    "nonces_for N (cs_n (sv_Recv c)) (length fs)"
    "concat (dx_in (sv_NetConn c)) = sealed_frames N g (cs_n (sv_Recv c)) fs"
    using idle_ReadFrame_next [OF assms Cons.prems] .
  with Cons.IH [of c] Cons.prems(2) show ?case by (subst serve_loop.simps) simp
qed

lemma serve_conn_waits:
  assumes "aead_ok N" and "keyed (sv_Recv conn) g" and "list_all one_chunk (f # fs)"
    and "nonces_for N (cs_n (sv_Recv conn)) (length (f # fs))"
    and "concat (dx_in (sv_NetConn conn)) = sealed_frames N g (cs_n (sv_Recv conn)) (f # fs)"
    and "fr_MessageType f = MessageSetupConnection"
  shows "serve_conn idle_Read N conn = None"
proof -
  obtain c where c: "ReadFrame idle_Read N conn = Some (Inr f, c)" "keyed (sv_Recv c) g"
    "nonces_for N (cs_n (sv_Recv c)) (length fs)"
    "concat (dx_in (sv_NetConn c)) = sealed_frames N g (cs_n (sv_Recv c)) fs"
    using idle_ReadFrame_next [OF assms(1-5)] .
  then show ?thesis
    using serve_loop_waits [OF assms(1) c(2) _ c(3,4)] assms(3)
    by (simp add: serve_conn_def assms(6) Let_def split: prod.split)
qed

section \<open>Runs of the server\<close>

text \<open>
  While the server lives, the shared state is untouched, reset, or left by a finished
  handshake, and every connection past its handshake has fresh keys.
\<close>

definition server_inv :: "('g, 'k) Noise_Lib \<Rightarrow> 'g server \<Rightarrow> bool" where
  "server_inv N s \<longleftrightarrow> (aead_ok N \<and> maxNoiseNonce N \<noteq> 0 \<and> s_fatal s = None \<longrightarrow>
     (hs_cs (s_hs s) = None \<or> hs_cs (s_hs s) = Some zero_CipherState \<or>
       (\<exists>k. hs_cs (s_hs s) = Some (used_cipher N k))) \<and>
     (\<forall>i conn. s_sessions s i = Ready conn \<longrightarrow>
        (\<exists>k1 k2. sv_Recv conn = fresh_cipher N k1 \<and> sv_Send conn = fresh_cipher N k2)))"

lemma server_inv_step:
  assumes "server_inv N s" and "server_step N B rnd cert st s t"
  shows "server_inv N t"
  using assms(2,1)
proof cases
  case (shake i rawConn \<rho> recv snd' hs rawConn')
  show ?thesis
  proof (cases "aead_ok N \<and> maxNoiseNonce N \<noteq> 0")
    case True
    with shake obtain k k1 k2 where "hs_cs hs = Some (used_cipher N k)" "recv = fresh_cipher N k1"
      "snd' = fresh_cipher N k2" using responder_rest_ciphers by metis
    with shake assms(1) show ?thesis by (auto simp: server_inv_def session_to_def running_def)
  qed (auto simp: server_inv_def)
qed (auto simp: server_inv_def session_to_def start_handshake_eq running_def)

interpretation server: invariant_system server_init "server_step N B rnd cert st" "server_inv N"
  for N B rnd cert st
  by unfold_locales (simp add: server_inv_def server_init_def zero_HandshakeState_def, rule server_inv_step)

lemma used_keyed:
  assumes "aead_ok N"
  shows "\<exists>g. keyed (used_cipher N k) g \<and> cs_n (used_cipher N k) = 1"
  using fresh_keyed(1) [OF assms, of k] by (auto simp: used_cipher_def)

lemma ready_keyed:
  assumes "aead_ok N" and "maxNoiseNonce N \<noteq> 0"
    and "(server_step N B rnd cert st)\<^sup>*\<^sup>* server_init s" and "running s" and "s_sessions s i = Ready conn"
  shows "\<exists>g. keyed (sv_Recv conn) g" and "cs_n (sv_Recv conn) = 0"
proof -
  obtain k where "sv_Recv conn = fresh_cipher N k"
    using server.reachable_inv [OF assms(3)] assms(1,2,4,5) by (auto simp: server_inv_def running_def)
  then show "\<exists>g. keyed (sv_Recv conn) g" and "cs_n (sv_Recv conn) = 0"
    using fresh_keyed [OF assms(1), of k] by auto
qed

text \<open>A client is accepted and its handshake finishes, in two steps of the server.\<close>

definition shakes_hands ::
    "('g, 'k) Noise_Lib \<Rightarrow> ('k, 'q, 'j, 'f) Btcec \<Rightarrow> 'u random \<Rightarrow> SIGNATURE_NOISE_MESSAGE \<Rightarrow>
       ('k, 'q) Keypair \<Rightarrow> 'g server \<Rightarrow> nat \<Rightarrow> Duplex \<Rightarrow> ('g, Duplex) Sv2Conn \<Rightarrow> 'g server \<Rightarrow> bool" where
  "shakes_hands N B rnd cert st s i dx c t \<longleftrightarrow>
     (\<exists>u. server_step N B rnd cert st s u \<and> s_sessions u = (s_sessions s)(i := Hello dx) \<and>
        server_step N B rnd cert st u t \<and> s_sessions t = (s_sessions s)(i := Ready c))"

text \<open>
  The client that draws its key at \<open>\<rho>\<close> finishes its side of the handshake on what the
  server has sent it, with the cipher states that the server holds for it.
\<close>

definition agrees_with ::
    "('g, 'k) Noise_Lib \<Rightarrow> ('k, 'q, 'j, 'f) Btcec \<Rightarrow> 'u random \<Rightarrow> 'u \<Rightarrow> ('g, Duplex) Sv2Conn \<Rightarrow> bool" where
  "agrees_with N B rnd \<rho> c \<longleftrightarrow>
     (\<forall>rI. concat (dx_in rI) = dx_out (sv_NetConn c) \<longrightarrow>
       (\<exists>hs rI'. PerformHandshakeInitiator duplex_Read duplex_Write N B rnd zero_HandshakeState rI \<rho> =
          Some (Inr (sv_Recv c, sv_Send c), hs, rI')))"

lemma shake_started:
  fixes dx :: Duplex
  assumes "responds N B rnd \<rho> cert st first tr" and "concat (dx_in dx) = first @ r"
    and "start_handshake N hs0 = Some hs"
  shows "\<exists>dx'. responder_rest duplex_Read duplex_Write N B rnd hs dx cert st \<rho> =
      Some (Inr (transport N tr), finished hs0 tr, dx') \<and>
    dx_out dx' = dx_out dx @ tr_reply tr \<and> concat (dx_in dx') = r"
  using assms(1) [unfolded responds_def, rule_format, OF assms(2), of hs0] assms(3)
  by (simp add: PerformHandshakeResponder_def)

lemma initiates_agrees:
  assumes "initiates N B rnd \<rho> cert st first tr" and "dx_out (sv_NetConn c) = tr_reply tr"
    and "(sv_Recv c, sv_Send c) = transport N tr"
  shows "agrees_with N B rnd \<rho> c"
  unfolding agrees_with_def
proof (intro allI impI)
  fix rI :: Duplex assume "concat (dx_in rI) = dx_out (sv_NetConn c)"
  then have "concat (dx_in rI) = tr_reply tr @ []" using assms(2) by simp
  from assms(1) [unfolded initiates_def, rule_format, OF this, of zero_HandshakeState]
  show "\<exists>hs rI'. PerformHandshakeInitiator duplex_Read duplex_Write N B rnd zero_HandshakeState rI \<rho> =
      Some (Inr (sv_Recv c, sv_Send c), hs, rI')" unfolding assms(3) by blast
qed

lemma accept_and_shake:
  fixes dx :: Duplex
  assumes "responds N B rnd \<rho> cert st first tr" and "initiates N B rnd \<rho>c cert st first tr"
    and "concat (dx_in dx) = first" and "dx_out dx = []" and "running s" and "s_sessions s i = Idle"
  shows "\<exists>c t. shakes_hands N B rnd cert st s i dx c t \<and> running t \<and> agrees_with N B rnd \<rho>c c"
proof -
  obtain hs where hs: "start_handshake N (s_hs s) = Some hs" by (simp add: start_handshake_eq)
  have "concat (dx_in dx) = first @ []" using assms(3) by simp
  from shake_started [OF assms(1) this hs] obtain dx' where
    dx': "responder_rest duplex_Read duplex_Write N B rnd hs dx cert st \<rho> =
      Some (Inr (transport N tr), finished (s_hs s) tr, dx')" "dx_out dx' = tr_reply tr"
    using assms(4) by auto
  let ?u = "session_to s i (Hello dx) hs"
  obtain c1 c2 where c: "transport N tr = (c1, c2)" by fastforce
  let ?c = "\<lparr>sv_NetConn = dx', sv_Send = c2, sv_Recv = c1\<rparr>"
  let ?t = "session_to ?u i (Ready ?c) (finished (s_hs s) tr)"
  have "server_step N B rnd cert st s ?u" by (rule accept [OF assms(5,6,4) hs])
  moreover have "server_step N B rnd cert st ?u ?t"
    using dx' assms(5) c by (intro shake [where \<rho> = \<rho>]) (auto simp: session_to_def running_def)
  ultimately have "shakes_hands N B rnd cert st s i dx ?c ?t"
    unfolding shakes_hands_def by (intro exI [of _ ?u]) (simp add: session_to_def)
  moreover have "running ?t" using assms(5) by (simp add: session_to_def running_def)
  moreover have "agrees_with N B rnd \<rho>c ?c" using initiates_agrees [OF assms(2), of ?c] dx'(2) c by simp
  ultimately show ?thesis by blast
qed

lemma shakes_hands_reached: "shakes_hands N B rnd cert st s i dx c t \<Longrightarrow> (server_step N B rnd cert st)\<^sup>*\<^sup>* s t"
  unfolding shakes_hands_def by (meson converse_rtranclp_into_rtranclp rtranclp.rtrancl_refl)

text \<open>
  A client that waits while another handshake finishes: when its key is there, its goroutine
  can only end the process.
\<close>

lemma waiting_client_is_fatal:
  assumes "aead_ok N" and "maxNoiseNonce N \<noteq> 1" and "running s" and "s_sessions s i = Hello dx"
    and "hs_cs (s_hs s) = Some (used_cipher N k)" and "concat (dx_in dx) = first @ r" and "length first = 64"
  shows "\<exists>t. server_step N B rnd cert st s t \<and> s_sessions t i = Ended"
    and "server_step N B rnd cert st s t \<Longrightarrow> s_sessions t i \<noteq> Hello dx \<Longrightarrow> s_fatal t \<noteq> None"
proof -
  obtain g where g: "keyed (used_cipher N k) g" "cs_n (used_cipher N k) \<noteq> maxNoiseNonce N"
    using used_keyed [OF assms(1), of k] assms(2) by auto
  note fails = responder_rest_keyed [OF assms(1,5) g assms(6,7), of B rnd cert st]
  obtain err hs' dx' where
    "responder_rest duplex_Read duplex_Write N B rnd (s_hs s) dx cert st undefined = Some (Inl err, hs', dx')"
    using fails [of undefined] by blast
  from shake_fails [OF assms(3,4) this] show "\<exists>t. server_step N B rnd cert st s t \<and> s_sessions t i = Ended"
    by (fastforce simp: session_to_def)
  assume step: "server_step N B rnd cert st s t" and moved: "s_sessions t i \<noteq> Hello dx"
  from step show "s_fatal t \<noteq> None"
  proof cases
    case (shake j rawConn \<rho> recv snd' hs rawConn')
    then have "j = i" using moved assms(4) by (auto simp: session_to_def split: if_splits)
    with shake fails [of \<rho>] assms(4) show ?thesis by auto
  qed (use moved assms(4) in \<open>auto simp: session_to_def split: if_splits\<close>)
qed

lemma two_clients_together:
  fixes N :: "('g, 'k) Noise_Lib" and dx1 dx2 :: Duplex
  assumes "aead_ok N" and "maxNoiseNonce N \<noteq> 0" and "maxNoiseNonce N \<noteq> 1"
    and "responds N B rnd \<rho> cert st first2 tr" and "initiates N B rnd \<rho>c cert st first2 tr"
    and "concat (dx_in dx1) = first1 @ r1" and "length first1 = 64" and "concat (dx_in dx2) = first2 @ r2"
    and "dx_out dx1 = []" and "dx_out dx2 = []"
  shows "\<exists>s c. (server_step N B rnd cert st)\<^sup>*\<^sup>* server_init s \<and> running s \<and>
    s_sessions s = (s_sessions server_init)(0 := Hello dx1, 1 := Ready c) \<and> agrees_with N B rnd \<rho>c c \<and>
    (\<exists>t. server_step N B rnd cert st s t \<and> s_sessions t 0 = Ended) \<and>
    (\<forall>t. server_step N B rnd cert st s t \<and> s_sessions t 0 \<noteq> Hello dx1 \<longrightarrow> s_fatal t \<noteq> None)"
proof -
  let ?S = "server_step N B rnd cert st"
  obtain hs1 :: "'g HandshakeState" where hs1: "start_handshake N (s_hs server_init) = Some hs1" by (simp add: start_handshake_eq)
  let ?s1 = "session_to server_init 0 (Hello dx1) hs1"
  have s1: "?S server_init ?s1"
    by (rule accept [OF _ _ assms(9) hs1]) (simp_all add: server_init_def running_def)
  obtain hs2 where hs2: "start_handshake N hs1 = Some hs2" by (simp add: start_handshake_eq)
  let ?s2 = "session_to ?s1 1 (Hello dx2) hs2"
  have s2: "?S ?s1 ?s2"
    by (rule accept [OF _ _ assms(10)]) (simp_all add: server_init_def running_def session_to_def hs2)
  obtain dx' where dx': "responder_rest duplex_Read duplex_Write N B rnd hs2 dx2 cert st \<rho> =
      Some (Inr (transport N tr), finished hs1 tr, dx')" "dx_out dx' = dx_out dx2 @ tr_reply tr"
    using shake_started [OF assms(4,8) hs2] by blast
  obtain k where k: "hs_cs (finished hs1 tr) = Some (used_cipher N k)"
    using responder_rest_ciphers [OF assms(1,2)] dx'(1) by (metis prod.collapse)
  let ?c = "\<lparr>sv_NetConn = dx', sv_Send = snd (transport N tr), sv_Recv = fst (transport N tr)\<rparr>"
  let ?s3 = "session_to ?s2 1 (Ready ?c) (finished hs1 tr)"
  have s3: "?S ?s2 ?s3"
    using dx' by (intro shake [where \<rho> = \<rho>]) (auto simp: session_to_def server_init_def running_def)
  have run: "running ?s3" "s_sessions ?s3 0 = Hello dx1" "hs_cs (s_hs ?s3) = Some (used_cipher N k)"
    by (simp_all add: session_to_def server_init_def running_def k)
  have "s_sessions ?s3 = (s_sessions server_init)(0 := Hello dx1, 1 := Ready ?c)"
    by (auto simp: session_to_def)
  moreover have "agrees_with N B rnd \<rho>c ?c" using dx'(2) assms(10) by (intro initiates_agrees [OF assms(5)]) simp_all
  moreover have "?S\<^sup>*\<^sup>* server_init ?s3"
    using s1 s2 s3 by (meson converse_rtranclp_into_rtranclp rtranclp.rtrancl_refl)
  moreover note run(1) waiting_client_is_fatal [OF assms(1,3) run assms(6,7), of B rnd cert st]
  ultimately show ?thesis by blast
qed

end
