(* ===== verification/Example_Logger.thy ===== *)
theory Example_Logger
  imports Example_Server Mining_Messages U256_Arith
begin

text \<open>
  The test client of \<open>src/examples/logger/logger.go\<close>: it connects, checks the server's
  certificate when it was given an authority, opens a channel and closes it on a signal,
  while a goroutine reads what arrives.

  The values of the command line come as a record. Addresses are a package outside the
  repository: what parses and prints them is a parameter. \<open>client_connect\<close> is \<open>main\<close> up
  to the certificate check; \<open>logger_step\<close> is the rest, in which \<open>main\<close> and the reading
  goroutine move by turns from one read or write to the next. What the server will ever
  send is in the connection from the start. \<open>chanid\<close> is an \<open>int\<close> of 64 bits, which holds
  every channel number. \<open>main\<close> reads it twice, to test it and for the message, and the
  goroutine may write it in between; the goroutine uses nothing that the writing of the
  message touches, so the second read and the write are one step. Printing is left out.
\<close>

section \<open>Options and messages\<close>

record Options =
  o_server :: string
  o_port :: u64
  o_authority :: string
  o_address :: string

definition default_Options :: Options where
  "default_Options = \<lparr>o_server = ''127.0.0.1'', o_port = 5661, o_authority = [], o_address = []\<rparr>"

record 'a Settings =
  cfg_poolhost :: string
  cfg_poolport :: u16
  cfg_authkey :: string
  cfg_addr :: "'a option"

text \<open>The values that the variables start with. The errors of the address are dropped; it is \<open>nil\<close> then.\<close>

definition builtin_Settings :: "(byte list \<Rightarrow> 'a option) \<Rightarrow> 'a Settings" where
  "builtin_Settings NewAddressTaproot =
     (let b = (case hex_DecodeString ''8033d13ee81500afe03a9f48ed142b15724816dd9247c9cf55ae447a5b867449'' of
            None \<Rightarrow> [] | Some b \<Rightarrow> b)
      in \<lparr>cfg_poolhost = ''91.98.76.244'', cfg_poolport = 3336,
          cfg_authkey = ''9ankJhx4JpKeJd7xHzPVM98kU1WppT45Pbp3LfeKVdyt5bYgBY8'',
          cfg_addr = NewAddressTaproot b\<rparr>)"

text \<open>
  The flag values are never \<open>nil\<close>, so host, port and key always replace the built-in ones;
  the address does when it is not empty. The error of \<open>DecodeAddress\<close> is dropped.
\<close>

definition configure :: "(string \<Rightarrow> 'a option) \<Rightarrow> 'a Settings \<Rightarrow> Options \<Rightarrow> 'a Settings" where
  "configure DecodeAddress cfg opts =
     (let cfg = cfg\<lparr>cfg_poolhost := o_server opts\<rparr>;
          cfg = cfg\<lparr>cfg_poolport := ucast (o_port opts)\<rparr>;
          cfg = cfg\<lparr>cfg_authkey := o_authority opts\<rparr>
      in if o_address opts \<noteq> [] then cfg\<lparr>cfg_addr := DecodeAddress (o_address opts)\<rparr> else cfg)"

definition maxtarget :: U256 where
  "maxtarget = fst (SetString zero_array
     ''00000000FFFFFFFFFFFFFFFFFFFFFFFFFFFFFFFFFFFFFFFFFFFFFFFFFFFFFFFF'')"

definition newReqID :: "u32 \<Rightarrow> u32 \<times> u32" where
  "newReqID reqid = (reqid + 1, reqid + 1)"

definition setupmsg :: "'a Settings \<Rightarrow> SetupConnection" where
  "setupmsg cfg = \<lparr>sc_Protocol = MiningProtocol, sc_MinVersion = ProtocolVersion,
     sc_MaxVersion = ProtocolVersion, sc_Flags = RequiresVersionRollingFlag,
     sc_EndpointPort = cfg_poolport cfg, sc_EndpointHost = cfg_poolhost cfg, sc_DeviceVendor = ''0xf0xx0'',
     sc_DeviceHardwareVersion = ''logger.go'',
     sc_DeviceFirmware = ''git.0xf0xx0.eth.limo/0xf0xx0/stratumv2'', sc_DeviceID = ''paws''\<rparr>"

text \<open>\<open>float32(1e12)\<close> by its bits. A \<open>nil\<close> address panics.\<close>

definition openchanmsg :: "('a \<Rightarrow> string) \<Rightarrow> 'a Settings \<Rightarrow> u32 \<Rightarrow> OpenExtendedMiningChannel option" where
  "openchanmsg EncodeAddress cfg reqid = do {
     a \<leftarrow> cfg_addr cfg;
     Some \<lparr>omc_RequestID = fst (newReqID reqid), omc_UserIdentity = EncodeAddress a @ ''.sv2-logger'',
       omc_NominalHashRate = Float32frombits 0x5368d4a5, omc_MaxTarget = maxtarget,
       oemc_MinExtranonceSize = 1\<rparr> }"

definition closemsg :: "int \<Rightarrow> CloseChannel" where
  "closemsg chanid = \<lparr>cc_ChannelID = word_of_int chanid,
     cc_ReasonCode = ''ubisoft go steamworks bye bye, always on drm''\<rparr>"

text \<open>A frame whose error is dropped: \<open>nil\<close> when there was one.\<close>

definition frame_or_nil :: "('m \<Rightarrow> byte list \<times> error option) \<Rightarrow> u8 \<Rightarrow> 'm \<Rightarrow> Frame option" where
  "frame_or_nil Encode messageType m =
     (case NewFrameFromParams Encode messageType ExtensionTypeCore m of Inl err \<Rightarrow> None | Inr f \<Rightarrow> Some f)"

definition logger_frames :: "('a \<Rightarrow> string) \<Rightarrow> 'a Settings \<Rightarrow> Frame option list option" where
  "logger_frames EncodeAddress cfg = do {
     openchan \<leftarrow> openchanmsg EncodeAddress cfg 0;
     Some [frame_or_nil SetupConnection_Encode MessageSetupConnection (setupmsg cfg),
           frame_or_nil OpenExtendedMiningChannel_Encode MessageOpenExtendedMiningChannel openchan] }"

section \<open>Connecting\<close>

definition client_connect ::
    "('r \<Rightarrow> int \<Rightarrow> ((byte list \<times> error option) \<times> 'r) option) \<Rightarrow>
     ('r \<Rightarrow> byte list \<Rightarrow> (nat \<times> error option) \<times> 'r) \<Rightarrow>
     ('f \<Rightarrow> 'f \<Rightarrow> error + 'f) \<Rightarrow> (string \<Rightarrow> error + byte list \<times> u8) \<Rightarrow>
     ('g, 'k) Noise_Lib \<Rightarrow> ('k, 'q, 'j, 'f) Btcec \<Rightarrow> ('k, 's, 'p) Schnorr \<Rightarrow> 'u random \<Rightarrow> int \<Rightarrow> string \<Rightarrow> 'r \<Rightarrow> 'u \<Rightarrow>
     (error + ('g, 'r) Sv2Conn) option" where
  "client_connect rd wr XSwiftEC CheckDecode N B S rnd now authkey rawConn \<rho> = do {
     (res, clientPaw, rawConn) \<leftarrow> PerformHandshakeInitiator rd wr N B rnd zero_HandshakeState rawConn \<rho>;
     case res of
       Inl err \<Rightarrow> Some (Inl err)
     | Inr (send, recv) \<Rightarrow>
       let conn = \<lparr>sv_NetConn = rawConn, sv_Send = send, sv_Recv = recv\<rparr>
       in if authkey = [] then Some (Inr conn)
          else do {
            key \<leftarrow> DeserializeAuthorityKey CheckDecode authkey;
            case key of
              Inl err \<Rightarrow> Some (Inl err)
            | Inr authorityPubkey \<Rightarrow> do {
                pk \<leftarrow> array_of_slice authorityPubkey;
                (valid, err) \<leftarrow> HandshakeState_VerifyServerCertificate (Sum256 N) XSwiftEC B S now clientPaw pk;
                case err of
                  Some err \<Rightarrow> Some (Inl err)
                | None \<Rightarrow> if \<not> valid then Some (Inl (External ''cert validation failed!''))
                          else Some (Inr conn) } } }"

section \<open>The running client\<close>

definition zero_success :: OpenExtendedMiningChannelSuccess where
  "zero_success = \<lparr>omcs_RequestID = 0, omcs_ChannelID = 0, omcs_Target = zero_array,
     omcs_ExtranoncePrefix = [], omcs_GroupChannelID = 0, oemcs_ExtranonceSize = 0\<rparr>"

text \<open>One round of the reading goroutine: how it ends, if it does, and the channel it knows then.\<close>

definition logger_read ::
    "('g, 'k) Noise_Lib \<Rightarrow> ('g, Duplex) Sv2Conn \<Rightarrow> int \<Rightarrow> (served option \<times> ('g, Duplex) Sv2Conn \<times> int) option" where
  "logger_read N conn chanid = do {
     (res, conn) \<leftarrow> ReadFrame duplex_Read N conn;
     case res of
       Inl err \<Rightarrow> Some (Some (if stops_quietly err then Returns else Fatal err), conn, chanid)
     | Inr frame \<Rightarrow>
       if fr_MessageType frame = MessageOpenExtendedMiningChannelSuccess then do {
         (msg, _) \<leftarrow> OpenExtendedMiningChannelSuccess_Decode zero_success (fr_Payload frame);
         Some (None, conn, uint (omcs_ChannelID msg)) }
       else Some (None, conn, chanid) }"

text \<open>The message that \<open>main\<close> sends for an open channel. The write error is printed only.\<close>

definition logger_close ::
    "('g, 'k) Noise_Lib \<Rightarrow> ('g, Duplex) Sv2Conn \<Rightarrow> int \<Rightarrow> ('g, Duplex) Sv2Conn option" where
  "logger_close N conn chanid = do {
     closemsgFrame \<leftarrow> frame_or_nil CloseChannel_Encode MessageCloseChannel (closemsg chanid);
     (_, conn, _) \<leftarrow> WriteFrame duplex_Write N conn closemsgFrame;
     Some conn }"

datatype logger_main = Sends "Frame option list" | Wait_signal | Closing | Closed

record 'g logger =
  l_conn :: "('g, Duplex) Sv2Conn"
  l_chanid :: int
  l_main :: logger_main
  l_reading :: bool
  l_fatal :: "error option"
  l_panicked :: bool

definition logger_init :: "('g, Duplex) Sv2Conn \<Rightarrow> Frame option list \<Rightarrow> 'g logger" where
  "logger_init conn frames = \<lparr>l_conn = conn, l_chanid = -1, l_main = Sends frames, l_reading = True,
     l_fatal = None, l_panicked = False\<rparr>"

definition alive :: "'g logger \<Rightarrow> bool" where
  "alive s \<longleftrightarrow> l_fatal s = None \<and> \<not> l_panicked s \<and> l_main s \<noteq> Closed"

definition after_write :: "Frame option list \<Rightarrow> logger_main" where
  "after_write rest = (if rest = [] then Wait_signal else Sends rest)"

definition after_signal :: "int \<Rightarrow> logger_main" where
  "after_signal chanid = (if chanid > -1 then Closing else Closed)"

inductive logger_step :: "('g, 'k) Noise_Lib \<Rightarrow> 'g logger \<Rightarrow> 'g logger \<Rightarrow> bool" for N where
  read: "alive s \<Longrightarrow> l_reading s \<Longrightarrow> logger_read N (l_conn s) (l_chanid s) = Some (None, conn, chanid) \<Longrightarrow>
    logger_step N s (s\<lparr>l_conn := conn, l_chanid := chanid\<rparr>)"
| read_ends: "alive s \<Longrightarrow> l_reading s \<Longrightarrow>
    logger_read N (l_conn s) (l_chanid s) = Some (Some Returns, conn, chanid) \<Longrightarrow>
    logger_step N s (s\<lparr>l_conn := conn, l_reading := False\<rparr>)"
| read_fatal: "alive s \<Longrightarrow> l_reading s \<Longrightarrow>
    logger_read N (l_conn s) (l_chanid s) = Some (Some (Fatal err), conn, chanid) \<Longrightarrow>
    logger_step N s (s\<lparr>l_conn := conn, l_fatal := Some err\<rparr>)"
| read_panics: "alive s \<Longrightarrow> l_reading s \<Longrightarrow> logger_read N (l_conn s) (l_chanid s) = None \<Longrightarrow>
    logger_step N s (s\<lparr>l_panicked := True\<rparr>)"
| write_next: "alive s \<Longrightarrow> l_main s = Sends (Some f # rest) \<Longrightarrow>
    WriteFrame duplex_Write N (l_conn s) f = Some ((n, None), conn, f') \<Longrightarrow>
    logger_step N s (s\<lparr>l_conn := conn, l_main := after_write rest\<rparr>)"
| write_fatal: "alive s \<Longrightarrow> l_main s = Sends (Some f # rest) \<Longrightarrow>
    WriteFrame duplex_Write N (l_conn s) f = Some ((n, Some err), conn, f') \<Longrightarrow>
    logger_step N s (s\<lparr>l_conn := conn, l_fatal := Some err\<rparr>)"
| write_panics: "alive s \<Longrightarrow> l_main s = Sends (x # rest) \<Longrightarrow>
    (case x of None \<Rightarrow> True | Some f \<Rightarrow> WriteFrame duplex_Write N (l_conn s) f = None) \<Longrightarrow>
    logger_step N s (s\<lparr>l_panicked := True\<rparr>)"
| signal: "alive s \<Longrightarrow> l_main s = Wait_signal \<Longrightarrow> logger_step N s (s\<lparr>l_main := after_signal (l_chanid s)\<rparr>)"
| close: "alive s \<Longrightarrow> l_main s = Closing \<Longrightarrow> logger_close N (l_conn s) (l_chanid s) = Some conn \<Longrightarrow>
    logger_step N s (s\<lparr>l_conn := conn, l_main := Closed\<rparr>)"
| close_panics: "alive s \<Longrightarrow> l_main s = Closing \<Longrightarrow> logger_close N (l_conn s) (l_chanid s) = None \<Longrightarrow>
    logger_step N s (s\<lparr>l_panicked := True\<rparr>)"

section \<open>What the client sends\<close>

lemma ReadFrame_keeps_Send:
  assumes "ReadFrame rd N conn = Some (res, conn')"
  shows "sv_Send conn' = sv_Send conn"
proof -
  obtain x cs r where "DecryptFrameFromReader rd N (sv_Recv conn) (sv_NetConn conn) = Some ((x, cs), r)"
    using assms by (auto simp: ReadFrame_def bind_eq_Some_conv)
  with assms show ?thesis by (cases x) (auto simp: ReadFrame_def Let_def split: prod.splits)
qed

lemma logger_read_keeps:
  assumes "logger_read N conn chanid = Some (out, conn', chanid')"
  shows "sv_Send conn' = sv_Send conn" "dx_out (sv_NetConn conn') = dx_out (sv_NetConn conn)"
    "- 1 \<le> chanid \<and> chanid < 2 ^ 32 \<Longrightarrow> - 1 \<le> chanid' \<and> chanid' < 2 ^ 32" "- 1 < chanid \<Longrightarrow> - 1 < chanid'"
proof -
  obtain res c where r: "ReadFrame duplex_Read N conn = Some (res, c)"
    using assms by (auto simp: logger_read_def bind_eq_Some_conv)
  have c: "conn' = c"
    using assms r by (cases res) (auto simp: logger_read_def bind_eq_Some_conv split: if_splits)
  then show "sv_Send conn' = sv_Send conn" "dx_out (sv_NetConn conn') = dx_out (sv_NetConn conn)"
    using ReadFrame_keeps_Send [OF r] ReadFrame_keeps_sent [OF r] by simp_all
  show "- 1 \<le> chanid' \<and> chanid' < 2 ^ 32" if "- 1 \<le> chanid \<and> chanid < 2 ^ 32"
    using assms r that unsigned_less [of "_ :: u32", where ?'a = int]
    by (cases res) (auto simp: logger_read_def bind_eq_Some_conv order.trans [OF _ unsigned_greater_eq]
        split: if_splits)
  show "- 1 < chanid'" if "- 1 < chanid"
    using assms r that by (cases res) (auto simp: logger_read_def bind_eq_Some_conv less_le_trans [OF _ unsigned_greater_eq]
        split: if_splits)
qed

definition close_frame :: "int \<Rightarrow> Frame" where
  "close_frame chanid = the (frame_or_nil CloseChannel_Encode MessageCloseChannel (closemsg chanid))"

lemma close_frame_ok:
  "frame_or_nil CloseChannel_Encode MessageCloseChannel (closemsg chanid) = Some (close_frame chanid)"
  "one_chunk (close_frame chanid)"
  by (simp_all add: close_frame_def frame_or_nil_def NewFrameFromParams_def CloseChannel_Encode_def closemsg_def
      Bytes_view go_view fld_defs enc_bin8_def MaxU24_value one_chunk_def frame_ok_def slice_len_def Let_def
      string_bytes_def)

text \<open>The receiver of the frame reads the message with the number of the channel.\<close>

lemma close_frame_message:
  "fr_MessageType (close_frame chanid) = MessageCloseChannel"
  "Frame_ToParams CloseChannel_Decode (close_frame chanid) m0 = Some (closemsg chanid, None)"
  "0 \<le> chanid \<Longrightarrow> chanid < 2 ^ 32 \<Longrightarrow> uint (cc_ChannelID (closemsg chanid)) = chanid"
proof -
  have f: "NewFrameFromParams CloseChannel_Encode MessageCloseChannel ExtensionTypeCore (closemsg chanid) =
      Inr (close_frame chanid)"
    using close_frame_ok(1) [of chanid] by (simp add: frame_or_nil_def split: sum.splits)
  show "fr_MessageType (close_frame chanid) = MessageCloseChannel" by (rule frame_of_params(1) [OF f])
  show "Frame_ToParams CloseChannel_Decode (close_frame chanid) m0 = Some (closemsg chanid, None)"
    by (rule CloseChannel.wire_roundtrip [OF f])
  show "0 \<le> chanid \<Longrightarrow> chanid < 2 ^ 32 \<Longrightarrow> uint (cc_ChannelID (closemsg chanid)) = chanid"
    by (simp add: closemsg_def uint_word_of_int)
qed

lemma sealed_frames_append:
  "sealed_frames A g n (fs @ [f]) = sealed_frames A g n fs @ sealed_frame A g (n + word_of_nat (2 * length fs)) f"
  by (induction fs arbitrary: n) (simp_all add: ac_simps)

text \<open>
  The two frames that the client opens with exist unless the host or the user name, the
  address with its suffix, is too long for its length prefix or the address is missing.
\<close>

lemma unat_numeral_plus:
  "numeral k + n < 2 ^ 32 \<Longrightarrow> unat (numeral k + word_of_nat n :: u32) = numeral k + n"
  using unsigned_of_nat [of "numeral k + n", where ?'a = nat and ?'b = 32] by (simp add: take_bit_nat_eq_self)

lemma logger_frames_ok:
  assumes "length (cfg_poolhost cfg) \<le> 255" and "cfg_addr cfg = Some a" and "length (EncodeAddress a) \<le> 244"
  shows "\<exists>f1 f2. logger_frames EncodeAddress cfg = Some [Some f1, Some f2] \<and>
    one_chunk f1 \<and> one_chunk f2 \<and> fr_MessageType f1 = MessageSetupConnection"
  using assms
  by (simp add: logger_frames_def openchanmsg_def frame_or_nil_def NewFrameFromParams_def setupmsg_def
      SetupConnection_Encode_def OpenExtendedMiningChannel_Encode_def OpenStandardMiningChannel_Encode_def
      Bytes_view go_view fld_defs enc_bin8_def MaxU24_value one_chunk_def frame_ok_def slice_len_def Let_def
      string_bytes_def word_less_nat_alt unat_numeral_plus)

text \<open>The receiver reads the two messages from them.\<close>

lemma frame_or_nil_Some:
  assumes "frame_or_nil Encode mt m = Some f"
  shows "fr_MessageType f = mt" and "NewFrameFromParams Encode mt ExtensionTypeCore m = Inr f"
proof -
  show f: "NewFrameFromParams Encode mt ExtensionTypeCore m = Inr f"
    using assms by (simp add: frame_or_nil_def split: sum.splits)
  show "fr_MessageType f = mt" by (rule frame_of_params(1) [OF f])
qed

lemma logger_frames_messages:
  assumes "logger_frames EncodeAddress cfg = Some [Some f1, Some f2]"
  obtains m where "openchanmsg EncodeAddress cfg 0 = Some m"
    and "fr_MessageType f1 = MessageSetupConnection" and "fr_MessageType f2 = MessageOpenExtendedMiningChannel"
    and "\<And>m0. Frame_ToParams SetupConnection_Decode f1 m0 = Some (setupmsg cfg, None)"
    and "\<And>m0. Frame_ToParams OpenExtendedMiningChannel_Decode f2 m0 = Some (m, None)"
proof -
  from assms obtain m where m: "openchanmsg EncodeAddress cfg 0 = Some m"
    and f: "frame_or_nil SetupConnection_Encode MessageSetupConnection (setupmsg cfg) = Some f1"
    "frame_or_nil OpenExtendedMiningChannel_Encode MessageOpenExtendedMiningChannel m = Some f2"
    by (auto simp: logger_frames_def bind_eq_Some_conv)
  note f1 = frame_or_nil_Some [OF f(1)] and f2 = frame_or_nil_Some [OF f(2)]
  show thesis
    by (rule that [OF m f1(1) f2(1)])
      (rule SetupConnection.wire_roundtrip [OF f1(2)] OpenExtendedMiningChannel.wire_roundtrip [OF f2(2)])+
qed

text \<open>
  After \<open>sent\<close> frames: they are what followed the handshake, sealed in order, and the next
  nonce belongs to the next frame. The channel is unknown (\<open>-1\<close>) or a 32-bit number, and
  after the signal a known channel has been closed by its number.
\<close>

definition logger_sent ::
    "('g, 'k) Noise_Lib \<Rightarrow> 'g \<Rightarrow> byte list \<Rightarrow> Frame list \<Rightarrow> 'g logger \<Rightarrow> bool" where
  "logger_sent N g hello fs s \<longleftrightarrow> - 1 \<le> l_chanid s \<and> l_chanid s < 2 ^ 32 \<and> (\<exists>sent.
     dx_out (sv_NetConn (l_conn s)) = hello @ sealed_frames N g 0 sent \<and>
     keyed (sv_Send (l_conn s)) g \<and> cs_n (sv_Send (l_conn s)) = word_of_nat (2 * length sent) \<and>
     (case l_main s of
        Sends rest \<Rightarrow> rest \<noteq> [] \<and> map Some fs = map Some sent @ rest
      | Wait_signal \<Rightarrow> sent = fs
      | Closing \<Rightarrow> sent = fs \<and> l_chanid s > -1
      | Closed \<Rightarrow> sent = fs @ (if l_chanid s > -1 then [close_frame (l_chanid s)] else [])))"

definition logger_ok ::
    "('g, 'k) Noise_Lib \<Rightarrow> 'g \<Rightarrow> ('g, Duplex) Sv2Conn \<Rightarrow> Frame list \<Rightarrow> bool" where
  "logger_ok N g conn fs \<longleftrightarrow> keyed (sv_Send conn) g \<and> cs_n (sv_Send conn) = 0 \<and> fs \<noteq> [] \<and>
     list_all one_chunk fs \<and> nonces_for N 0 (Suc (length fs))"

definition logger_inv ::
    "('g, 'k) Noise_Lib \<Rightarrow> 'g \<Rightarrow> ('g, Duplex) Sv2Conn \<Rightarrow> Frame list \<Rightarrow> 'g logger \<Rightarrow> bool" where
  "logger_inv N g conn fs s \<longleftrightarrow> (logger_ok N g conn fs \<longrightarrow>
     (\<exists>err. l_fatal s = Some err) \<or> l_panicked s \<or> logger_sent N g (dx_out (sv_NetConn conn)) fs s)"

lemma nonces_for_left:
  assumes "nonces_for A 0 (Suc m)" and "k \<le> m" and "cs_n cs = word_of_nat (2 * k)"
  shows "nonces_left A cs"
  using assms(1) [unfolded nonces_for_def, rule_format, of "2 * k"]
    assms(1) [unfolded nonces_for_def, rule_format, of "2 * k + 1"] assms(2,3)
  by (simp add: nonces_left_def ac_simps)

lemma WriteFrame_next:
  assumes "logger_ok N g conn0 fs" and "one_chunk f" and "keyed (sv_Send conn) g"
    and "cs_n (sv_Send conn) = word_of_nat (2 * length sent)" and "length sent \<le> length fs"
    and "dx_out (sv_NetConn conn) = hello @ sealed_frames N g 0 sent"
  shows "\<exists>n conn'. WriteFrame duplex_Write N conn f = Some ((n, None), conn', f) \<and>
    dx_out (sv_NetConn conn') = hello @ sealed_frames N g 0 (sent @ [f]) \<and> keyed (sv_Send conn') g \<and>
    cs_n (sv_Send conn') = word_of_nat (2 * length (sent @ [f]))"
proof -
  have "nonces_left N (sv_Send conn)"
    using assms(1,4,5) by (intro nonces_for_left [of N "length fs" "length sent"]) (simp_all add: logger_ok_def)
  from WriteFrame_ok [OF assms(3) this assms(2)] assms(3,4,6) show ?thesis
    by (simp add: sealed_frames_append)
qed

lemma logger_step_sent:
  assumes "logger_ok N g conn0 fs" and "logger_sent N g hello fs s" and "logger_step N s t"
  shows "(\<exists>err. l_fatal t = Some err) \<or> l_panicked t \<or> logger_sent N g hello fs t"
  using assms(3,2)
proof cases
  case (read conn chanid)
  with assms(2) logger_read_keeps [OF read(4)] show ?thesis
    by (auto simp: logger_sent_def alive_def split: logger_main.splits)
next
  case (read_ends conn chanid)
  with assms(2) logger_read_keeps [OF read_ends(4)] show ?thesis
    by (auto simp: logger_sent_def alive_def split: logger_main.splits)
next
  case (write_next f rest n conn f')
  from assms(2) write_next obtain sent where sent: "map Some fs = map Some sent @ Some f # rest"
    "keyed (sv_Send (l_conn s)) g" "cs_n (sv_Send (l_conn s)) = word_of_nat (2 * length sent)"
    "dx_out (sv_NetConn (l_conn s)) = hello @ sealed_frames N g 0 sent"
    by (auto simp: logger_sent_def)
  have "length (map Some fs) = length (map Some sent @ Some f # rest)" using sent(1) by simp
  then have le: "length sent \<le> length fs" by simp
  have "Some f \<in> set (map Some fs)" using sent(1) by simp
  then have "one_chunk f" using assms(1) by (auto simp: logger_ok_def list_all_iff)
  from WriteFrame_next [OF assms(1) this sent(2,3) le sent(4)] write_next sent(1) assms(2)
  have conn: "dx_out (sv_NetConn conn) = hello @ sealed_frames N g 0 (sent @ [f])" "keyed (sv_Send conn) g"
    "cs_n (sv_Send conn) = word_of_nat (2 * length (sent @ [f]))" by auto
  have "rest = [] \<Longrightarrow> sent @ [f] = fs" 
    using sent(1) inj_map_eq_map [of Some fs "sent @ [f]"] by simp
  with conn write_next sent(1) assms(2) show ?thesis
    by (auto simp: logger_sent_def after_write_def intro!: exI [of _ "sent @ [f]"])
next
  case signal
  with assms(2) show ?thesis by (auto simp: logger_sent_def after_signal_def)
next
  case (close conn)
  let ?c = "l_chanid s"
  from assms(2) close have s: "keyed (sv_Send (l_conn s)) g"
    "cs_n (sv_Send (l_conn s)) = word_of_nat (2 * length fs)"
    "dx_out (sv_NetConn (l_conn s)) = hello @ sealed_frames N g 0 fs" "?c > -1"
    by (auto simp: logger_sent_def)
  obtain n conn' where "WriteFrame duplex_Write N (l_conn s) (close_frame ?c) = Some ((n, None), conn', close_frame ?c)"
    and c: "dx_out (sv_NetConn conn') = hello @ sealed_frames N g 0 (fs @ [close_frame ?c])"
    "keyed (sv_Send conn') g" "cs_n (sv_Send conn') = word_of_nat (2 * length (fs @ [close_frame ?c]))"
    using WriteFrame_next [OF assms(1) close_frame_ok(2) s(1,2) _ s(3)] by blast
  with close have "conn = conn'" by (auto simp: logger_close_def close_frame_ok)
  with c close s(4) assms(2) show ?thesis
    by (auto simp: logger_sent_def intro!: exI [of _ "fs @ [close_frame ?c]"])
qed auto

lemma logger_inv_step:
  assumes "logger_inv N g conn fs s" and "logger_step N s t"
  shows "logger_inv N g conn fs t"
proof -
  have "l_fatal s = None \<and> \<not> l_panicked s" using assms(2) by cases (auto simp: alive_def)
  with assms show ?thesis unfolding logger_inv_def using logger_step_sent by fastforce
qed

interpretation logger: invariant_system "logger_init conn (map Some fs)" "logger_step N" "logger_inv N g conn fs"
  for conn fs N g
proof unfold_locales
  show "logger_inv N g conn fs (logger_init conn (map Some fs))"
    by (auto simp: logger_inv_def logger_sent_def logger_init_def logger_ok_def intro!: exI [of _ "[]"])
qed (rule logger_inv_step)

text \<open>The client can always send its frames and, on the signal, close.\<close>

lemma logger_step_write:
  assumes "logger_ok N g conn0 fs" and "logger_sent N g hello fs s" and "alive s"
    and "l_main s = Sends (map Some (f # rest))"
  shows "\<exists>t. logger_step N s t \<and> alive t \<and> l_main t = after_write (map Some rest)"
proof -
  from assms(2,4) obtain sent where sent: "map Some fs = map Some sent @ Some f # map Some rest"
    "keyed (sv_Send (l_conn s)) g" "cs_n (sv_Send (l_conn s)) = word_of_nat (2 * length sent)"
    "dx_out (sv_NetConn (l_conn s)) = hello @ sealed_frames N g 0 sent"
    by (auto simp: logger_sent_def)
  then have "fs = sent @ f # rest" using inj_map_eq_map [of Some fs "sent @ f # rest"] by simp
  then have "one_chunk f" "length sent \<le> length fs" using assms(1) by (simp_all add: logger_ok_def)
  from WriteFrame_next [OF assms(1) this(1) sent(2,3) this(2) sent(4)] obtain n c where
    w: "WriteFrame duplex_Write N (l_conn s) f = Some ((n, None), c, f)" by blast
  have "logger_step N s (s\<lparr>l_conn := c, l_main := after_write (map Some rest)\<rparr>)"
    using write_next [OF assms(3) _ w] assms(4) by simp
  moreover have "after_write (map Some rest) \<noteq> Closed" by (simp add: after_write_def)
  ultimately show ?thesis using assms(3)
    by (intro exI [of _ "s\<lparr>l_conn := c, l_main := after_write (map Some rest)\<rparr>"]) (simp add: alive_def)
qed

lemma logger_writes_all:
  assumes "logger_ok N g conn0 fs" and "logger_sent N g hello fs s" and "alive s"
    and "l_main s = Sends (map Some rest)" and "rest \<noteq> []"
  shows "\<exists>t. (logger_step N)\<^sup>*\<^sup>* s t \<and> alive t \<and> l_main t = Wait_signal \<and> logger_sent N g hello fs t"
  using assms(2-5)
proof (induction rest arbitrary: s)
  case (Cons f rest)
  obtain t where t: "logger_step N s t" "alive t" "l_main t = after_write (map Some rest)"
    using logger_step_write [OF assms(1) Cons.prems(1-3)] by blast
  have sent: "logger_sent N g hello fs t"
    using logger_step_sent [OF assms(1) Cons.prems(1) t(1)] t(2) by (auto simp: alive_def)
  show ?case
  proof (cases "rest = []")
    case True
    with t sent show ?thesis by (auto simp: after_write_def intro!: exI [of _ t])
  next
    case False
    with Cons.IH [OF sent t(2)] t show ?thesis
      by (auto simp: after_write_def intro: converse_rtranclp_into_rtranclp)
  qed
qed simp

definition logger_ends ::
    "('g, 'k) Noise_Lib \<Rightarrow> ('g, Duplex) Sv2Conn \<Rightarrow> Frame option list \<Rightarrow> 'g logger \<Rightarrow> bool" where
  "logger_ends N conn frames s \<longleftrightarrow> (logger_step N)\<^sup>*\<^sup>* (logger_init conn frames) s \<and> l_main s = Closed \<and>
     l_fatal s = None \<and> \<not> l_panicked s"

lemma logger_can_close:
  assumes "logger_ok N g conn fs"
  shows "\<exists>s. logger_ends N conn (map Some fs) s"
proof -
  let ?s = "logger_init conn (map Some fs)" and ?hello = "dx_out (sv_NetConn conn)"
  have "alive ?s" "fs \<noteq> []" "logger_sent N g ?hello fs ?s"
    using assms by (auto simp: alive_def logger_sent_def logger_init_def logger_ok_def intro!: exI [of _ "[]"])
  then obtain t where t: "(logger_step N)\<^sup>*\<^sup>* ?s t" "alive t" "l_main t = Wait_signal" "logger_sent N g ?hello fs t"
    using logger_writes_all [OF assms, of ?hello ?s fs] by (auto simp: logger_init_def)
  let ?u = "t\<lparr>l_main := after_signal (l_chanid t)\<rparr>"
  have u: "(logger_step N)\<^sup>*\<^sup>* ?s ?u" using rtranclp.rtrancl_into_rtrancl [OF t(1) signal [OF t(2,3)]] .
  show ?thesis
  proof (cases "l_chanid t > -1")
    case True
    have "\<exists>c. logger_close N (l_conn t) (l_chanid t) = Some c"
      using WriteFrame_next [OF assms close_frame_ok(2) [of "l_chanid t"], of "l_conn t" fs ?hello] t(3,4)
      by (auto simp: logger_close_def close_frame_ok logger_sent_def)
    then obtain c where "logger_step N ?u (?u\<lparr>l_conn := c, l_main := Closed\<rparr>)"
      using close [of ?u N] t(2) True by (auto simp: alive_def after_signal_def)
    from rtranclp.rtrancl_into_rtrancl [OF u this] t(2) show ?thesis
      by (intro exI [of _ "?u\<lparr>l_conn := c, l_main := Closed\<rparr>"]) (simp add: alive_def logger_ends_def)
  next
    case False
    with u t(2) show ?thesis
      by (intro exI [of _ ?u]) (simp add: alive_def logger_ends_def after_signal_def)
  qed
qed

section \<open>A server that does not answer\<close>

lemma EncryptFrameToWriter_keeps_in:
  assumes "EncryptFrameToWriter duplex_Write A cs f w = Some (x, f', w')"
  shows "dx_in w' = dx_in w"
proof -
  obtain b e f1 where f: "Frame_Encode f = ((b, e), f1)" by (metis prod.collapse)
  show ?thesis
  proof (cases e)
    case None
    then obtain hdr h cs1 where h: "reslice (b, []) 0 FrameHeaderSize = Some hdr"
      "Encrypt A cs hdr = Some (h, cs1)"
      using assms f by (auto simp: EncryptFrameToWriter_def bind_eq_Some_conv)
    show ?thesis
    proof (cases h)
      case (Inr header)
      then obtain body p cs2 where "reslice (b, []) FrameHeaderSize (length b) = Some body"
        "Encrypt A cs1 body = Some (p, cs2)"
        using assms f None h by (auto simp: EncryptFrameToWriter_def bind_eq_Some_conv)
      with assms f None h Inr show ?thesis
        by (cases p) (auto simp: EncryptFrameToWriter_def duplex_Write_def)
    qed (use assms f None h in \<open>auto simp: EncryptFrameToWriter_def\<close>)
  qed (use assms f in \<open>auto simp: EncryptFrameToWriter_def\<close>)
qed

lemma WriteFrame_keeps_in:
  assumes "WriteFrame duplex_Write A conn f = Some (x, conn', f')"
  shows "dx_in (sv_NetConn conn') = dx_in (sv_NetConn conn)"
  using assms
  by (auto simp: WriteFrame_def bind_eq_Some_conv split: prod.splits dest: EncryptFrameToWriter_keeps_in)

text \<open>Nothing arrives, so no channel is ever known.\<close>

definition quiet :: "'g logger \<Rightarrow> bool" where
  "quiet s \<longleftrightarrow> concat (dx_in (sv_NetConn (l_conn s))) = [] \<and> l_chanid s = -1"

lemma quiet_read:
  assumes "concat (dx_in (sv_NetConn conn)) = []"
  obtains conn' where "logger_read N conn chanid = Some (Some Returns, conn', chanid)"
    and "dx_in (sv_NetConn conn') = []"
  using ReadFrame_EOF [OF assms, of N] by (auto simp: logger_read_def stops_quietly_def)

lemma quiet_step:
  assumes "quiet s" and "logger_step N s t"
  shows "quiet t"
proof -
  obtain c where c: "logger_read N (l_conn s) (l_chanid s) = Some (Some Returns, c, l_chanid s)"
    "dx_in (sv_NetConn c) = []"
    using quiet_read [of "l_conn s"] assms(1) unfolding quiet_def by metis
  from assms(2,1) show ?thesis
    by cases (use c in \<open>auto simp: quiet_def logger_close_def bind_eq_Some_conv dest: WriteFrame_keeps_in\<close>)
qed

interpretation quiet: invariant_system "logger_init conn frames" "logger_step N"
  "\<lambda>s. concat (dx_in (sv_NetConn conn)) = [] \<longrightarrow> quiet s" for conn frames N
  using quiet_step by unfold_locales (auto simp: quiet_def logger_init_def)

lemma quiet_run_served:
  assumes "aead_ok N" and "logger_ok N g c [f1, f2]" and "fr_MessageType f1 = MessageSetupConnection"
    and "concat (dx_in (sv_NetConn c)) = []" and "logger_ends N c (map Some [f1, f2]) s"
    and "sv_Recv d = sv_Send c"
    and "concat (dx_in (sv_NetConn d)) = drop (length (dx_out (sv_NetConn c))) (dx_out (sv_NetConn (l_conn s)))"
  shows "l_chanid s = - 1 \<and> reads_frames N d [f1, f2] \<and>
    (\<exists>d'. serve_conn duplex_Read N d = Some (Returns, d') \<and> dx_out (sv_NetConn d') = dx_out (sv_NetConn d))"
proof -
  note s = assms(5) [unfolded logger_ends_def, THEN conjunct1]
  have id: "l_chanid s = - 1" using quiet.reachable_inv [OF s] assms(4) by (simp add: quiet_def)
  have "logger_sent N g (dx_out (sv_NetConn c)) [f1, f2] s"
    using logger.reachable_inv [OF s, of g] assms(2,5) by (simp add: logger_inv_def logger_ends_def)
  then have "concat (dx_in (sv_NetConn d)) = sealed_frames N g 0 [f1, f2]"
    using assms(5,7) id by (simp add: logger_sent_def logger_ends_def)
  then have reads: "reads_frames N d [f1, f2]"
    using sealed_reads_frames [OF assms(1), of d g "[f1, f2]"] assms(2,6)
    by (auto simp: logger_ok_def nonces_for_def)
  obtain d' where d': "serve_conn duplex_Read N d = Some (Returns, d')"
    using serve_conn_reads [OF reads assms(3)] by blast
  with serve_conn_keeps_sent [OF d'] id reads show ?thesis by blast
qed

section \<open>The certificate check of a client\<close>

text \<open>The decoding of an ElligatorSwift key gives the coordinate that it was made for.\<close>

definition xswift_ok :: "('f \<Rightarrow> 'f \<Rightarrow> error + 'f) \<Rightarrow> ('k, 'q, 'j, 'f) Btcec \<Rightarrow> bool" where
  "xswift_ok XSwiftEC B \<longleftrightarrow> (\<forall>kp. keypair_ok B kp \<longrightarrow>
     (\<exists>x. XSwiftEC (FieldVal_SetByteSlice B (take 32 (SerializeEllswiftBytes kp)))
            (FieldVal_SetByteSlice B (drop 32 (SerializeEllswiftBytes kp))) = Inr x \<and>
          PublicKey kp = Some (FieldVal_Bytes B (FieldVal_Normalize B x))))"

lemma client_certificate_check:
  assumes "xswift_ok XSwiftEC B" and "keypair_ok B st" and "PublicKey st = Some spk"
    and "initiates N B rnd \<rho> cert st first tr" and "concat (dx_in r) = tr_reply tr @ s"
    and "authkey \<noteq> []" and "DeserializeAuthorityKey CheckDecode authkey = Some (Inr (array_bytes apk))"
    and "VerifyServerCertificate (Sum256 N) S now (Some cert) apk spk = Some (valid, err)"
  shows "\<exists>c. client_connect duplex_Read duplex_Write XSwiftEC CheckDecode N B S rnd now authkey r \<rho> =
      Some (case err of Some e \<Rightarrow> Inl e
        | None \<Rightarrow> if valid then Inr c else Inl (External ''cert validation failed!'')) \<and>
    (sv_Send c, sv_Recv c) = transport N tr \<and> dx_out (sv_NetConn c) = dx_out r @ first \<and>
    concat (dx_in (sv_NetConn c)) = s"
proof -
  obtain r' where r': "PerformHandshakeInitiator duplex_Read duplex_Write N B rnd zero_HandshakeState r \<rho> =
      Some (Inr (transport N tr), (finished zero_HandshakeState tr)\<lparr>hs_cert := Some cert,
        hs_serverStatic := SerializeEllswift st\<rparr>, r')"
    "dx_out r' = dx_out r @ first" "concat (dx_in r') = s"
    using assms(4) [unfolded initiates_def, rule_format, OF assms(5)] by blast
  obtain x where x: "XSwiftEC (FieldVal_SetByteSlice B (take 32 (SerializeEllswiftBytes st)))
      (FieldVal_SetByteSlice B (drop 32 (SerializeEllswiftBytes st))) = Inr x"
    "FieldVal_Bytes B (FieldVal_Normalize B x) = spk"
    using assms(1-3) unfolding xswift_ok_def by fastforce
  obtain c1 c2 where c: "transport N tr = (c1, c2)" by fastforce
  have "HandshakeState_VerifyServerCertificate (Sum256 N) XSwiftEC B S now ((finished zero_HandshakeState tr)\<lparr>hs_cert :=
      Some cert, hs_serverStatic := SerializeEllswift st\<rparr>) apk = Some (valid, err)"
    using x assms(8)
    by (simp add: HandshakeState_VerifyServerCertificate_def SerializeEllswift_def SerializeEllswiftBytes_def)
  then show ?thesis
    using r' assms(6,7) c
    by (intro exI [of _ "\<lparr>sv_NetConn = r', sv_Send = c1, sv_Recv = c2\<rparr>"])
      (simp add: client_connect_def Let_def split: option.split)
qed

lemma server_setup_facts:
  assumes "btcec_ok B" and "server_setup H B S rnd \<rho> = Some (authKey, staticKey, Some cert)"
    and "kp_Private authKey = Some k"
  shows "\<exists>spk. keypair_ok B staticKey \<and> PublicKey staticKey = Some spk \<and>
    NewSignedCertificate H S k spk 0 65535 = Some (Inr cert)"
proof -
  obtain \<rho>1 \<rho>2 spk c where "NewKeypair B rnd \<rho>1 = Some (staticKey, \<rho>2)" "PublicKey staticKey = Some spk"
    "NewSignedCertificate H S k spk 0 65535 = Some c" "(case c of Inl err \<Rightarrow> None | Inr m \<Rightarrow> Some m) = Some cert"
    using assms(2,3) by (auto simp: server_setup_def bind_eq_Some_conv)
  then show ?thesis using NewKeypair_ok [OF assms(1)] by (cases c) auto
qed

text \<open>
  A client with the authority's key, over a handshake with a server whose certificate that
  authority signed.
\<close>

lemma client_meets_certificate:
  fixes N :: "('g, 'k) Noise_Lib" and B :: "('k, 'q, 'j, 'f) Btcec"
  assumes "aead_ok N" and "maxNoiseNonce N \<noteq> 0" and "btcec_ok B" and "ecdh_ok N B" and "xswift_ok XSwiftEC B"
    and "NewKeypair B rnd \<rho>1 = Some (e1, \<rho>1')" and "NewKeypair B rnd \<rho>2 = Some (e2, \<rho>2')"
    and "keypair_ok B st" and "PublicKey st = Some spk"
    and "schnorr_pair S k apk" and "NewSignedCertificate (Sum256 N) S k spk vf nva = Some (Inr cert)"
    and "text \<noteq> []" and "DeserializeAuthorityKey CheckDecode text = Some (Inr (array_bytes apk))"
    and "0 \<le> now" and "now < 2 ^ 32"
    and "concat (dx_in rR) = SerializeEllswiftBytes e1" and "dx_out rR = []"
    and "PerformHandshakeResponder duplex_Read duplex_Write N B rnd hsR rR cert st \<rho>2 = Some (x, hsR', rR')"
    and "concat (dx_in rI) = dx_out rR'"
  shows "\<exists>c. client_connect duplex_Read duplex_Write XSwiftEC CheckDecode N B S rnd now text rI \<rho>1 =
      Some (if now < uint vf then Inl Cert_not_yet_valid
        else if uint nva < now then Inl Cert_expired else Inr c) \<and>
    x = Inr (sv_Send c, sv_Recv c) \<and> dx_out (sv_NetConn c) = dx_out rI @ SerializeEllswiftBytes e1 \<and>
    concat (dx_in (sv_NetConn c)) = []"
proof -
  obtain tr where tr: "responds N B rnd \<rho>2 cert st (SerializeEllswiftBytes e1) tr"
      "initiates N B rnd \<rho>1 cert st (SerializeEllswiftBytes e1) tr"
    using handshake_runs [OF assms(1-4,6-8)] .
  have R: "x = Inr (transport N tr)" "dx_out rR' = tr_reply tr"
    using tr(1) [unfolded responds_def, rule_format, of rR "[]" hsR] assms(16-18) by auto
  obtain valid err where v: "VerifyServerCertificate (Sum256 N) S now (Some cert) apk spk = Some (valid, err)"
    and out: "(valid, err) = (if now < uint vf then (False, Some Cert_not_yet_valid)
       else if uint nva < now then (False, Some Cert_expired) else (True, None))"
    using signed_certificate_outcome [OF assms(10,14,15), of "Sum256 N" spk vf nva] assms(11)
    by (auto split: if_splits)
  have "concat (dx_in rI) = tr_reply tr @ []" using assms(19) R(2) by simp
  from client_certificate_check [OF assms(5,8,9) tr(2) this assms(12,13) v] obtain c where
    "client_connect duplex_Read duplex_Write XSwiftEC CheckDecode N B S rnd now text rI \<rho>1 =
      Some (case err of Some e \<Rightarrow> Inl e
        | None \<Rightarrow> if valid then Inr c else Inl (External ''cert validation failed!''))"
    "(sv_Send c, sv_Recv c) = transport N tr" "dx_out (sv_NetConn c) = dx_out rI @ SerializeEllswiftBytes e1"
    "concat (dx_in (sv_NetConn c)) = []" by blast
  with R(1) out show ?thesis by (intro exI [of _ c]) (simp split: if_splits)
qed

end
