(* ===== verification/Handshake_Replies.thy ===== *)
theory Handshake_Replies
  imports Handshake
begin

text \<open>
  Which replies the initiator of \<open>src/noise.go\<close> accepts. \<open>Handshake\<close> shows that the
  reply of the protocol is accepted; here every accepted input is shown to be one, for an
  AEAD that opens only what it sealed.
\<close>

text \<open>
  The AEAD is deterministic and checks the whole ciphertext: what opens is the seal of what
  it opens to.
\<close>

definition open_sealed :: "('g, 'z) AEAD_scheme \<Rightarrow> bool" where
  "open_sealed A \<longleftrightarrow> (\<forall>g n c ad p. aead_Open A g n c ad = Inr p \<longrightarrow> c = aead_Seal A g n p ad)"

lemma decryptAndHash_fresh:
  assumes "aead_ok N" and "open_sealed N" and "maxNoiseNonce N \<noteq> 0" and "hs_cs hs = Some (fresh_cipher N k)"
    and "decryptAndHash N hs c = Some (Inr p, hs')"
  shows "c = sealed N k (hs_h hs) p" and "hs' = mixHash N (hs\<lparr>hs_cs := Some (used_cipher N k)\<rparr>) c"
proof -
  obtain g where g: "keyed (fresh_cipher N k) g" and n: "cs_n (fresh_cipher N k) = 0"
    using fresh_keyed [OF assms(1), of k] by blast
  have d: "DecryptWithAd N (fresh_cipher N k) (array_bytes (hs_h hs)) c =
      (case aead_Open N g (nonce_bytes 0) c (array_bytes (hs_h hs)) of
         Inl e \<Rightarrow> Some (Inl e, fresh_cipher N k) | Inr q \<Rightarrow> Some (Inr q, used_cipher N k))"
    using Decrypt_keyed [OF g, of N "array_bytes (hs_h hs)" c] assms(3) n
    by (simp add: used_cipher_def split: sum.split)
  then have o: "aead_Open N g (nonce_bytes 0) c (array_bytes (hs_h hs)) = Inr p"
    and hs': "hs' = mixHash N (hs\<lparr>hs_cs := Some (used_cipher N k)\<rparr>) c"
    using assms(4,5) keyed_k [OF g] by (auto simp: decryptAndHash_def split: sum.splits)
  from o assms(2) g show "c = sealed N k (hs_h hs) p" by (auto simp: open_sealed_def sealed_def keyed_def)
  show "hs' = mixHash N (hs\<lparr>hs_cs := Some (used_cipher N k)\<rparr>) c" by (rule hs')
qed

text \<open>An accepting run, taken apart: the reply, the two secrets and the two decryptions.\<close>

lemma initiator_reads:
  fixes r :: Duplex
  assumes run: "PerformHandshakeInitiator duplex_Read duplex_Write N B rnd hs r \<rho> = Some (Inr c, hs', r')"
  obtains e \<rho>' pt2 re h0 ee h1 ps h2 rs es h3 pc h4 cert where "NewKeypair B rnd \<rho> = Some (e, \<rho>')"
    and "length pt2 = 234" and "concat (dx_in r) = pt2 @ concat (dx_in r')"
    and "array_of_slice (take 64 pt2) = Some re" and "ecdh N e re True = Some ee"
    and "start_handshake N hs = Some h0"
    and "mixKey N (mixHash N (mixHash N (mixHash N h0 (SerializeEllswiftBytes e)) []) (take 64 pt2)) ee = Some h1"
    and "decryptAndHash N h1 (take 80 (drop 64 pt2)) = Some (Inr ps, h2)"
    and "array_of_slice ps = Some rs" and "ecdh N e rs True = Some es"
    and "mixKey N (h2\<lparr>hs_serverStatic := rs\<rparr>) es = Some h3"
    and "decryptAndHash N h3 (drop 144 pt2) = Some (Inr pc, h4)"
    and "SIGNATURE_NOISE_MESSAGE_Decode zero_cert (Some pc) = Some (cert, None)"
    and "hs' = h4\<lparr>hs_cert := Some cert\<rparr>"
    and "c = (fresh_cipher N (hkdf1 N (hs_ck h4) []), fresh_cipher N (hkdf2 N (hs_ck h4) []))"
proof -
  obtain e \<rho>' h0 where e: "NewKeypair B rnd \<rho> = Some (e, \<rho>')" "start_handshake N hs = Some h0"
    using run by (auto simp: PerformHandshakeInitiator_def bind_eq_Some_conv)
  have h0: "hs_cs (mixHash N h0 d) = Some zero_CipherState" for d
    using e(2) by (auto simp: start_handshake_eq mixHash_def)
  let ?h = "mixHash N (mixHash N h0 (SerializeEllswiftBytes e)) []"
  let ?r = "r\<lparr>dx_out := dx_out r @ SerializeEllswiftBytes e\<rparr>"
  obtain pt2 err r2 where rd: "ReadFull duplex_Read ?r 234 = Some ((pt2, err), r2)"
    and rd': "err = None \<Longrightarrow> length pt2 = 234 \<and> concat (dx_in r) = pt2 @ concat (dx_in r2)"
    using duplex_ReadFull_total [of ?r 234] by auto
  note start = PerformHandshakeInitiator_def e EncryptHash_unkeyed(1) [OF h0] duplex_Write_def rd
  have err: "err = None" using run by (cases err) (auto simp: start)
  obtain re ee h1 x h2 where k: "array_of_slice (take 64 pt2) = Some re" "ecdh N e re True = Some ee"
    "mixKey N (mixHash N ?h (take 64 pt2)) ee = Some h1"
    "decryptAndHash N h1 (take 80 (drop 64 pt2)) = Some (x, h2)"
    using run by (auto simp: start err bind_eq_Some_conv Let_def)
  then obtain ps where x: "x = Inr ps" using run by (cases x) (auto simp: start err)
  note first = start err k [unfolded x]
  obtain rs es h3 y h4 where l: "array_of_slice ps = Some rs" "ecdh N e rs True = Some es"
    "mixKey N (h2\<lparr>hs_serverStatic := rs\<rparr>) es = Some h3" "decryptAndHash N h3 (drop 144 pt2) = Some (y, h4)"
    using run by (auto simp: first bind_eq_Some_conv Let_def)
  then obtain pc where y: "y = Inr pc" using run by (cases y) (auto simp: first)
  obtain cert ce where d: "SIGNATURE_NOISE_MESSAGE_Decode zero_cert (Some pc) = Some (cert, ce)"
    using cert_Decode_total [of zero_cert pc] by blast
  then have "ce = None" using run by (cases ce) (auto simp: first l y)
  note all = first l [unfolded y] d [unfolded this]
  have "hs' = h4\<lparr>hs_cert := Some cert\<rparr>" "r' = r2"
    "c = (fresh_cipher N (hkdf1 N (hs_ck h4) []), fresh_cipher N (hkdf2 N (hs_ck h4) []))"
    using run by (auto simp: all Let_def HKDF_arrays fresh_cipher_def split: prod.splits)
  with all rd' show thesis by (intro that [of e \<rho>' pt2 re ee h0 h1 ps h2 rs es h3 pc h4 cert]) auto
qed

text \<open>So the reply is that of the protocol, and the outcome that of its transcript.\<close>

lemma initiator_accepts:
  fixes r :: Duplex
  assumes "aead_ok N" and "open_sealed N" and "maxNoiseNonce N \<noteq> 0"
    and "PerformHandshakeInitiator duplex_Read duplex_Write N B rnd hs r \<rho> = Some (Inr c, hs', r')"
  obtains e \<rho>' re rs ee es pc cert where "NewKeypair B rnd \<rho> = Some (e, \<rho>')"
    and "ecdh N e re True = Some ee" and "ecdh N e rs True = Some es"
    and "concat (dx_in r) = tr_reply (nx_transcript N (SerializeEllswift e) re rs ee es pc) @ concat (dx_in r')"
    and "c = transport N (nx_transcript N (SerializeEllswift e) re rs ee es pc)"
    and "hs_h hs' = tr_h (nx_transcript N (SerializeEllswift e) re rs ee es pc)"
    and "SIGNATURE_NOISE_MESSAGE_Decode zero_cert (Some pc) = Some (cert, None)"
    and "hs_cert hs' = Some cert" and "hs_serverStatic hs' = rs"
proof (rule initiator_reads [OF assms(4)])
  fix e \<rho>' pt2 re h0 ee h1 ps h2 rs es h3 pc h4 cert
  assume e: "NewKeypair B rnd \<rho> = Some (e, \<rho>')" and pt2: "length pt2 = 234" "concat (dx_in r) = pt2 @ concat (dx_in r')"
    and re: "array_of_slice (take 64 pt2) = Some re" and ee: "ecdh N e re True = Some ee"
    and h0: "start_handshake N hs = Some h0"
    and h1: "mixKey N (mixHash N (mixHash N (mixHash N h0 (SerializeEllswiftBytes e)) []) (take 64 pt2)) ee = Some h1"
    and d1: "decryptAndHash N h1 (take 80 (drop 64 pt2)) = Some (Inr ps, h2)"
    and rs: "array_of_slice ps = Some rs" and es: "ecdh N e rs True = Some es"
    and h3: "mixKey N (h2\<lparr>hs_serverStatic := rs\<rparr>) es = Some h3"
    and d2: "decryptAndHash N h3 (drop 144 pt2) = Some (Inr pc, h4)"
    and cert: "SIGNATURE_NOISE_MESSAGE_Decode zero_cert (Some pc) = Some (cert, None)"
    and hs': "hs' = h4\<lparr>hs_cert := Some cert\<rparr>"
    and c: "c = (fresh_cipher N (hkdf1 N (hs_ck h4) []), fresh_cipher N (hkdf2 N (hs_ck h4) []))"
  have re': "take 64 pt2 = array_bytes re"
    using re pt2(1) by (auto simp: array_of_slice_def split: if_splits)
  have cs1: "hs_cs h1 = Some (fresh_cipher N (hkdf2 N (Sum256 N (string_bytes ProtocolName)) ee))"
    using h1 h0 by (auto simp: start_handshake_eq mixHash_def mixKey_eq)
  note d1 = decryptAndHash_fresh [OF assms(1-3) cs1 d1]
  have "length ps = 64" using arg_cong [OF d1(1), of length] pt2(1) by (simp add: length_sealed [OF assms(1)])
  then have ps: "ps = array_bytes rs" using rs by (auto simp: array_of_slice_def)
  have cs3: "hs_cs h3 = Some (fresh_cipher N (hkdf2 N (hs_ck h1) es))"
    using h3 by (auto simp: d1(2) mixHash_def mixKey_eq)
  note d2 = decryptAndHash_fresh [OF assms(1-3) cs3 d2]
  have "drop 64 pt2 = take 80 (drop 64 pt2) @ drop 144 pt2"
    using append_take_drop_id [of 80 "drop 64 pt2"] by simp
  then have pt2': "pt2 = array_bytes re @ take 80 (drop 64 pt2) @ drop 144 pt2"
    using append_take_drop_id [of 64 pt2] re' by metis
  have states: "hs_ck h1 = hkdf1 N (Sum256 N (string_bytes ProtocolName)) ee"
    "hs_ck h4 = hkdf1 N (hs_ck h1) es" "hs_h h4 = Sum256 N (array_bytes (hs_h h3) @ drop 144 pt2)"
    "hs_h h3 = Sum256 N (array_bytes (hs_h h1) @ take 80 (drop 64 pt2))" "hs_serverStatic h4 = rs"
    using h0 h1 h3 d2(2) d1(2) by (auto simp: start_handshake_eq mixHash_def mixKey_eq)
  have hash: "hs_h h1 = Sum256 N (array_bytes (Sum256 N (array_bytes (Sum256 N (array_bytes (Sum256 N (array_bytes
      (Sum256 N (string_bytes ProtocolName)))) @ array_bytes (SerializeEllswift e))) @ [])) @ array_bytes re)"
    using h0 h1 re' by (auto simp: start_handshake_eq mixHash_def mixKey_eq SerializeEllswift_def SerializeEllswiftBytes_def)
  let ?tr = "nx_transcript N (SerializeEllswift e) re rs ee es pc"
  have "tr_reply ?tr = array_bytes re @ take 80 (drop 64 pt2) @ drop 144 pt2" "transport N ?tr = c"
    "tr_h ?tr = hs_h h4"
    by (simp_all add: nx_transcript_def Let_def transport_def c d1(1) [unfolded ps] d2(1) states hash)
  then show thesis
    using e ee es pt2(2) pt2' cert hs' states(5) by (intro that [of e \<rho>' re ee rs es pc cert]) auto
qed

text \<open>A reply that ends too early.\<close>

lemma initiator_short:
  fixes r :: Duplex
  assumes "NewKeypair B rnd \<rho> = Some (e, \<rho>')" and "length (concat (dx_in r)) < 234"
  shows "\<exists>hs' r'. PerformHandshakeInitiator duplex_Read duplex_Write N B rnd hs r \<rho> =
    Some (Inl (if concat (dx_in r) = [] then IO_EOF else IO_ErrUnexpectedEOF), hs', r')"
proof -
  obtain h0 where h0: "start_handshake N hs = Some h0" by (simp add: start_handshake_eq)
  then have "hs_cs (mixHash N h0 d) = Some zero_CipherState" for d by (auto simp: start_handshake_eq mixHash_def)
  note enc = EncryptHash_unkeyed(1) [OF this]
  show ?thesis
    using assms duplex_read_loop_short [of "[]" "r\<lparr>dx_out := dx_out r @ SerializeEllswiftBytes e\<rparr>" 234]
    by (simp add: PerformHandshakeInitiator_def h0 enc duplex_Write_def ReadFull_def)
qed

end
