(* ===== verification/Sha256.thy ===== *)
theory Sha256
  imports Prelude
begin

text \<open>
  SHA-256 as FIPS 180-4 defines it: padding, message schedule and compression on 32-bit
  words. The hash package that \<open>src/noise.go\<close> imports is outside the repository and a
  parameter of the model (the field \<open>Sum256\<close> of \<open>Noise_Lib\<close>); this function models no code
  and only serves \<open>Sample_Lib\<close> as the concrete instance of that parameter.
\<close>

unbundle bit_operations_syntax

section \<open>Words and blocks\<close>

definition be32 :: "u32 \<Rightarrow> byte list" where
  "be32 w = rev (le32 w)"

definition be64 :: "u64 \<Rightarrow> byte list" where
  "be64 w = rev (le64 w)"

text \<open>The words of a block, most significant byte first.\<close>

fun be_words :: "byte list \<Rightarrow> u32 list" where
  "be_words (a # b # c # d # bs) =
     (push_bit 24 (ucast a) OR push_bit 16 (ucast b) OR push_bit 8 (ucast c) OR ucast d) # be_words bs"
| "be_words _ = []"

definition sha_pad :: "byte list \<Rightarrow> byte list" where
  "sha_pad m = m @ [0x80] @ replicate ((119 - length m mod 64) mod 64) 0 @ be64 (word_of_nat (8 * length m))"

fun sha_blocks :: "nat \<Rightarrow> byte list \<Rightarrow> byte list list" where
  "sha_blocks 0 bs = []"
| "sha_blocks (Suc n) bs = take 64 bs # sha_blocks n (drop 64 bs)"

section \<open>The compression function\<close>

text \<open>
  The constants of the function are the first 32 bits of the fractional parts of roots of
  the first primes: \<open>root_bits k n b r\<close> adds to \<open>r\<close> the lower \<open>b\<close> bits of the integer
  \<open>k\<close>-th root of \<open>n\<close>, and the conversion to 32 bits drops the integral part.
\<close>

fun root_bits :: "nat \<Rightarrow> int \<Rightarrow> nat \<Rightarrow> int \<Rightarrow> int" where
  "root_bits k n 0 r = r"
| "root_bits k n (Suc b) r = root_bits k n b (if (r + 2 ^ b) ^ k \<le> n then r + 2 ^ b else r)"

definition root_fraction :: "nat \<Rightarrow> int \<Rightarrow> u32" where
  "root_fraction k p = word_of_int (root_bits k (p * 2 ^ (32 * k)) 36 0)"

definition sha_primes :: "int list" where
  "sha_primes = filter (\<lambda>p. list_all (\<lambda>d. p mod d \<noteq> 0) [2..p - 1]) [2..311]"

definition sha_K :: "u32 list" where
  "sha_K = map (root_fraction 3) sha_primes"

definition rotr32 :: "nat \<Rightarrow> u32 \<Rightarrow> u32" where
  "rotr32 n w = (drop_bit n w OR push_bit (32 - n) w)"

text \<open>
  The schedule, the newest word first: each further word is computed from the words 2, 7,
  15 and 16 places back.
\<close>

definition schedule_word :: "u32 list \<Rightarrow> u32" where
  "schedule_word w =
     (let x = w ! 14; y = w ! 1
      in (rotr32 17 y XOR rotr32 19 y XOR drop_bit 10 y) + w ! 6 +
         (rotr32 7 x XOR rotr32 18 x XOR drop_bit 3 x) + w ! 15)"

fun extend_schedule :: "nat \<Rightarrow> u32 list \<Rightarrow> u32 list" where
  "extend_schedule 0 w = w"
| "extend_schedule (Suc n) w = extend_schedule n (schedule_word w # w)"

type_synonym sha_state = "u32 \<times> u32 \<times> u32 \<times> u32 \<times> u32 \<times> u32 \<times> u32 \<times> u32"

definition sha_round :: "sha_state \<Rightarrow> u32 \<times> u32 \<Rightarrow> sha_state" where
  "sha_round = (\<lambda>(a, b, c, d, e, f, g, h) (k, w).
     let t1 = h + (rotr32 6 e XOR rotr32 11 e XOR rotr32 25 e) + ((e AND f) XOR (NOT e AND g)) + k + w;
         t2 = (rotr32 2 a XOR rotr32 13 a XOR rotr32 22 a) + ((a AND b) XOR (a AND c) XOR (b AND c))
     in (t1 + t2, a, b, c, d + t1, e, f, g))"

definition sha_compress :: "sha_state \<Rightarrow> byte list \<Rightarrow> sha_state" where
  "sha_compress = (\<lambda>(a, b, c, d, e, f, g, h) block.
     let (a', b', c', d', e', f', g', h') =
       foldl sha_round (a, b, c, d, e, f, g, h)
         (zip sha_K (rev (extend_schedule 48 (rev (be_words block)))))
     in (a + a', b + b', c + c', d + d', e + e', f + f', g + g', h + h'))"

definition sha_init :: sha_state where
  "sha_init =
     (root_fraction 2 2, root_fraction 2 3, root_fraction 2 5, root_fraction 2 7,
      root_fraction 2 11, root_fraction 2 13, root_fraction 2 17, root_fraction 2 19)"

definition sha_digest :: "sha_state \<Rightarrow> byte list" where
  "sha_digest = (\<lambda>(a, b, c, d, e, f, g, h).
     be32 a @ be32 b @ be32 c @ be32 d @ be32 e @ be32 f @ be32 g @ be32 h)"

definition sha256 :: "byte list \<Rightarrow> byte list" where
  "sha256 data =
     (let padded = sha_pad data
      in sha_digest (foldl sha_compress sha_init (sha_blocks (length padded div 64) padded)))"

definition sha256_array :: "byte list \<Rightarrow> 32 byte_array" where
  "sha256_array data = Array (sha256 data)"

lemma length_sha256 [simp]: "length (sha256 data) = 32"
  by (simp add: sha256_def sha_digest_def be32_def le32_def Let_def split: prod.split)

lemma sha256_array_bytes: "array_bytes (sha256_array data) = sha256 data"
  by (simp add: sha256_array_def)

end
