(* ===== verification/Sample_Lib.thy ===== *)
theory Sample_Lib
  imports Sv2_Conn Nonce_Concurrency Key_Grinder Example_Logger Handshake_Replies Sha256
begin

text \<open>
  Concrete functions for the packages outside the repository, which fulfil the
  hypotheses made about them. They are no cryptography: they only show that the
  hypotheses can hold together, and let the properties be applied to concrete inputs.
\<close>

definition sample_aead :: "byte list AEAD" where
  "sample_aead = \<lparr>
     aead_New = (\<lambda>k. if length k = 32 then Inr k else Inl (External ''bad key length'')),
     aead_Seal = (\<lambda>g n p ad. p @ replicate 16 0),
     aead_Open = (\<lambda>g n c ad. if length c < 16 \<or> drop (length c - 16) c \<noteq> replicate 16 0 then Inl (External ''message authentication failed'')
                   else Inr (take (length c - 16) c)),
     uint64_pow = 0\<rparr>"

definition sample_noise :: "(byte list, 32 byte_array) Noise_Lib" where
  "sample_noise = AEAD.extend sample_aead (Noise_Lib.fields (\<lambda>k a b i. Inr zero_array) sha256_array)"

definition sample_curve :: "(32 byte_array, unit, 32 byte_array, 32 byte_array) Btcec" where
  "sample_curve = \<lparr>
     PrivKeyFromBytes = (\<lambda>bs. Array (take 32 (bs @ replicate 32 0))),
     PrivKey_Serialize = array_bytes,
     PrivKey_PubKey = (\<lambda>_. ()),
     PubKey_X = (\<lambda>_. 0),
     ScalarBaseMultNonConst = (\<lambda>k. k),
     ToAffine = (\<lambda>j. j),
     Jacobian_X = (\<lambda>j. j),
     FieldVal_SetBytes = (\<lambda>a. (a, 0)),
     FieldVal_SetByteSlice = (\<lambda>bs. Array (take 32 (bs @ replicate 32 0))),
     FieldVal_Normalize = (\<lambda>f. f),
     FieldVal_Bytes = (\<lambda>f. f),
     XSwiftECInv = (\<lambda>u x c. Some u)\<rparr>"

definition sample_random :: "nat random" where
  "sample_random r n = ((replicate n (word_of_nat r), None), r + 1)"

definition sample_schnorr :: "('k, byte list, unit) Schnorr" where
  "sample_schnorr = \<lparr>
     ParseSignature = (\<lambda>b. Inr (take 32 b)),
     ParsePubKey = (\<lambda>_. Inr ()),
     Sig_Verify = (\<lambda>s h p. length h = 32 \<and> s = h),
     Schnorr_Sign = (\<lambda>k h. if length h = 32 then Inr h else Inl (External ''wrong size for message'')),
     Sig_Serialize = (\<lambda>s. s @ replicate 32 0)\<rparr>"

definition sample_cert :: SIGNATURE_NOISE_MESSAGE where
  "sample_cert = \<lparr>snm_Version = 0, snm_ValidFrom = 1, snm_NotValidAfter = 2, snm_Signature = zero_array\<rparr>"

section \<open>The hypotheses hold\<close>

lemma sample_aead_ok: "aead_ok sample_aead" "maxNoiseNonce sample_aead \<noteq> 0"
  by (simp_all add: aead_ok_def sample_aead_def maxNoiseNonce_def)

lemma sample_noise_fields:
  "aead_New sample_noise = aead_New sample_aead" "aead_Seal sample_noise = aead_Seal sample_aead"
  "aead_Open sample_noise = aead_Open sample_aead" "uint64_pow sample_noise = uint64_pow sample_aead"
  "V2Ecdh sample_noise = (\<lambda>k a b i. Inr zero_array)" "Sum256 sample_noise = sha256_array"
  by (simp_all add: sample_noise_def sample_aead_def AEAD.defs Noise_Lib.defs)

lemma sample_noise_ok: "aead_ok sample_noise" "maxNoiseNonce sample_noise \<noteq> 0"
  using sample_aead_ok by (simp_all add: aead_ok_def maxNoiseNonce_def sample_noise_fields)

lemma sample_curve_ok: "btcec_ok sample_curve"
  by (simp add: btcec_ok_def sample_curve_def)

lemma sample_ecdh_ok: "ecdh_ok sample_noise sample_curve"
  by (simp add: ecdh_ok_def sample_noise_fields)

lemma sample_random_ok: "rand_ok sample_random"
  by (simp add: rand_ok_def sample_random_def)

lemma sample_schnorr_pair: "schnorr_pair sample_schnorr k pk"
  by (auto simp: schnorr_pair_def sample_schnorr_def min_def)

text \<open>A key pair drawn from the random source.\<close>

definition sample_key :: "nat \<Rightarrow> (32 byte_array, unit) Keypair" where
  "sample_key r = fst (the (NewKeypair sample_curve sample_random r))"

lemma sample_NewKeypair: "NewKeypair sample_curve sample_random r = Some (sample_key r, r + 3)"
proof -
  have "\<exists>kp. NewKeypair sample_curve sample_random r = Some (kp, r + 3)"
    by (simp add: NewKeypair_def EllswiftCreate_def XElligatorSwift.simps sample_random_def
        sample_curve_def FillBytes_def getXCoord_def Let_def)
  then show ?thesis by (auto simp: sample_key_def)
qed

lemma sample_key_ok: "keypair_ok sample_curve (sample_key r)"
  by (rule NewKeypair_ok [OF sample_curve_ok sample_NewKeypair])

lemma sample_open_length: "open_length sample_noise"
  by (auto simp: open_length_def sample_noise_fields sample_aead_def split: if_splits)

lemma sample_open_sealed: "open_sealed sample_noise"
  by (auto simp: open_sealed_def sample_noise_fields sample_aead_def split: if_splits)
    (metis append_take_drop_id)

lemma sample_nonces: "maxNoiseNonce sample_noise = - 1"
  by (simp add: maxNoiseNonce_def sample_noise_fields sample_aead_def)

text \<open>Every point of the sample curve has the coordinate 0.\<close>

lemma sample_X: "FillBytes (PubKey_X sample_curve p) 32 = Some (replicate 32 0)"
  by (simp add: sample_curve_def FillBytes_def map_replicate_const)

lemma sample_PublicKey:
  assumes "keypair_ok sample_curve kp"
  shows "PublicKey kp = Some zero_array"
proof -
  obtain k where "NewKeypairFrom sample_curve (Array (PrivKey_Serialize sample_curve k)) (kp_auxRand kp)
      (kp_caseNum kp) = Some (Inr kp)" using assms by (auto simp: keypair_ok_def)
  then have "kp_publicX kp = Some (replicate 32 0)"
    by (cases "EllswiftRecreateFromBytes sample_curve (Array (PrivKey_Serialize sample_curve k)) (kp_auxRand kp)
        (kp_caseNum kp)") (auto simp: NewKeypairFrom_def sample_X dest: arg_cong [where f = kp_publicX])
  then show ?thesis
    by (simp add: PublicKey_def PublicKeyBytes_def array_of_slice_Some zero_array_def slice_bytes_def)
qed

lemma sample_xswift_ok: "xswift_ok (\<lambda>u t. Inr zero_array) sample_curve"
  by (auto simp: xswift_ok_def sample_PublicKey sample_curve_def)

text \<open>A text form in which every key has the wanted string.\<close>

definition sample_text :: "byte list \<Rightarrow> u8 \<Rightarrow> string" where
  "sample_text b v = ''9xSV2''"

lemma sample_hit:
  "\<exists>res. grinder_try sample_curve sample_text sample_random (length grind_str) grind_str n el \<rho> =
     Some (Hit res, \<rho> + 3)"
  by (simp add: grinder_try_def grind_str_def EllswiftCreate_def XElligatorSwift.simps sample_random_def
      sample_curve_def FillBytes_def getXCoord_def Let_def SerializeAuthorityKey_def sample_text_def)

definition sample_cipher :: "byte list CipherState" where
  "sample_cipher = fst (InitializeKey sample_aead zero_CipherState zero_array)"

lemma sample_cipher_ok:
  "keyed sample_cipher (replicate 32 0)" "cs_n sample_cipher = 0" "nonces_left sample_aead sample_cipher"
  by (simp_all add: sample_cipher_def InitializeKey_def sample_aead_def keyed_def slice_bytes_def
      nonces_left_def maxNoiseNonce_def)

lemma sample_nonces_for: "nonces_for sample_noise 0 3"
  by (auto simp: nonces_for_def sample_nonces unsigned_of_nat take_bit_nat_eq_self unsigned_minus_1_eq_mask
      mask_eq_exp_minus_1 dest!: arg_cong [where f = "unat :: u64 \<Rightarrow> nat"])

text \<open>A connection after its handshake, and the command line of the client.\<close>

definition sample_conn :: "(byte list, Duplex) Sv2Conn" where
  "sample_conn = \<lparr>sv_NetConn = \<lparr>dx_in = [], dx_out = []\<rparr>, sv_Send = sample_cipher, sv_Recv = sample_cipher\<rparr>"

definition sample_Settings :: "string Settings" where
  "sample_Settings = configure (\<lambda>t. Some t) (builtin_Settings (\<lambda>_. None)) (default_Options\<lparr>o_address := ''bc1q''\<rparr>)"

lemma sample_Settings_ok:
  "length (cfg_poolhost sample_Settings) \<le> 255" "cfg_addr sample_Settings = Some ''bc1q''" "length ''bc1q'' \<le> 244"
  by (simp_all add: sample_Settings_def configure_def default_Options_def Let_def)

text \<open>A decoder of texts that finds the key of zeroes in every text.\<close>

definition sample_Decode :: "string \<Rightarrow> error + byte list \<times> u8" where
  "sample_Decode t = Inr (0 # replicate 32 0, 1)"

lemma sample_Decode_key:
  "DeserializeAuthorityKey sample_Decode t = Some (Inr (array_bytes (zero_array :: Pubkey)))"
  by (simp add: DeserializeAuthorityKey_def sample_Decode_def index_def)

end
