(* ===== verification/Spec2Isabelle.thy ===== *)
theory Spec2Isabelle
  imports Core_Messages Mining_Messages Custom_Job Message_Types U256_Arith Codec_State Sample_Lib
begin

text \<open>
  A verification library for the Go package \<open>stratumv2\<close>: the codec, the message types,
  the framing and the Noise transport of the Stratum V2 mining protocol, with the programs
  under \<open>src/examples\<close> that use it: a logging client, a test server and a key grinder.

  \<^bold>\<open>The program.\<close>
  A peer dials a connection and performs the NX handshake
  (\<open>HandshakeState.PerformHandshakeInitiator\<close>, \<open>PerformHandshakeResponder\<close> of
  \<open>src/noise.go\<close>), which generates key pairs in ElligatorSwift form
  (\<open>src/ellswift.go\<close>), carries the server's certificate and ends in two
  \<open>CipherState\<close>s, one per direction. From then on messages flow: a message struct
  (\<open>src/core.go\<close>, \<open>src/mining.go\<close>) is encoded by its \<open>Encode\<close> with a
  \<open>BinaryBuilder\<close> (\<open>src/binary.go\<close>), put into a \<open>Frame\<close> (\<open>src/types.go\<close>),
  encrypted by \<open>EncryptFrameToWriter\<close> as a sealed header and a sealed payload, and on
  the other side read by \<open>DecryptFrameFromReader\<close>, turned into a message by
  \<open>Frame.ToParams\<close> and the message's \<open>Decode\<close>, which uses a \<open>BinaryReader\<close>.

  \<^bold>\<open>Theories and the code they model.\<close>
  \<^item> \<open>Prelude\<close>: Go's integers as words (\<open>u8\<close> to \<open>u64\<close>), slices as optional byte
    lists (\<open>None\<close> is \<open>nil\<close>), fixed-size arrays as the type \<open>'n byte_array\<close>, strings
    as their bytes, \<open>encoding/binary\<close>'s little-endian access, the error values of the
    package, and the collections \<open>go_reader\<close> and \<open>go_view\<close> that carry the codec
    proofs.
  \<^item> \<open>Sha256\<close>: the function SHA-256, executable on bytes; it models no code of the
    repository and is the instance that \<open>Sample_Lib\<close> gives to the hash parameter.
  \<^item> \<open>Binary_Builder\<close>, \<open>Binary_Reader\<close>: the two structs of \<open>src/binary.go\<close>, one
    definition per method. \<open>view\<close> abstracts a builder to the bytes written so far or the
    first error; the locale \<open>field_writer\<close> is the contract of an \<open>Add\<close> method over it,
    \<open>field_codec\<close> adds the matching \<open>Read\<close> method, and \<open>fixed_field\<close> (a sublocale)
    is the case of fields of fixed width. The pairs of methods (other than \<open>AddBin16M\<close>
    and \<open>ReadBin16M\<close>, whose limits differ) are interpretations.
  \<^item> \<open>Sequences\<close>: the sequence types of \<open>src/types.go\<close> as one datatype, with
    \<open>AddSeq*\<close>, \<open>AddOptionT\<close>, \<open>ReadSeq*\<close>, \<open>ReadOptionT\<close>.
  \<^item> \<open>U256_Arith\<close>: \<open>U256\<close>, its text form, comparison and arithmetic.
  \<^item> \<open>Codec\<close>: the locale \<open>message_codec\<close>, what is proved of a message's methods: \<open>Encode\<close>
    and \<open>Decode\<close> are inverse and \<open>Decode\<close> takes exactly what it returns. The interface
    \<open>Codable\<close> of \<open>src/types.go\<close> is just the two method signatures: the frame layer takes any
    \<open>Encode\<close> and \<open>Decode\<close> as arguments and does not assume the contract.
  \<^item> \<open>Core_Messages\<close>, \<open>Mining_Messages\<close>: a record, \<open>Encode\<close> and \<open>Decode\<close> for
    every message of \<open>src/core.go\<close> and \<open>src/mining.go\<close>, each an interpretation of
    \<open>message_codec\<close>; an embedded struct is a record extension. \<open>Custom_Job\<close> holds
    \<open>SetCustomMiningJob\<close>, which fulfils no such contract. \<open>Message_Types\<close> has the
    constants of \<open>src/constants.go\<close> and the message names.
  \<^item> \<open>Go_IO\<close>: \<open>io.ReadFull\<close> over any reader; the locale \<open>io_reader\<close> is its contract,
    interpreted by a connection that delivers its bytes in arbitrary chunks and by
    \<open>BinaryReader\<close> itself.
  \<^item> \<open>Frames\<close>: \<open>Frame\<close> and \<open>TLV\<close> of \<open>src/types.go\<close>.
  \<^item> \<open>Noise_Cipher\<close>: \<open>CipherState\<close> of \<open>src/noise.go\<close>, and frames over it;
    \<open>Nonce_Concurrency\<close>: \<open>EncryptWithAd\<close> as interleaved steps of goroutines.
  \<^item> \<open>Ellswift\<close>: \<open>src/ellswift.go\<close> and \<open>Keypair\<close>; \<open>Certificates\<close>:
    \<open>SIGNATURE_NOISE_MESSAGE\<close>, its signing and verification, and authority keys;
    \<open>Handshake\<close>: the key derivation, \<open>HandshakeState\<close> and both sides of the handshake,
    over the locale \<open>io_duplex\<close> (a reader that can also be written to);
    \<open>Handshake_Replies\<close>: which replies the initiator accepts.
  \<^item> \<open>Codec_State\<close>: what every method of \<open>src/binary.go\<close> keeps of the builder and of
    the reader.
  \<^item> \<open>Sv2_Conn\<close>: the connection type of \<open>src/examples/shared/shared.go\<close>.
  \<^item> \<open>Step_Systems\<close>: two locales for programs of several goroutines, an invariant of a
    step relation (\<open>invariant_system\<close>) and a phase with a measure (\<open>measured_system\<close>);
    the three programs below are their interpretations.
  \<^item> \<open>Key_Grinder\<close> (\<open>src/examples/grinder/pubkeygrinder.go\<close>): one round of a goroutine as
    a function, and \<open>grind_step\<close>: four goroutines, the buffered channel, the cancelled
    context and \<open>main\<close>.
  \<^item> \<open>Example_Server\<close> (\<open>src/examples/server/server.go\<close>): \<open>serve_conn\<close> is a goroutine
    after its handshake, \<open>server_step\<close> the accept loop with all goroutines and the
    \<open>HandshakeState\<close> that they share.
  \<^item> \<open>Example_Logger\<close> (\<open>src/examples/logger/logger.go\<close>): the messages of the client,
    \<open>client_connect\<close> with its certificate check, and \<open>logger_step\<close>: \<open>main\<close> and the
    reading goroutine.
  \<^item> \<open>Sample_Lib\<close>: concrete instances of the packages outside the repository, for the
    witnesses.

  \<^bold>\<open>Conventions.\<close>
  A pointer receiver that is written is a value that is passed and returned. A function
  that can panic returns an option, whose \<open>None\<close> is the panic (an index out of range, a
  failed type assertion, a nil dereference); a returned Go error is the option in the pair
  with the value, or \<open>Inl\<close> where the value is \<open>nil\<close> beside it. A \<open>BinaryBuilder\<close>
  keeps its \<open>cap\<close>, because \<open>Frame.Encode\<close> and the cipher look at capacity; a slice that
  is re-sliced beyond its length is a pair of its bytes and its spare capacity. A
  connection is the list of chunks that it will deliver before its peer closes it; a writer
  takes everything that is written. \<open>idle_Read\<close> is a connection whose peer stays silent
  instead: the read after the last chunk never returns, which is \<open>None\<close> as well.

  A program with goroutines is a step relation on the state of the whole program. A step
  takes one goroutine from one of its waits or shared accesses to the next: a \<open>select\<close>, a
  send or receive on a channel, a read that waits for the peer, a whole frame read or
  written. \<open>log.Fatal\<close> and a panic set a field of the state after which no step is left.
  The random source and the clock may be in any state at every draw. The handshake of a
  server goroutine is two steps, cut where it waits for the client's key
  (\<open>start_handshake\<close>, \<open>responder_rest\<close>); \<open>Nonce_Concurrency\<close> is finer, with a step for
  every access of the nonce counter of a keyed state. The client reads its channel number
  twice when it closes, in two steps.

  \<^bold>\<open>Code outside the repository\<close> is a parameter: the AEAD (record \<open>AEAD\<close>), the
  ElligatorSwift key exchange and SHA-256 (\<open>Noise_Lib\<close>), the curve package (\<open>Btcec\<close>), Schnorr
  signatures (\<open>Schnorr\<close>), base58 (two functions), the transaction encoder, the decoder of
  ElligatorSwift keys, the address package and the source of randomness (a state
  transformer). What is relied on is named: \<open>aead_ok\<close> (opening
  what was sealed under the same key, nonce and additional data gives it back, ciphertexts
  are 16 bytes longer), \<open>btcec_ok\<close> (keys and their serialisation), \<open>ecdh_ok\<close> (the
  exchange is symmetric), \<open>schnorr_pair\<close> (a signature on a 32-byte hash verifies under
  its key),
  \<open>rand_ok\<close> (the source delivers as many bytes as asked for), \<open>open_length\<close> (what opens
  is 16 bytes shorter than its ciphertext), \<open>open_sealed\<close> (what opens is the seal of what
  it opens to), \<open>xswift_ok\<close> (an ElligatorSwift key decodes to
  the coordinate of the key it was made for). \<open>Sample_Lib\<close> shows that
  they hold together.

  \<^bold>\<open>What is proved.\<close>
  \<^item> Codec: every primitive and sequence reads back what was written, whatever follows;
    the structs stay well formed and the first error stays; length limits, with that of \<open>AddBin16M\<close>, which
    the source computes with the operator for exclusive or.
  \<^item> Messages: all but \<open>SetCustomMiningJob\<close> round-trip, and decoding accepts exactly what
    encoding writes; the inputs on which decoding panics.
  \<^item> \<open>U256\<close>: addition and subtraction are those of integers modulo \<open>2 ^ 256\<close>;
    \<open>Compare\<close> is the order of the numbers unless both share their leading non-zero byte,
    with the consequence for \<open>IsMetBy\<close> stated exactly.
  \<^item> Frames: a frame made from any parameters is read back and hands their \<open>Decode\<close> exactly
    what their \<open>Encode\<close> gave, so the messages come back; a stream of frames is cut at the
    right places, the behaviour on TLVs on every branch.
  \<^item> Transport: frames arrive in order and unchanged over a connection that delivers in any
    chunks; nonces never repeat in sequential use; what happens to payloads that are empty
    or of more than one chunk, and to concurrent callers.
  \<^item> Handshake: both sides finish with the same keys and transcript hash, and a message
    sent over the connection after it arrives; the initiator accepts only replies of the
    protocol, bound to its own key. A client accepts a signed certificate over
    the handshake exactly in its validity period. Key storage, authority keys.
  \<^item> Client and server: what the client sends in any run, against any server; that it and
    the example server finish with each other, and how: the server never answers, and its
    certificate has expired. A server goroutine ends if its client closes the connection,
    and waits for ever with a client that stays connected and silent. Clients one after
    another are served; of two at once, one makes the other's goroutine end the process
    through the shared handshake state.
  \<^item> Grinder: every collected result is a key pair with the wanted text; after the
    cancellation at most 15 steps are left; the program ends if the results that may
    still come fit the channel, and there is a run in which it hangs.

  \<^bold>\<open>Termination and fuel.\<close>
  No definition uses fuel. \<open>decode_tlvs\<close> recurs on the bytes left, with a termination
  proof. \<open>io.ReadFull\<close>, \<open>XElligatorSwift\<close> and the reading loop of the server
  (\<open>serve_loop\<close>) run until the reader or the random source is kind, so they are partial
  functions into options. That they return is proved: for any reader that fulfils
  \<open>io_reader\<close>, for a random source one of whose draws has an encoding, and for a
  connection that delivers finitely many bytes and is then closed.

  \<^bold>\<open>Not modelled.\<close>
  Log output and printing, the parsing of command lines and of host and port, dialling and
  listening, errors of \<open>Accept\<close> (which are printed and skipped),
  \<open>src/jobdeclaration.go\<close> and \<open>src/templatedistribution.go\<close> (a package clause
  each), and the
  tests. Slices are values: the sharing of a backing array between a decoded message and
  its input is not tracked. \<open>nil\<close> pointers are modelled where the code tests for them
  or a caller can pass them in ordinary use (\<open>Compare\<close>, the certificate), not as
  receivers. A \<open>float32\<close> is its bit pattern, since the code only converts it.
  Secrecy and authenticity in the sense of an attacker model are outside this development.
\<close>

section \<open>Messages and frames\<close>

text \<open>
  C7. Every message of the mining protocol except \<open>SetCustomMiningJob\<close>, and every message
  that all protocols share: a message that encodes without error is decoded to the same
  message, whatever the receiver held and whatever bytes follow.
\<close>

theorem messages_roundtrip:
  "round_trips SetupConnection_Encode SetupConnection_Decode \<and>
   round_trips SetupConnectionSuccess_Encode SetupConnectionSuccess_Decode \<and>
   round_trips SetupConnectionError_Encode SetupConnectionError_Decode \<and>
   round_trips ChannelEndpointChanged_Encode ChannelEndpointChanged_Decode \<and>
   round_trips Reconnect_Encode Reconnect_Decode \<and>
   round_trips OpenStandardMiningChannel_Encode (OpenStandardMiningChannel_Decode :: OpenStandardMiningChannel \<Rightarrow> _) \<and>
   round_trips OpenStandardMiningChannelSuccess_Encode OpenStandardMiningChannelSuccess_Decode \<and>
   round_trips OpenExtendedMiningChannel_Encode OpenExtendedMiningChannel_Decode \<and>
   round_trips OpenExtendedMiningChannelSuccess_Encode OpenExtendedMiningChannelSuccess_Decode \<and>
   round_trips OpenMiningChannelError_Encode OpenMiningChannelError_Decode \<and>
   round_trips UpdateChannel_Encode UpdateChannel_Decode \<and>
   round_trips UpdateChannelError_Encode UpdateChannelError_Decode \<and>
   round_trips CloseChannel_Encode CloseChannel_Decode \<and>
   round_trips SetExtranoncePrefix_Encode SetExtranoncePrefix_Decode \<and>
   round_trips SubmitSharesStandard_Encode (SubmitSharesStandard_Decode :: SubmitSharesStandard \<Rightarrow> _) \<and>
   round_trips SubmitSharesExtended_Encode SubmitSharesExtended_Decode \<and>
   round_trips SubmitSharesSuccess_Encode SubmitSharesSuccess_Decode \<and>
   round_trips SubmitSharesError_Encode SubmitSharesError_Decode \<and>
   round_trips NewMiningJob_Encode NewMiningJob_Decode \<and>
   round_trips NewExtendedMiningJob_Encode NewExtendedMiningJob_Decode \<and>
   round_trips SetNewPrevHash_Encode SetNewPrevHash_Decode \<and>
   round_trips SetCustomMiningJobSuccess_Encode SetCustomMiningJobSuccess_Decode \<and>
   round_trips SetCustomMiningJobError_Encode SetCustomMiningJobError_Decode \<and>
   round_trips SetTarget_Encode SetTarget_Decode \<and>
   round_trips SetGroupChannel_Encode SetGroupChannel_Decode"
  by (intro conjI SetupConnection.codec_round_trips SetupConnectionSuccess.codec_round_trips
      SetupConnectionError.codec_round_trips ChannelEndpointChanged.codec_round_trips
      Reconnect.codec_round_trips OpenStandardMiningChannel.codec_round_trips
      OpenStandardMiningChannelSuccess.codec_round_trips
      OpenExtendedMiningChannel.codec_round_trips
      OpenExtendedMiningChannelSuccess.codec_round_trips
      OpenMiningChannelError.codec_round_trips UpdateChannel.codec_round_trips
      UpdateChannelError.codec_round_trips CloseChannel.codec_round_trips
      SetExtranoncePrefix.codec_round_trips SubmitSharesStandard.codec_round_trips
      SubmitSharesExtended.codec_round_trips SubmitSharesSuccess.codec_round_trips
      SubmitSharesError.codec_round_trips NewMiningJob.codec_round_trips
      NewExtendedMiningJob.codec_round_trips SetNewPrevHash.codec_round_trips
      SetCustomMiningJobSuccess.codec_round_trips SetCustomMiningJobError.codec_round_trips
      SetTarget.codec_round_trips SetGroupChannel.codec_round_trips)

text \<open>
  C11. The other direction, for the messages that steer mining: a decode without error has
  read exactly the encoding of the decoded message from the front of its input, so
  nothing malformed is accepted.
\<close>

theorem decoding_is_exact:
  "exact_decoding SetupConnection_Encode SetupConnection_Decode \<and>
   exact_decoding OpenStandardMiningChannel_Encode (OpenStandardMiningChannel_Decode :: OpenStandardMiningChannel \<Rightarrow> _) \<and>
   exact_decoding OpenExtendedMiningChannel_Encode OpenExtendedMiningChannel_Decode \<and>
   exact_decoding UpdateChannel_Encode UpdateChannel_Decode \<and>
   exact_decoding SubmitSharesStandard_Encode (SubmitSharesStandard_Decode :: SubmitSharesStandard \<Rightarrow> _) \<and>
   exact_decoding SubmitSharesExtended_Encode SubmitSharesExtended_Decode \<and>
   exact_decoding NewMiningJob_Encode NewMiningJob_Decode \<and>
   exact_decoding NewExtendedMiningJob_Encode NewExtendedMiningJob_Decode \<and>
   exact_decoding SetNewPrevHash_Encode SetNewPrevHash_Decode \<and>
   exact_decoding SetTarget_Encode SetTarget_Decode \<and>
   exact_decoding SetGroupChannel_Encode SetGroupChannel_Decode"
  by (intro conjI SetupConnection.codec_exact OpenStandardMiningChannel.codec_exact
      OpenExtendedMiningChannel.codec_exact UpdateChannel.codec_exact
      SubmitSharesStandard.codec_exact SubmitSharesExtended.codec_exact
      NewMiningJob.codec_exact NewExtendedMiningJob.codec_exact SetNewPrevHash.codec_exact
      SetTarget.codec_exact SetGroupChannel.codec_exact)

text \<open>
  C34. A job whose \<open>MinTime\<close> option has a count above one does not give a decoding error:
  the type assertion on the missing sequence panics.
\<close>

theorem option_count_panics:
  assumes "1 < x"
  shows "NewMiningJob_Decode m1 (Some (le32 c @ le32 j @ x # rest)) = None \<and>
    NewExtendedMiningJob_Decode m2 (Some (le32 c @ le32 j @ x # rest)) = None"
  using assms
  by (simp add: NewMiningJob_Decode_def NewExtendedMiningJob_Decode_def Let_def
      NewBinaryReader_cursor ReadU32_cursor ReadOptionU32_def ReadOptionT_def ReadSeq1_def
      ReadU8_cursor)

theorem option_count_panics_witness:
  "NewMiningJob_Decode \<lparr>nmj_ChannelID = 0, nmj_JobID = 0, nmj_MinTime = [], nmj_Version = 0,
     nmj_MerkleRoot = zero_array\<rparr> (Some (le32 1 @ le32 2 @ 2 # [])) = None"
  using option_count_panics [of 2 _ 1 2 "[]"] by simp

text \<open>
  C8. The frame layer. For any \<open>Encode\<close> and \<open>Decode\<close>, what \<open>NewFrameFromParams\<close> frames has
  the type and extension asked for and the encoding as its payload, encodes without error
  and unchanged, and is the frame that \<open>Decode\<close> reads from those bytes; \<open>ToParams\<close> then runs
  the message's \<open>Decode\<close> on exactly the encoding. For each of the 25 messages other than
  \<open>SetCustomMiningJob\<close>, this gives the message that was framed.
\<close>

theorem message_frame_roundtrip:
  assumes "NewFrameFromParams Encode mt ext m = Inr f"
  shows "fr_MessageType f = mt \<and> fr_ExtensionType f = ext \<and> fr_Payload f = Some (fst (Encode m)) \<and>
    Frame_Encode f = ((frame_wire f, None), f) \<and>
    Frame_Decode zero_Frame (frame_wire f, spare) = Some (f, None) \<and>
    Frame_ToParams Decode f m0 = Decode m0 (Some (fst (Encode m))) \<and>
    frames_back SetupConnection_Encode SetupConnection_Decode \<and>
    frames_back SetupConnectionSuccess_Encode SetupConnectionSuccess_Decode \<and>
    frames_back SetupConnectionError_Encode SetupConnectionError_Decode \<and>
    frames_back ChannelEndpointChanged_Encode ChannelEndpointChanged_Decode \<and>
    frames_back Reconnect_Encode Reconnect_Decode \<and>
    frames_back OpenStandardMiningChannel_Encode (OpenStandardMiningChannel_Decode :: OpenStandardMiningChannel \<Rightarrow> _) \<and>
    frames_back OpenStandardMiningChannelSuccess_Encode OpenStandardMiningChannelSuccess_Decode \<and>
    frames_back OpenExtendedMiningChannel_Encode OpenExtendedMiningChannel_Decode \<and>
    frames_back OpenExtendedMiningChannelSuccess_Encode OpenExtendedMiningChannelSuccess_Decode \<and>
    frames_back OpenMiningChannelError_Encode OpenMiningChannelError_Decode \<and>
    frames_back UpdateChannel_Encode UpdateChannel_Decode \<and>
    frames_back UpdateChannelError_Encode UpdateChannelError_Decode \<and>
    frames_back CloseChannel_Encode CloseChannel_Decode \<and>
    frames_back SetExtranoncePrefix_Encode SetExtranoncePrefix_Decode \<and>
    frames_back SubmitSharesStandard_Encode (SubmitSharesStandard_Decode :: SubmitSharesStandard \<Rightarrow> _) \<and>
    frames_back SubmitSharesExtended_Encode SubmitSharesExtended_Decode \<and>
    frames_back SubmitSharesSuccess_Encode SubmitSharesSuccess_Decode \<and>
    frames_back SubmitSharesError_Encode SubmitSharesError_Decode \<and>
    frames_back NewMiningJob_Encode NewMiningJob_Decode \<and>
    frames_back NewExtendedMiningJob_Encode NewExtendedMiningJob_Decode \<and>
    frames_back SetNewPrevHash_Encode SetNewPrevHash_Decode \<and>
    frames_back SetCustomMiningJobSuccess_Encode SetCustomMiningJobSuccess_Decode \<and>
    frames_back SetCustomMiningJobError_Encode SetCustomMiningJobError_Decode \<and>
    frames_back SetTarget_Encode SetTarget_Decode \<and>
    frames_back SetGroupChannel_Encode SetGroupChannel_Decode"
  by (intro conjI frame_of_params [OF assms] SetupConnection.codec_frames_back SetupConnectionSuccess.codec_frames_back
      SetupConnectionError.codec_frames_back ChannelEndpointChanged.codec_frames_back
      Reconnect.codec_frames_back OpenStandardMiningChannel.codec_frames_back
      OpenStandardMiningChannelSuccess.codec_frames_back
      OpenExtendedMiningChannel.codec_frames_back
      OpenExtendedMiningChannelSuccess.codec_frames_back
      OpenMiningChannelError.codec_frames_back UpdateChannel.codec_frames_back
      UpdateChannelError.codec_frames_back CloseChannel.codec_frames_back
      SetExtranoncePrefix.codec_frames_back SubmitSharesStandard.codec_frames_back
      SubmitSharesExtended.codec_frames_back SubmitSharesSuccess.codec_frames_back
      SubmitSharesError.codec_frames_back NewMiningJob.codec_frames_back
      NewExtendedMiningJob.codec_frames_back SetNewPrevHash.codec_frames_back
      SetCustomMiningJobSuccess.codec_frames_back SetCustomMiningJobError.codec_frames_back
      SetTarget.codec_frames_back SetGroupChannel.codec_frames_back)

definition sample_target :: SetTarget where
  "sample_target = \<lparr>st_ChannelID = 7, st_MaxTarget = zero_array\<rparr>"

lemma sample_target_frame:
  "\<exists>f. NewFrameFromParams SetTarget_Encode MessageSetTarget 0 sample_target = Inr f \<and> one_chunk f"
  by (simp add: NewFrameFromParams_def SetTarget_Encode_def sample_target_def Bytes_view go_view
      fld_defs MaxU24_value one_chunk_def frame_ok_def slice_len_def Let_def)

theorem message_frame_roundtrip_witness:
  "\<exists>f. NewFrameFromParams SetTarget_Encode MessageSetTarget 0 sample_target = Inr f \<and>
     Frame_Encode f = ((frame_wire f, None), f) \<and>
     Frame_Decode zero_Frame (frame_wire f, []) = Some (f, None) \<and>
     Frame_ToParams SetTarget_Decode f sample_target = SetTarget_Decode sample_target (Some (fst (SetTarget_Encode sample_target)))"
proof -
  obtain f where f: "NewFrameFromParams SetTarget_Encode MessageSetTarget 0 sample_target = Inr f"
    using sample_target_frame by blast
  from message_frame_roundtrip [OF f, of "[]" SetTarget_Decode sample_target] f show ?thesis by blast
qed

section \<open>The encrypted transport\<close>

text \<open>
  C4. Frames sent over one cipher state and received over another with the same key arrive
  in order and unchanged, however the connection cuts their bytes, for frames without TLVs
  whose payloads have between 1 and 65519 bytes and as long as the nonces last; the two
  sides stay in step.
\<close>

theorem frames_over_cipher:
  assumes "aead_ok A" and "InitializeKey A cs1 k = (tx, e1)" and "InitializeKey A cs2 k = (rx, e2)"
    and "list_all one_chunk fs" and "2 * length fs \<le> unat (maxNoiseNonce A)"
  shows "\<exists>b tx'. encrypt_frames A tx fs = Some (b, tx') \<and>
    (\<forall>chunks rest. concat chunks = b @ rest \<longrightarrow>
      (\<exists>rx' chunks'. decrypt_frames conn_Read A rx (length fs) chunks = Some (fs, rx', chunks') \<and>
         concat chunks' = rest \<and> cs_n rx' = cs_n tx'))"
proof -
  obtain g where tx: "tx = \<lparr>cs_k = Some (array_bytes k), cs_n = 0, cs_gcm = Some g\<rparr>" and "rx = tx"
    using InitializeKey_ok [OF assms(1), of k cs1] InitializeKey_ok [OF assms(1), of k cs2] assms(2,3)
    by auto
  then have "keyed tx g" "keyed rx g" "cs_n rx = cs_n tx" "cs_n tx = 0"
    using keyed_Initialized by auto
  then show ?thesis
    using conn.frames_back [OF assms(1), of tx g rx fs] assms(4,5) by fastforce
qed

definition sample_frame :: Frame where
  "sample_frame = \<lparr>fr_ExtensionType = 0, fr_MessageType = 5, fr_MessageLength = 2,
     fr_Payload = Some [7, 8], fr_TLVs = None\<rparr>"

lemma sample_frame_ok: "one_chunk sample_frame" "frame_ok sample_frame" "fr_TLVs sample_frame = None"
  by (simp_all add: sample_frame_def one_chunk_def frame_ok_def slice_len_def)

theorem frames_over_cipher_witness:
  "\<exists>b tx'. encrypt_frames sample_aead (fst (InitializeKey sample_aead zero_CipherState zero_array))
      [sample_frame, sample_frame] = Some (b, tx') \<and>
    (\<forall>chunks rest. concat chunks = b @ rest \<longrightarrow>
      (\<exists>rx' chunks'. decrypt_frames conn_Read sample_aead
           (fst (InitializeKey sample_aead zero_CipherState zero_array))
           (length [sample_frame, sample_frame]) chunks =
           Some ([sample_frame, sample_frame], rx', chunks') \<and>
         concat chunks' = rest \<and> cs_n rx' = cs_n tx'))"
proof (rule frames_over_cipher [OF sample_aead_ok(1) prod.collapse [symmetric]
      prod.collapse [symmetric]])
  have "unat (maxNoiseNonce sample_aead) = 2 ^ 64 - 1"
    by (simp add: maxNoiseNonce_def sample_aead_def unsigned_minus_1_eq_mask mask_eq_exp_minus_1)
  then show "2 * length [sample_frame, sample_frame] \<le> unat (maxNoiseNonce sample_aead)" by simp
qed (simp add: sample_frame_ok)

text \<open>
  C5. From \<open>InitializeKey\<close> on, calls of \<open>EncryptWithAd\<close> made one after another never
  use a nonce twice: each ciphertext is sealed under a nonce of its own.
\<close>

theorem nonces_never_repeat:
  assumes "aead_ok A" and "InitializeKey A cs0 k = (cs, e)" and "enc_run A cs log cs'"
  shows "\<exists>g ns. aead_New A (array_bytes k) = Inr g \<and> distinct ns \<and> length ns = length log \<and>
    (\<forall>i < length log. \<forall>ad p c. log ! i = (ad, p, c) \<longrightarrow> c = aead_Seal A g (ns ! i) p ad)"
proof -
  obtain g where g: "aead_New A (array_bytes k) = Inr g"
    and cs: "cs = \<lparr>cs_k = Some (array_bytes k), cs_n = 0, cs_gcm = Some g\<rparr>"
    using InitializeKey_ok [OF assms(1), of k cs0] assms(2) by auto
  let ?ns = "map (\<lambda>i. nonce_bytes (word_of_nat i)) [0..<length log]"
  have run: "length log \<le> unat (maxNoiseNonce A)"
    "\<forall>i < length log. \<forall>ad p c. log ! i = (ad, p, c) \<longrightarrow>
       c = aead_Seal A g (nonce_bytes (word_of_nat i)) p ad"
    using enc_run_nonces [OF assms(3), of g] keyed_Initialized [of k 0 g] by (simp_all add: cs)
  have "length log \<le> 2 ^ 64"
    using run(1) unsigned_less [of "maxNoiseNonce A", where ?'a = nat] by simp
  from distinct_nonces [OF this, of 0] have "distinct ?ns" by simp
  with g run(2) show ?thesis by (intro exI [of _ g] exI [of _ ?ns]) simp
qed

theorem nonces_never_repeat_witness:
  "\<exists>ns cs1 cs2. distinct ns \<and> length ns = 2 \<and>
     EncryptWithAd sample_aead sample_cipher [] [1] = Some (Inr ([1] @ replicate 16 0), cs1) \<and>
     EncryptWithAd sample_aead cs1 [] [2] = Some (Inr ([2] @ replicate 16 0), cs2) \<and>
     [1] @ replicate 16 0 = aead_Seal sample_aead (replicate 32 0) (ns ! 0) [1] [] \<and>
     [2] @ replicate 16 0 = aead_Seal sample_aead (replicate 32 0) (ns ! 1) [2] []"
proof -
  let ?cs = "\<lambda>n. \<lparr>cs_k = Some (replicate 32 0), cs_n = n, cs_gcm = Some (replicate 32 0)\<rparr> ::
    byte list CipherState"
  have i: "InitializeKey sample_aead zero_CipherState zero_array = (?cs 0, None)" "sample_cipher = ?cs 0"
    by (simp_all add: InitializeKey_def sample_aead_def sample_cipher_def)
  have e: "EncryptWithAd sample_aead (?cs n) [] p = Some (Inr (p @ replicate 16 0), ?cs (n + 1))" if "n \<noteq> - 1" for n p
    using that by (simp add: EncryptWithAd_def sample_aead_def maxNoiseNonce_def slice_len_def getNonce_def)
  have e1: "EncryptWithAd sample_aead (?cs 0) [] [1] = Some (Inr ([1] @ replicate 16 0), ?cs 1)"
    and e2: "EncryptWithAd sample_aead (?cs 1) [] [2] = Some (Inr ([2] @ replicate 16 0), ?cs 2)"
    using e [of 0] e [of 1] by simp_all
  let ?log = "[([], [1], [1] @ replicate 16 0), ([], [2], [2] @ replicate 16 0)] ::
    (byte list \<times> byte list \<times> byte list) list"
  have run: "enc_run sample_aead (?cs 0) ?log (?cs 2)"
    by (rule enc_ok [OF e1 enc_ok [OF e2 enc_none]])
  obtain g ns where g: "aead_New sample_aead (array_bytes (zero_array :: 32 byte_array)) = Inr g"
    and ns: "distinct ns" "length ns = length ?log"
    and log: "\<forall>i < length ?log. \<forall>ad p c. ?log ! i = (ad, p, c) \<longrightarrow> c = aead_Seal sample_aead g (ns ! i) p ad"
    using nonces_never_repeat [OF sample_aead_ok(1) i(1) run] by blast
  have "g = replicate 32 0" using g by (simp add: sample_aead_def)
  moreover have "[1] @ replicate 16 0 = aead_Seal sample_aead g (ns ! 0) [1] []"
    by (rule log [rule_format, of 0]) simp_all
  moreover have "[2] @ replicate 16 0 = aead_Seal sample_aead g (ns ! 1) [2] []"
    by (rule log [rule_format, of 1]) simp_all
  ultimately show ?thesis
    using ns e1 e2 i(2) by (intro exI [of _ ns] exI [of _ "?cs 1"] exI [of _ "?cs 2"]) simp
qed

text \<open>
  C29. A ciphertext that does not open leaves the receiving state as it was, so the nonce
  is not lost: the next genuine ciphertext still opens.
\<close>

theorem failed_decrypt_keeps_state:
  assumes "aead_ok A" and "keyed cs g" and "cs_n cs \<noteq> maxNoiseNonce A"
    and "DecryptWithAd A cs ad c = Some (Inl e, cs')"
  shows "cs' = cs \<and> DecryptWithAd A cs' ad' (aead_Seal A g (nonce_bytes (cs_n cs)) p ad') =
    Some (Inr p, cs\<lparr>cs_n := cs_n cs + 1\<rparr>)"
  using Decrypt_fails [OF assms(4)] Decrypt_Seal [OF assms(1-3)] by simp

theorem failed_decrypt_keeps_state_witness:
  "\<exists>e. DecryptWithAd sample_aead sample_cipher [] [1, 2, 3] = Some (Inl e, sample_cipher) \<and>
     DecryptWithAd sample_aead sample_cipher [] ([5] @ replicate 16 0) =
       Some (Inr [5], sample_cipher\<lparr>cs_n := 1\<rparr>)"
proof -
  have n: "cs_n sample_cipher \<noteq> maxNoiseNonce sample_aead"
    using sample_cipher_ok(3) by (simp add: nonces_left_def)
  obtain e where e: "DecryptWithAd sample_aead sample_cipher [] [1, 2, 3] = Some (Inl e, sample_cipher)"
    using Decrypt_keyed [OF sample_cipher_ok(1) n] by (simp add: sample_aead_def)
  from failed_decrypt_keeps_state [OF sample_aead_ok(1) sample_cipher_ok(1) n e, of "[]" "[5]"] e
  show ?thesis by (simp add: sample_cipher_ok(2)) (simp add: sample_aead_def)
qed

text \<open>
  C32. A frame whose payload is empty or longer than one chunk is encrypted without an
  error, but its ciphertext does not decrypt: the lengths disagree, and the receiver is
  left one nonce behind the sender.
\<close>

theorem other_payloads_lost:
  assumes "aead_ok A" and "keyed cs g" and "nonces_left A cs" and "frame_ok f" and "fr_TLVs f = None"
    and "slice_len (fr_Payload f) = 0 \<or> 65519 < slice_len (fr_Payload f)"
  shows "\<exists>b tx e rx. EncryptFrame A cs f = Some ((Inr b, tx), f) \<and>
    DecryptFrame A cs (Some b) = Some (Inl e, rx) \<and> cs_n rx + 1 = cs_n tx"
proof -
  have enc: "EncryptFrame A cs f =
      Some ((Inr (sealed_frame A g (cs_n cs) f), cs\<lparr>cs_n := cs_n cs + 2\<rparr>), f)"
    by (rule EncryptFrame_ok [OF assms(2-5)])
  have "\<exists>e. DecryptFrame A cs (Some (sealed_frame A g (cs_n cs) f)) =
      Some (Inl e, cs\<lparr>cs_n := cs_n cs + 1\<rparr>)"
  proof (cases "slice_len (fr_Payload f) = 0")
    case True
    then have "fr_Payload f = Some []"
      using assms(4) by (auto simp: frame_ok_def slice_len_def)
    from DecryptFrame_empty_payload [OF assms(1-4) this] show ?thesis by blast
  next
    case False
    then have "65519 < slice_len (fr_Payload f)" using assms(6) by simp
    from DecryptFrame_two_chunks [OF assms(1-4) this] show ?thesis by blast
  qed
  with enc show ?thesis by (fastforce simp: add.commute)
qed

theorem other_payloads_lost_witness:
  "\<exists>b tx e rx. EncryptFrame sample_aead sample_cipher (zero_Frame\<lparr>fr_Payload := Some []\<rparr>) =
      Some ((Inr b, tx), zero_Frame\<lparr>fr_Payload := Some []\<rparr>) \<and>
    DecryptFrame sample_aead sample_cipher (Some b) = Some (Inl e, rx) \<and> cs_n rx + 1 = cs_n tx"
  by (rule other_payloads_lost [OF sample_aead_ok(1) sample_cipher_ok(1,3)])
    (simp_all add: zero_Frame_def frame_ok_def slice_len_def)

text \<open>
  C31. Two goroutines that encrypt on one \<open>CipherState\<close> can seal under the same nonce; a
  call interleaved this way at the last nonce also moves the counter past the limit that
  is tested for.
\<close>

theorem concurrent_nonce_reuse:
  assumes "cs_n cs \<noteq> maxNoiseNonce A"
  shows "\<exists>s. interleave A (all_start cs) s \<and> sh_pc s 0 = Returned (Some (cs_n cs)) \<and>
    sh_pc s 1 = Returned (Some (cs_n cs)) \<and> cs_n (sh_cs s) = cs_n cs + 2"
  using two_calls [OF assms] by (intro exI) (auto split: if_splits)

theorem concurrent_nonce_reuse_witness:
  "\<exists>s. interleave sample_aead (all_start sample_cipher) s \<and> sh_pc s 0 = Returned (Some 0) \<and>
    sh_pc s 1 = Returned (Some 0) \<and> cs_n (sh_cs s) = 2"
  using concurrent_nonce_reuse [of sample_cipher sample_aead] sample_cipher_ok(2,3)
  by (simp add: nonces_left_def)

text \<open>
  C30. A goroutine that runs its steps alone does what \<open>EncryptWithAd\<close> does as a whole:
  the same outcome and the same state afterwards.
\<close>

theorem alone_is_EncryptWithAd:
  assumes "keyed cs g" and "run_alone A i (all_start cs) s" and "sh_pc s i = Returned r"
  shows "EncryptWithAd A cs ad p =
    Some (case r of None \<Rightarrow> Inl Nonce_space_exhausted
      | Some v \<Rightarrow> Inr (aead_Seal A g (nonce_bytes v) p ad), sh_cs s)"
  by (rule alone_refines [OF assms])

theorem alone_is_EncryptWithAd_witness:
  "\<exists>s. run_alone sample_aead 0 (all_start sample_cipher) s \<and> sh_pc s 0 = Returned (Some 0) \<and>
     EncryptWithAd sample_aead sample_cipher [] [1] = Some (Inr ([1] @ replicate 16 0), sh_cs s)"
proof -
  let ?s = "\<lambda>p. \<lparr>sh_cs = sample_cipher, sh_pc = (\<lambda>_. Start)(0 := p)\<rparr>"
  let ?t = "\<lparr>sh_cs = sample_cipher\<lparr>cs_n := 1\<rparr>, sh_pc = (\<lambda>_. Start)(0 := Returned (Some 0))\<rparr>"
  have 0: "all_start sample_cipher = ?s Start" by (simp add: all_start_def fun_eq_iff)
  have "enc_step sample_aead 0 (?s Start) (?s Checked)"
    using check [of "?s Start" 0 sample_aead] sample_cipher_ok(2,3) by (simp add: nonces_left_def)
  moreover have "enc_step sample_aead 0 (?s Checked) (?s (Loaded 0))"
    using load [of "?s Checked" 0 sample_aead] by (simp add: sample_cipher_ok(2))
  moreover have "enc_step sample_aead 0 (?s (Loaded 0)) ?t"
    using add [of "?s (Loaded 0)" 0 0 sample_aead] by (simp add: sample_cipher_ok(2))
  ultimately have run: "run_alone sample_aead 0 (all_start sample_cipher) ?t"
    unfolding run_alone_def 0 by (meson converse_rtranclp_into_rtranclp rtranclp.rtrancl_refl)
  from alone_is_EncryptWithAd [OF sample_cipher_ok(1) run, of "Some 0" "[]" "[1]"] run show ?thesis
    by (intro exI [of _ ?t]) (simp add: sample_aead_def)
qed

section \<open>The handshake\<close>

text \<open>
  C1. An initiator and a responder that exchange their messages over connections, cut into
  any chunks, both finish the handshake: the responder answers the initiator's key with
  234 bytes, both return the same two cipher states, keyed and at nonce 0, with the same
  handshake hash, and the initiator holds the responder's certificate and static key. It
  rests on the symmetry of the key exchange and on the AEAD opening what it sealed.
\<close>

theorem handshake_agreement:
  fixes N :: "('g, 'k) Noise_Lib" and B :: "('k, 'q, 'j, 'f) Btcec"
  assumes "aead_ok N" and "maxNoiseNonce N \<noteq> 0" and "btcec_ok B" and "ecdh_ok N B"
    and "NewKeypair B rnd \<rho>1 = Some (e1, \<rho>1')" and "NewKeypair B rnd \<rho>2 = Some (e2, \<rho>2')"
    and "keypair_ok B st"
  shows "\<exists>reply c1 c2 g1 g2 h. length reply = 234 \<and>
    keyed c1 g1 \<and> keyed c2 g2 \<and> cs_n c1 = 0 \<and> cs_n c2 = 0 \<and>
    (\<forall>hs r s. concat (dx_in r) = SerializeEllswiftBytes e1 @ s \<longrightarrow>
      (\<exists>hs' r'. PerformHandshakeResponder duplex_Read duplex_Write N B rnd hs r cert st \<rho>2 =
          Some (Inr (c1, c2), hs', r') \<and>
        dx_out r' = dx_out r @ reply \<and> concat (dx_in r') = s \<and> hs_h hs' = h)) \<and>
    (\<forall>hs r s. concat (dx_in r) = reply @ s \<longrightarrow>
      (\<exists>hs' r'. PerformHandshakeInitiator duplex_Read duplex_Write N B rnd hs r \<rho>1 =
          Some (Inr (c1, c2), hs', r') \<and>
        dx_out r' = dx_out r @ SerializeEllswiftBytes e1 \<and> concat (dx_in r') = s \<and> hs_h hs' = h \<and>
        hs_cert hs' = Some cert \<and> hs_serverStatic hs' = SerializeEllswift st))"
proof -
  obtain tr where tr: "length (tr_reply tr) = 234"
    and R: "responds N B rnd \<rho>2 cert st (SerializeEllswiftBytes e1) tr"
    and I: "initiates N B rnd \<rho>1 cert st (SerializeEllswiftBytes e1) tr"
    using handshake_runs [OF assms] .
  obtain c1 c2 where c: "transport N tr = (c1, c2)" by fastforce
  obtain g1 g2 where g: "keyed c1 g1" "keyed c2 g2" "cs_n c1 = 0" "cs_n c2 = 0"
    using transport_keyed [OF assms(1), of tr] c by auto
  have h: "hs_h (finished hs tr) = tr_h tr" for hs by (simp add: finished_def)
  have R': "\<forall>hs r s. concat (dx_in r) = SerializeEllswiftBytes e1 @ s \<longrightarrow>
      (\<exists>hs' r'. PerformHandshakeResponder duplex_Read duplex_Write N B rnd hs r cert st \<rho>2 =
          Some (Inr (c1, c2), hs', r') \<and>
        dx_out r' = dx_out r @ tr_reply tr \<and> concat (dx_in r') = s \<and> hs_h hs' = tr_h tr)"
    using R h unfolding responds_def c by blast
  have I': "\<forall>hs r s. concat (dx_in r) = tr_reply tr @ s \<longrightarrow>
      (\<exists>hs' r'. PerformHandshakeInitiator duplex_Read duplex_Write N B rnd hs r \<rho>1 =
          Some (Inr (c1, c2), hs', r') \<and>
        dx_out r' = dx_out r @ SerializeEllswiftBytes e1 \<and> concat (dx_in r') = s \<and>
        hs_h hs' = tr_h tr \<and> hs_cert hs' = Some cert \<and> hs_serverStatic hs' = SerializeEllswift st)"
    using I h unfolding initiates_def c by fastforce
  show ?thesis by (intro exI conjI) (rule tr g R' I')+
qed

theorem handshake_agreement_witness:
  "\<exists>reply c1 c2 g1 g2 h. length reply = 234 \<and>
    keyed c1 g1 \<and> keyed c2 g2 \<and> cs_n c1 = 0 \<and> cs_n c2 = 0 \<and>
    (\<forall>hs r s. concat (dx_in r) = SerializeEllswiftBytes (sample_key 1) @ s \<longrightarrow>
      (\<exists>hs' r'. PerformHandshakeResponder duplex_Read duplex_Write sample_noise sample_curve
          sample_random hs r sample_cert (sample_key 9) 5 = Some (Inr (c1, c2), hs', r') \<and>
        dx_out r' = dx_out r @ reply \<and> concat (dx_in r') = s \<and> hs_h hs' = h)) \<and>
    (\<forall>hs r s. concat (dx_in r) = reply @ s \<longrightarrow>
      (\<exists>hs' r'. PerformHandshakeInitiator duplex_Read duplex_Write sample_noise sample_curve
          sample_random hs r 1 = Some (Inr (c1, c2), hs', r') \<and>
        dx_out r' = dx_out r @ SerializeEllswiftBytes (sample_key 1) \<and> concat (dx_in r') = s \<and>
        hs_h hs' = h \<and> hs_cert hs' = Some sample_cert \<and>
        hs_serverStatic hs' = SerializeEllswift (sample_key 9)))"
  by (rule handshake_agreement [OF sample_noise_ok sample_curve_ok sample_ecdh_ok sample_NewKeypair
        sample_NewKeypair sample_key_ok])

text \<open>
  C3. From end to end, for a message that encodes without error to between 1 and 65519
  bytes: after the handshake the initiator frames it and writes the frame with
  \<open>WriteFrame\<close>; the responder reads the same frame with \<open>ReadFrame\<close> from the bytes that
  arrive, cut in any way, and \<open>ToParams\<close> runs the message's \<open>Decode\<close> on exactly its
  encoding. If that \<open>Decode\<close> reads encodings back, as \<open>messages_roundtrip\<close> shows of 25
  messages and not of \<open>SetCustomMiningJob\<close>, the responder has the message.
\<close>

theorem message_end_to_end:
  fixes N :: "('g, 'k) Noise_Lib" and B :: "('k, 'q, 'j, 'f) Btcec"
  assumes "aead_ok N" and "maxNoiseNonce N \<noteq> 0" and "maxNoiseNonce N \<noteq> 1" and "btcec_ok B"
    and "ecdh_ok N B" and "NewKeypair B rnd \<rho>1 = Some (e1, \<rho>1')"
    and "NewKeypair B rnd \<rho>2 = Some (e2, \<rho>2')" and "keypair_ok B st"
    and "concat (dx_in rR) = SerializeEllswiftBytes e1" and "dx_out rR = []"
    and "PerformHandshakeResponder duplex_Read duplex_Write N B rnd hsR rR cert st \<rho>2 =
      Some (Inr (recvR, sendR), hsR', rR')"
    and "concat (dx_in rI) = dx_out rR'"
    and "PerformHandshakeInitiator duplex_Read duplex_Write N B rnd hsI rI \<rho>1 =
      Some (Inr (sendI, recvI), hsI', rI')"
    and "Encode m = (b, None)" and "1 \<le> length b" and "length b \<le> 65519"
    and "NewFrameFromParams Encode mt ext m = Inr f"
  shows "\<exists>n c'. WriteFrame duplex_Write N \<lparr>sv_NetConn = rI', sv_Send = sendI, sv_Recv = recvI\<rparr> f =
      Some ((n, None), c', f) \<and>
    (\<forall>chunks. concat chunks = drop (length (dx_out rI')) (dx_out (sv_NetConn c')) \<longrightarrow>
      (\<exists>d. ReadFrame duplex_Read N
         \<lparr>sv_NetConn = rR'\<lparr>dx_in := chunks\<rparr>, sv_Send = sendR, sv_Recv = recvR\<rparr> = Some (Inr f, d))) \<and>
    Frame_ToParams Decode f m0 = Decode m0 (Some b) \<and>
    (round_trips Encode Decode \<longrightarrow> Frame_ToParams Decode f m0 = Some (m, None))"
proof -
  have f: "one_chunk f"
    using NewFrameFromParams_ok [OF assms(17)] assms(14-16) by (auto simp: one_chunk_def slice_len_def)
  obtain tr where tr: "responds N B rnd \<rho>2 cert st (SerializeEllswiftBytes e1) tr"
      "initiates N B rnd \<rho>1 cert st (SerializeEllswiftBytes e1) tr"
    using handshake_runs [OF assms(1,2,4-8)] .
  have R: "(recvR, sendR) = transport N tr" "dx_out rR' = tr_reply tr"
    using tr(1) [unfolded responds_def, rule_format, of rR "[]" hsR] assms(9-11) by auto
  have I: "(sendI, recvI) = transport N tr"
    using tr(2) [unfolded initiates_def, rule_format, of rI "[]" hsI] assms(12,13) R(2) by auto
  obtain g where g: "keyed sendI g" "cs_n sendI = 0" and eq: "recvR = sendI"
    using transport_keyed [OF assms(1), of tr] R(1) I by (metis fst_conv)
  have nl: "nonces_left N sendI" using assms(2,3) g(2) by (simp add: nonces_left_def)
  let ?b = "sealed_frame N g 0 f"
  obtain n c' where W: "WriteFrame duplex_Write N \<lparr>sv_NetConn = rI', sv_Send = sendI, sv_Recv = recvI\<rparr> f =
      Some ((n, None), c', f)" "dx_out (sv_NetConn c') = dx_out rI' @ ?b"
    using WriteFrame_ok [of "\<lparr>sv_NetConn = rI', sv_Send = sendI, sv_Recv = recvI\<rparr>" g N f]
      g nl f by auto
  have "\<exists>d. ReadFrame duplex_Read N
      \<lparr>sv_NetConn = rR'\<lparr>dx_in := chunks\<rparr>, sv_Send = sendR, sv_Recv = recvR\<rparr> = Some (Inr f, d)"
    if "concat chunks = ?b" for chunks
    using ReadFrame_ok [OF assms(1), of "\<lparr>sv_NetConn = rR'\<lparr>dx_in := chunks\<rparr>, sv_Send = sendR,
        sv_Recv = recvR\<rparr>" g f "[]"] g nl eq f that by auto
  moreover have "Frame_ToParams Decode f m0 = Decode m0 (Some b)"
    using frame_of_params(6) [OF assms(17)] assms(14) by simp
  moreover from this have "round_trips Encode Decode \<longrightarrow> Frame_ToParams Decode f m0 = Some (m, None)"
    using assms(14) unfolding round_trips_def by (metis append_Nil2)
  ultimately show ?thesis using W by (intro exI [of _ n] exI [of _ c']) simp
qed

theorem message_end_to_end_witness:
  "\<exists>f rR' sendR recvR chunks d.
     NewFrameFromParams SetTarget_Encode MessageSetTarget 0 sample_target = Inr f \<and>
     ReadFrame duplex_Read sample_noise
       \<lparr>sv_NetConn = rR'\<lparr>dx_in := chunks\<rparr>, sv_Send = sendR, sv_Recv = recvR\<rparr> = Some (Inr f, d) \<and>
     Frame_ToParams SetTarget_Decode f sample_target = Some (sample_target, None)"
proof -
  let ?first = "SerializeEllswiftBytes (sample_key 1)"
  let ?hs = "\<lparr>hs_cs = None, hs_h = zero_array, hs_ck = zero_array, hs_cert = None,
    hs_serverStatic = zero_array\<rparr> :: byte list HandshakeState"
  obtain tr where tr: "responds sample_noise sample_curve sample_random 5 sample_cert (sample_key 9) ?first tr"
      "initiates sample_noise sample_curve sample_random 1 sample_cert (sample_key 9) ?first tr"
    using handshake_runs [OF sample_noise_ok sample_curve_ok sample_ecdh_ok sample_NewKeypair
        sample_NewKeypair sample_key_ok] .
  obtain c1 c2 where c: "transport sample_noise tr = (c1, c2)" by fastforce
  obtain g where g: "keyed c1 g" "cs_n c1 = 0"
    using transport_keyed [OF sample_noise_ok(1), of tr] c by auto
  have lim: "maxNoiseNonce sample_noise = - 1"
    by (simp add: maxNoiseNonce_def sample_noise_fields sample_aead_def)
  define rR rI where "rR = \<lparr>dx_in = [?first], dx_out = []\<rparr>" and "rI = \<lparr>dx_in = [tr_reply tr], dx_out = []\<rparr>"
  have "concat (dx_in rR) = ?first @ []" "concat (dx_in rI) = tr_reply tr @ []"
    by (simp_all add: rR_def rI_def)
  note runs = tr(1) [unfolded responds_def, rule_format, OF this(1), of ?hs]
    tr(2) [unfolded initiates_def, rule_format, OF this(2), of ?hs]
  obtain hsR rR' hsI rI' where
    R: "PerformHandshakeResponder duplex_Read duplex_Write sample_noise sample_curve sample_random ?hs
        rR sample_cert (sample_key 9) 5 = Some (Inr (c1, c2), hsR, rR')" "dx_out rR' = tr_reply tr"
    and I: "PerformHandshakeInitiator duplex_Read duplex_Write sample_noise sample_curve sample_random ?hs
        rI 1 = Some (Inr (c1, c2), hsI, rI')"
    using runs unfolding c by (auto simp: rR_def)
  obtain f where f: "NewFrameFromParams SetTarget_Encode MessageSetTarget 0 sample_target = Inr f"
    using sample_target_frame by blast
  obtain b where b: "SetTarget_Encode sample_target = (b, None)" "length b = 36"
    by (simp add: SetTarget_Encode_def sample_target_def Bytes_view go_view fld_defs Let_def)
  have "\<exists>n c'. WriteFrame duplex_Write sample_noise \<lparr>sv_NetConn = rI', sv_Send = c1, sv_Recv = c2\<rparr> f =
      Some ((n, None), c', f) \<and>
    (\<forall>chunks. concat chunks = drop (length (dx_out rI')) (dx_out (sv_NetConn c')) \<longrightarrow>
      (\<exists>d. ReadFrame duplex_Read sample_noise
         \<lparr>sv_NetConn = rR'\<lparr>dx_in := chunks\<rparr>, sv_Send = c2, sv_Recv = c1\<rparr> = Some (Inr f, d))) \<and>
    Frame_ToParams SetTarget_Decode f sample_target = SetTarget_Decode sample_target (Some b) \<and>
    (round_trips SetTarget_Encode SetTarget_Decode \<longrightarrow>
      Frame_ToParams SetTarget_Decode f sample_target = Some (sample_target, None))"
    by (rule message_end_to_end [OF sample_noise_ok _ sample_curve_ok sample_ecdh_ok sample_NewKeypair
        sample_NewKeypair sample_key_ok _ _ R(1) _ I b(1) _ _ f])
      (simp_all add: lim R(2) rR_def rI_def b(2))
  with f(1) SetTarget.codec_round_trips show ?thesis by (metis concat.simps append_Nil2)
qed

text \<open>
  C2. Nothing but a reply of the protocol is accepted: where the initiator finishes, the 234
  bytes it read are the second message of the transcript for its own key, a responder's
  ephemeral and static key and a certificate that decodes, all bound to this handshake by
  the two shared secrets and the hash; cipher states, hash, certificate and static key are
  those of that transcript. A reply that ends too early gives the error of the read.
\<close>

theorem accepted_replies:
  fixes r :: Duplex
  assumes "aead_ok N" and "open_sealed N" and "maxNoiseNonce N \<noteq> 0" and "NewKeypair B rnd \<rho> = Some (e, \<rho>')"
  shows "(length (concat (dx_in r)) < 234 \<longrightarrow>
      (\<exists>hs' r'. PerformHandshakeInitiator duplex_Read duplex_Write N B rnd hs r \<rho> =
        Some (Inl (if concat (dx_in r) = [] then IO_EOF else IO_ErrUnexpectedEOF), hs', r'))) \<and>
    (\<forall>c hs' r'. PerformHandshakeInitiator duplex_Read duplex_Write N B rnd hs r \<rho> = Some (Inr c, hs', r') \<longrightarrow>
      (\<exists>re ee es pc cert tr. ecdh N e re True = Some ee \<and> ecdh N e (hs_serverStatic hs') True = Some es \<and>
        tr = nx_transcript N (SerializeEllswift e) re (hs_serverStatic hs') ee es pc \<and>
        concat (dx_in r) = tr_reply tr @ concat (dx_in r') \<and> c = transport N tr \<and> hs_h hs' = tr_h tr \<and>
        SIGNATURE_NOISE_MESSAGE_Decode zero_cert (Some pc) = Some (cert, None) \<and> hs_cert hs' = Some cert))"
proof -
  have "\<exists>re ee es pc cert tr. ecdh N e re True = Some ee \<and> ecdh N e (hs_serverStatic hs') True = Some es \<and>
      tr = nx_transcript N (SerializeEllswift e) re (hs_serverStatic hs') ee es pc \<and>
      concat (dx_in r) = tr_reply tr @ concat (dx_in r') \<and> c = transport N tr \<and> hs_h hs' = tr_h tr \<and>
      SIGNATURE_NOISE_MESSAGE_Decode zero_cert (Some pc) = Some (cert, None) \<and> hs_cert hs' = Some cert"
    if run: "PerformHandshakeInitiator duplex_Read duplex_Write N B rnd hs r \<rho> = Some (Inr c, hs', r')" for c hs' r'
    by (rule initiator_accepts [OF assms(1-3) run]) (use assms(4) in auto)
  then show ?thesis using initiator_short [OF assms(4)] by blast
qed

theorem accepted_replies_witness:
  "\<exists>r c hs' r' tr. PerformHandshakeInitiator duplex_Read duplex_Write sample_noise sample_curve sample_random
       zero_HandshakeState r 1 = Some (Inr c, hs', r') \<and>
     concat (dx_in r) = tr_reply tr @ concat (dx_in r') \<and> c = transport sample_noise tr \<and> hs_h hs' = tr_h tr \<and>
     (\<exists>hs' r'. PerformHandshakeInitiator duplex_Read duplex_Write sample_noise sample_curve sample_random
       zero_HandshakeState \<lparr>dx_in = [[1, 2, 3]], dx_out = []\<rparr> 1 = Some (Inl IO_ErrUnexpectedEOF, hs', r'))"
proof -
  note both = accepted_replies [OF sample_noise_ok(1) sample_open_sealed sample_noise_ok(2) sample_NewKeypair [of 1]]
  obtain tr where tr: "initiates sample_noise sample_curve sample_random 1 sample_cert (sample_key 9)
      (SerializeEllswiftBytes (sample_key 1)) tr"
    using handshake_runs [OF sample_noise_ok sample_curve_ok sample_ecdh_ok sample_NewKeypair [of 1]
        sample_NewKeypair [of 5] sample_key_ok [of 9]] .
  let ?r = "\<lparr>dx_in = [tr_reply tr], dx_out = []\<rparr>"
  have "concat (dx_in ?r) = tr_reply tr @ []" by simp
  from tr [unfolded initiates_def, rule_format, OF this] obtain c hs' r' where
    run: "PerformHandshakeInitiator duplex_Read duplex_Write sample_noise sample_curve sample_random
      zero_HandshakeState ?r 1 = Some (Inr c, hs', r')" by blast
  from conjunct2 [OF both, rule_format, OF run] obtain tr' where
    "concat (dx_in ?r) = tr_reply tr' @ concat (dx_in r')" "c = transport sample_noise tr'" "hs_h hs' = tr_h tr'"
    by blast
  moreover have "\<exists>hs' r'. PerformHandshakeInitiator duplex_Read duplex_Write sample_noise sample_curve sample_random
      zero_HandshakeState \<lparr>dx_in = [[1, 2, 3]], dx_out = []\<rparr> 1 = Some (Inl IO_ErrUnexpectedEOF, hs', r')"
    using both [of "\<lparr>dx_in = [[1, 2, 3]], dx_out = []\<rparr>" zero_HandshakeState] by simp
  ultimately show ?thesis using run by blast
qed

section \<open>Frames with TLVs on a connection\<close>

text \<open>
  C33. \<open>WriteFrame\<close> sends the TLVs of a frame twice: the frame that it leaves behind, and
  has sealed, carries their encoding two times after the payload.
\<close>

theorem WriteFrame_doubles_tlvs:
  assumes "keyed (sv_Send conn) g" and "nonces_left A (sv_Send conn)"
    and "uint (fr_MessageLength f) = slice_len (fr_Payload f)" and "fr_TLVs f = Some ts"
    and "\<forall>t \<in> set ts. length (tlv_Value t) \<le> 65535"
    and "length (slice_bytes (fr_Payload f)) + length (tlv_block ts) < 2 ^ 32"
  shows "\<exists>res c' f'. WriteFrame duplex_Write A conn f = Some (res, c', f') \<and>
    slice_bytes (fr_Payload f') = slice_bytes (fr_Payload f) @ tlv_block ts @ tlv_block ts \<and>
    dx_out (sv_NetConn c') = dx_out (sv_NetConn conn) @ sealed_frame A g (cs_n (sv_Send conn)) f'"
proof -
  obtain r1 f1 where e1: "Frame_Encode f = (r1, f1)" by fastforce
  obtain b2 x2 f2 where e2: "Frame_Encode f1 = ((b2, x2), f2)" by (metis prod.collapse)
  have r: "x2 = None" "slice_bytes (fr_Payload f2) = slice_bytes (fr_Payload f) @ tlv_block ts @ tlv_block ts"
    using Frame_Encode_twice [OF assms(3-6) e1 e2] by auto
  have b2: "b2 = frame_wire f2" using Frame_Encode_wire [OF e2 r(1)] .
  show ?thesis
    using assms(1,2) e2 r unfolding b2
    by (simp add: WriteFrame_def e1 EncryptFrameToWriter_def reslice_wire Encrypt_def Encrypt_keyed
        nonces_left_def duplex_Write_def sealed_frame_def)
qed

theorem WriteFrame_doubles_tlvs_witness:
  "\<exists>res c' f'. WriteFrame duplex_Write sample_aead
      \<lparr>sv_NetConn = \<lparr>dx_in = [], dx_out = []\<rparr>, sv_Send = sample_cipher, sv_Recv = sample_cipher\<rparr>
      (zero_Frame\<lparr>fr_TLVs := Some [zero_TLV]\<rparr>) = Some (res, c', f') \<and>
    slice_bytes (fr_Payload f') = tlv_bytes zero_TLV @ tlv_bytes zero_TLV"
  using WriteFrame_doubles_tlvs [of "\<lparr>sv_NetConn = \<lparr>dx_in = [], dx_out = []\<rparr>, sv_Send = sample_cipher,
      sv_Recv = sample_cipher\<rparr>" "replicate 32 0" sample_aead "zero_Frame\<lparr>fr_TLVs := Some [zero_TLV]\<rparr>"
      "[zero_TLV]"] sample_cipher_ok
  by (auto simp: zero_Frame_def zero_TLV_def slice_len_def slice_bytes_def tlv_block_def sorted_tlvs_def
      length_tlv_bytes)

section \<open>Keys and certificates\<close>

text \<open>
  C23. A generated key pair survives storage: it encodes to 65 bytes, from which
  \<open>Decode\<close> restores the whole pair, the ElligatorSwift form of the public key included.
\<close>

theorem keypair_storage_roundtrip:
  assumes "btcec_ok B" and "NewKeypair B rnd r = Some (kp, r')"
  shows "\<exists>b. Keypair_Encode B kp = Some (b, None) \<and> length b = 65 \<and>
    Keypair_Decode B kp0 (Some (b @ s)) = Some (kp, None)"
  by (rule Keypair_roundtrip [OF assms(1) NewKeypair_ok [OF assms]])

theorem keypair_storage_roundtrip_witness:
  "\<exists>b. Keypair_Encode sample_curve (sample_key 3) = Some (b, None) \<and> length b = 65 \<and>
    Keypair_Decode sample_curve zero_Keypair (Some (b @ [])) = Some (sample_key 3, None)"
  by (rule keypair_storage_roundtrip [OF sample_curve_ok sample_NewKeypair])

text \<open>
  C24. The random search for an ElligatorSwift encoding ends as soon as one of its draws has
  an encoding; what it returns is found again from the auxiliary bytes and the case number
  alone.
\<close>

theorem XElligatorSwift_terminates:
  assumes "rand_ok rnd" and "draw_hits B rnd x ((draw_next rnd ^^ i) r)"
  shows "\<exists>u t aux c r'. XElligatorSwift B rnd x r = Some (Inr (u, t, aux, c), r') \<and>
    XElligatorSwiftAux B x aux c = Inr (u, t)"
proof -
  obtain u t aux c r' where "XElligatorSwift B rnd x r = Some (Inr (u, t, aux, c), r')"
    using XElligatorSwift_returns [OF assms] by blast
  from XElligatorSwiftAux_again [OF this] this show ?thesis by blast
qed

theorem XElligatorSwift_terminates_witness:
  "\<exists>u t aux c r'. XElligatorSwift sample_curve sample_random zero_array 0 = Some (Inr (u, t, aux, c), r') \<and>
    XElligatorSwiftAux sample_curve zero_array aux c = Inr (u, t)"
  by (rule XElligatorSwift_terminates [OF sample_random_ok, where i = 0])
    (simp add: draw_hits_def sample_curve_def)

text \<open>
  The certificate takes 74 bytes and is read back from them; on any other input length
  \<open>Decode\<close> returns an error, and it never panics.
\<close>

lemma certificate_codec:
  "(SIGNATURE_NOISE_MESSAGE_Encode m = (b, None) \<longrightarrow>
      length b = 74 \<and> SIGNATURE_NOISE_MESSAGE_Decode m0 (Some b) = Some (m, None)) \<and>
   (\<exists>m' e. SIGNATURE_NOISE_MESSAGE_Decode m0 (Some d) = Some (m', e) \<and> (e = None \<longleftrightarrow> length d = 74))"
  using cert_Decode_back [of m b m0] cert_Decode_total [of m0 d] by blast

text \<open>
  C38. The text form of an authority key is read back to the key. \<open>DeserializeAuthorityKey\<close>
  panics on exactly the texts that decode to the version byte 1 and an empty payload, one
  without the second version byte, and there are such texts.
\<close>

theorem authority_key_roundtrip:
  assumes "\<forall>b v. CheckDecode (CheckEncode b v) = Inr (b, v)"
  shows "DeserializeAuthorityKey CheckDecode (SerializeAuthorityKey CheckEncode pk) =
      Some (Inr (array_bytes pk)) \<and>
    (\<forall>s. DeserializeAuthorityKey CheckDecode s = None \<longleftrightarrow> CheckDecode s = Inr ([], 1)) \<and>
    CheckDecode (CheckEncode [] 1) = Inr ([], 1)"
proof -
  have "DeserializeAuthorityKey CheckDecode s = None \<longleftrightarrow> CheckDecode s = Inr ([], 1)" for s
    by (auto simp: DeserializeAuthorityKey_def index_def split: sum.splits)
  moreover have "DeserializeAuthorityKey CheckDecode (SerializeAuthorityKey CheckEncode pk) =
      Some (Inr (array_bytes pk))"
    using assms by (simp add: DeserializeAuthorityKey_def SerializeAuthorityKey_def index_def)
  ultimately show ?thesis using assms by blast
qed

theorem authority_key_roundtrip_witness:
  "DeserializeAuthorityKey (\<lambda>s. Inr (butlast (string_bytes s), last (string_bytes s)))
     (SerializeAuthorityKey (\<lambda>b v. bytes_string (b @ [v])) zero_array) =
       Some (Inr (array_bytes (zero_array :: Pubkey))) \<and>
   DeserializeAuthorityKey (\<lambda>s. Inr (butlast (string_bytes s), last (string_bytes s))) (bytes_string [1]) = None"
  using authority_key_roundtrip [of "\<lambda>s. Inr (butlast (string_bytes s), last (string_bytes s))"
      "\<lambda>b v. bytes_string (b @ [v])" zero_array] by simp

section \<open>Certificates over the handshake\<close>

text \<open>
  C6. A client that knows the authority's key connects to a server whose certificate that
  authority signed: over the whole handshake, from the certificate in the reply to the
  static key decoded from its ElligatorSwift form, the client accepts exactly within the
  validity period, both ends included, with the cipher states that the server has, and
  otherwise stops with the error that says which end was missed. The time must fit the 32
  bits that it is cut to. Of the signatures it rests on one thing: what the authority signs,
  a hash of 32 bytes, verifies under its key.
\<close>

theorem certificate_over_handshake:
  fixes N :: "('g, 'k) Noise_Lib" and B :: "('k, 'q, 'j, 'f) Btcec"
  assumes "aead_ok N" and "maxNoiseNonce N \<noteq> 0" and "btcec_ok B" and "ecdh_ok N B" and "xswift_ok XSwiftEC B"
    and "NewKeypair B rnd \<rho>1 = Some (e1, \<rho>1')" and "NewKeypair B rnd \<rho>2 = Some (e2, \<rho>2')"
    and "keypair_ok B st" and "PublicKey st = Some spk"
    and "schnorr_pair S k apk" and "NewSignedCertificate (Sum256 N) S k spk vf nva = Some (Inr cert)"
    and "authkey \<noteq> []" and "DeserializeAuthorityKey CheckDecode authkey = Some (Inr (array_bytes apk))"
    and "0 \<le> now" and "now < 2 ^ 32"
    and "concat (dx_in rR) = SerializeEllswiftBytes e1" and "dx_out rR = []"
    and "PerformHandshakeResponder duplex_Read duplex_Write N B rnd hsR rR cert st \<rho>2 = Some (x, hsR', rR')"
    and "concat (dx_in rI) = dx_out rR'"
  shows "\<exists>c. client_connect duplex_Read duplex_Write XSwiftEC CheckDecode N B S rnd now authkey rI \<rho>1 =
      Some (if now < uint vf then Inl Cert_not_yet_valid
        else if uint nva < now then Inl Cert_expired else Inr c) \<and>
    x = Inr (sv_Send c, sv_Recv c)"
  using client_meets_certificate [OF assms] by blast

text \<open>The sample server answers the sample client.\<close>

lemma sample_responder:
  "\<exists>x hs r. PerformHandshakeResponder duplex_Read duplex_Write sample_noise sample_curve sample_random hs0
     \<lparr>dx_in = [SerializeEllswiftBytes (sample_key 1)], dx_out = []\<rparr> cert (sample_key 9) 5 = Some (x, hs, r)"
proof -
  obtain tr where tr: "responds sample_noise sample_curve sample_random 5 cert (sample_key 9)
      (SerializeEllswiftBytes (sample_key 1)) tr"
    using handshake_runs [OF sample_noise_ok sample_curve_ok sample_ecdh_ok sample_NewKeypair
        sample_NewKeypair sample_key_ok] by metis
  from tr [unfolded responds_def, rule_format, of "\<lparr>dx_in = [SerializeEllswiftBytes (sample_key 1)],
      dx_out = []\<rparr>" "[]" hs0] show ?thesis by auto
qed

theorem certificate_over_handshake_witness:
  "\<exists>cert rI c. client_connect duplex_Read duplex_Write (\<lambda>u t. Inr zero_array) sample_Decode sample_noise
     sample_curve sample_schnorr sample_random 15 ''key'' rI 1 = Some (Inr c) \<and>
     NewSignedCertificate (Sum256 sample_noise) sample_schnorr (zero_array :: 32 byte_array) zero_array 10 20 = Some (Inr cert)"
proof -
  obtain cert where cert: "NewSignedCertificate (Sum256 sample_noise) sample_schnorr (zero_array :: 32 byte_array) zero_array 10 20 = Some (Inr cert)"
    using signed_certificate_outcome [OF sample_schnorr_pair, where now = 15] by fastforce
  obtain x hs r where run: "PerformHandshakeResponder duplex_Read duplex_Write sample_noise sample_curve
      sample_random zero_HandshakeState \<lparr>dx_in = [SerializeEllswiftBytes (sample_key 1)], dx_out = []\<rparr> cert
      (sample_key 9) 5 = Some (x, hs, r)" using sample_responder by blast
  have "\<exists>c. client_connect duplex_Read duplex_Write (\<lambda>u t. Inr zero_array) sample_Decode sample_noise
      sample_curve sample_schnorr sample_random 15 ''key'' \<lparr>dx_in = [dx_out r], dx_out = []\<rparr> 1 =
      Some (if 15 < uint (10 :: u32) then Inl Cert_not_yet_valid
        else if uint (20 :: u32) < 15 then Inl Cert_expired else Inr c) \<and> x = Inr (sv_Send c, sv_Recv c)"
    by (rule certificate_over_handshake [OF sample_noise_ok sample_curve_ok sample_ecdh_ok sample_xswift_ok
          sample_NewKeypair sample_NewKeypair sample_key_ok sample_PublicKey [OF sample_key_ok]
          sample_schnorr_pair cert _ sample_Decode_key _ _ _ _ run]) simp_all
  with cert show ?thesis by auto
qed

text \<open>
  C36. The certificate that the example server makes for itself ends 65535 seconds after
  1970: a client that is given the server's authority key refuses it as expired from then
  on, until the 32-bit time wraps in 2106.
\<close>

theorem server_certificate_expired:
  fixes N :: "('g, 'k) Noise_Lib" and B :: "('k, 'q, 'j, 'f) Btcec"
  assumes "aead_ok N" and "maxNoiseNonce N \<noteq> 0" and "btcec_ok B" and "ecdh_ok N B" and "xswift_ok XSwiftEC B"
    and "server_setup (Sum256 N) B S rnd \<rho> = Some (authKey, staticKey, Some cert)"
    and "kp_Private authKey = Some k" and "schnorr_pair S k apk"
    and "authkey \<noteq> []" and "DeserializeAuthorityKey CheckDecode authkey = Some (Inr (array_bytes apk))"
    and "NewKeypair B rnd \<rho>1 = Some (e1, \<rho>1')" and "NewKeypair B rnd \<rho>2 = Some (e2, \<rho>2')"
    and "65535 < now" and "now < 2 ^ 32"
    and "concat (dx_in rR) = SerializeEllswiftBytes e1" and "dx_out rR = []"
    and "PerformHandshakeResponder duplex_Read duplex_Write N B rnd hsR rR cert staticKey \<rho>2 = Some (x, hsR', rR')"
    and "concat (dx_in rI) = dx_out rR'"
  shows "client_connect duplex_Read duplex_Write XSwiftEC CheckDecode N B S rnd now authkey rI \<rho>1 =
    Some (Inl Cert_expired)"
proof -
  obtain spk where st: "keypair_ok B staticKey" "PublicKey staticKey = Some spk"
    "NewSignedCertificate (Sum256 N) S k spk 0 65535 = Some (Inr cert)"
    using server_setup_facts [OF assms(3,6,7)] by blast
  from client_meets_certificate [OF assms(1-5,11,12) st(1,2) assms(8) st(3) assms(9,10) _ assms(14-18)] assms(13)
  show ?thesis by auto
qed

theorem server_certificate_expired_witness:
  "\<exists>authKey staticKey cert rI.
     server_setup (Sum256 sample_noise) sample_curve sample_schnorr sample_random 6 = Some (authKey, staticKey, Some cert) \<and>
     client_connect duplex_Read duplex_Write (\<lambda>u t. Inr zero_array) sample_Decode sample_noise
       sample_curve sample_schnorr sample_random 1700000000 ''key'' rI 1 = Some (Inl Cert_expired)"
proof -
  obtain k where k: "kp_Private (sample_key 6) = Some k" using sample_key_ok [of 6] by (auto simp: keypair_ok_def)
  obtain cert where "NewSignedCertificate (Sum256 sample_noise) sample_schnorr k zero_array 0 65535 = Some (Inr cert)"
    using signed_certificate_outcome [OF sample_schnorr_pair, where now = 15 and k = k] by fastforce
  then have made: "server_setup (Sum256 sample_noise) sample_curve sample_schnorr sample_random 6 = Some (sample_key 6, sample_key 9, Some cert)"
    by (simp add: server_setup_def sample_NewKeypair k sample_PublicKey [OF sample_key_ok])
  obtain x hs r where run: "PerformHandshakeResponder duplex_Read duplex_Write sample_noise sample_curve
      sample_random zero_HandshakeState \<lparr>dx_in = [SerializeEllswiftBytes (sample_key 1)], dx_out = []\<rparr> cert
      (sample_key 9) 5 = Some (x, hs, r)" using sample_responder by blast
  have "client_connect duplex_Read duplex_Write (\<lambda>u t. Inr zero_array) sample_Decode sample_noise
      sample_curve sample_schnorr sample_random 1700000000 ''key'' \<lparr>dx_in = [dx_out r], dx_out = []\<rparr> 1 =
      Some (Inl Cert_expired)"
    by (rule server_certificate_expired [OF sample_noise_ok sample_curve_ok sample_ecdh_ok sample_xswift_ok
          made k sample_schnorr_pair _ sample_Decode_key sample_NewKeypair sample_NewKeypair _ _ _ _ run]) simp_all
  with made show ?thesis by blast
qed

section \<open>The example server\<close>

text \<open>
  C14. In every reachable state of the server, the goroutine of a client past its handshake
  ends if the client closes its side of the connection, whatever bytes it sent before: it
  returns, or it ends the process with an error. It never writes to the connection: the
  answer to \<open>SetupConnection\<close> that it builds is not sent. It does not end while the client
  stays connected and silent: no read has a deadline, and after any number of complete
  frames of one chunk, the first of them \<open>SetupConnection\<close>, it waits without a result as
  long as the nonces last.
\<close>

theorem server_goroutine_ends:
  assumes "aead_ok N" and "maxNoiseNonce N \<noteq> 0" and "open_length N"
    and "(server_step N B rnd cert st)\<^sup>*\<^sup>* server_init s" and "running s" and "s_sessions s i = Ready conn"
  shows "(\<exists>out conn'. serve_conn duplex_Read N conn = Some (out, conn') \<and>
      dx_out (sv_NetConn conn') = dx_out (sv_NetConn conn) \<and>
      server_step N B rnd cert st s (case out of
          Returns \<Rightarrow> session_to s i Ended (s_hs s)
        | Fatal err \<Rightarrow> (session_to s i Ended (s_hs s))\<lparr>s_fatal := Some err\<rparr>)) \<and>
    (\<forall>g f fs chunks. keyed (sv_Recv conn) g \<and> fr_MessageType f = MessageSetupConnection \<and>
        list_all one_chunk (f # fs) \<and> nonces_for N 0 (length (f # fs)) \<and>
        concat chunks = sealed_frames N g 0 (f # fs) \<longrightarrow>
      serve_conn idle_Read N (conn\<lparr>sv_NetConn := (sv_NetConn conn)\<lparr>dx_in := chunks\<rparr>\<rparr>) = None)"
proof (intro conjI allI impI)
  obtain g where "keyed (sv_Recv conn) g" using ready_keyed(1) [OF assms(1,2,4-6)] ..
  then obtain out conn' where r: "serve_conn duplex_Read N conn = Some (out, conn')"
    using serve_conn_returns [OF assms(3)] by blast
  from serve_conn_keeps_sent [OF r] r assms(5,6)
  show "\<exists>out conn'. serve_conn duplex_Read N conn = Some (out, conn') \<and>
      dx_out (sv_NetConn conn') = dx_out (sv_NetConn conn) \<and>
      server_step N B rnd cert st s (case out of
          Returns \<Rightarrow> session_to s i Ended (s_hs s)
        | Fatal err \<Rightarrow> (session_to s i Ended (s_hs s))\<lparr>s_fatal := Some err\<rparr>)"
    by (cases out) (fastforce intro: server_step.intros)+
next
  fix g f fs chunks
  assume a: "keyed (sv_Recv conn) g \<and> fr_MessageType f = MessageSetupConnection \<and>
        list_all one_chunk (f # fs) \<and> nonces_for N 0 (length (f # fs)) \<and>
        concat chunks = sealed_frames N g 0 (f # fs)"
  show "serve_conn idle_Read N (conn\<lparr>sv_NetConn := (sv_NetConn conn)\<lparr>dx_in := chunks\<rparr>\<rparr>) = None"
    using a ready_keyed(2) [OF assms(1,2,4-6)]
    by (intro serve_conn_waits [OF assms(1), of _ g f fs]) simp_all
qed

lemma sample_server_ready:
  "\<exists>s c. (server_step sample_noise sample_curve sample_random sample_cert (sample_key 9))\<^sup>*\<^sup>* server_init s \<and>
     running s \<and> s_sessions s 0 = Ready c"
proof -
  let ?first = "SerializeEllswiftBytes (sample_key 1)"
  obtain tr where "responds sample_noise sample_curve sample_random 5 sample_cert (sample_key 9) ?first tr"
    "initiates sample_noise sample_curve sample_random 1 sample_cert (sample_key 9) ?first tr"
    using handshake_runs [OF sample_noise_ok sample_curve_ok sample_ecdh_ok sample_NewKeypair
        sample_NewKeypair sample_key_ok] .
  from accept_and_shake [OF this, of "\<lparr>dx_in = [?first], dx_out = []\<rparr>" server_init 0]
  obtain c t where t: "shakes_hands sample_noise sample_curve sample_random sample_cert (sample_key 9) server_init 0
      \<lparr>dx_in = [?first], dx_out = []\<rparr> c t" "running t" by (auto simp: server_init_def running_def)
  then have "s_sessions t 0 = Ready c" by (auto simp: shakes_hands_def)
  with t shakes_hands_reached [OF t(1)] show ?thesis by blast
qed

theorem server_goroutine_ends_witness:
  "\<exists>(s :: byte list server) conn out conn' chunks. s_sessions s 0 = Ready conn \<and>
     serve_conn duplex_Read sample_noise conn = Some (out, conn') \<and> chunks \<noteq> [] \<and>
     serve_conn idle_Read sample_noise (conn\<lparr>sv_NetConn := (sv_NetConn conn)\<lparr>dx_in := chunks\<rparr>\<rparr>) = None"
proof -
  obtain s c where s: "(server_step sample_noise sample_curve sample_random sample_cert (sample_key 9))\<^sup>*\<^sup>* server_init s"
    "running s" "s_sessions s 0 = Ready c" using sample_server_ready by blast
  obtain g where g: "keyed (sv_Recv c) g" using ready_keyed(1) [OF sample_noise_ok s] ..
  obtain f where f: "one_chunk f" "fr_MessageType f = MessageSetupConnection"
    using logger_frames_ok [where EncodeAddress = "\<lambda>a. a", OF sample_Settings_ok] by blast
  have "nonces_for sample_noise 0 1" using sample_nonces_for by (simp add: nonces_for_def)
  note both = server_goroutine_ends [OF sample_noise_ok sample_open_length s]
  have "serve_conn idle_Read sample_noise
      (c\<lparr>sv_NetConn := (sv_NetConn c)\<lparr>dx_in := [sealed_frames sample_noise g 0 [f]]\<rparr>\<rparr>) = None"
    by (rule conjunct2 [OF both, rule_format, of g f "[]"]) (use g f \<open>nonces_for sample_noise 0 1\<close> in simp)
  with conjunct1 [OF both] s(3) show ?thesis by blast
qed

text \<open>
  C15. Two clients of the server. One after the other, both finish their handshakes: the
  server accepts each and comes to hold cipher states with which the client finishes too.
  Accepted both before the first has sent its key, they share one handshake state: when the
  second has finished, the first, whose key is there, can only make its goroutine end the
  process, and can do so, although the same key is answered properly from a handshake state
  of its own.
\<close>

theorem server_two_clients:
  fixes N :: "('g, 'k) Noise_Lib" and B :: "('k, 'q, 'j, 'f) Btcec" and dxa dxb :: Duplex
  assumes "aead_ok N" and "maxNoiseNonce N \<noteq> 0" and "maxNoiseNonce N \<noteq> 1" and "btcec_ok B" and "ecdh_ok N B"
    and "NewKeypair B rnd \<rho>1 = Some (e1, \<rho>1')" and "NewKeypair B rnd \<rho>2 = Some (e2, \<rho>2')"
    and "NewKeypair B rnd \<rho>3 = Some (e3, \<rho>3')" and "keypair_ok B st"
    and "concat (dx_in dxa) = SerializeEllswiftBytes e1" and "dx_out dxa = []"
    and "concat (dx_in dxb) = SerializeEllswiftBytes e2" and "dx_out dxb = []"
  shows "(\<exists>s1 s2 c1 c2. shakes_hands N B rnd cert st server_init 0 dxa c1 s1 \<and> agrees_with N B rnd \<rho>1 c1 \<and>
      shakes_hands N B rnd cert st s1 1 dxb c2 s2 \<and> agrees_with N B rnd \<rho>2 c2 \<and> running s2) \<and>
    (\<exists>s c. (server_step N B rnd cert st)\<^sup>*\<^sup>* server_init s \<and> running s \<and>
      s_sessions s = (s_sessions server_init)(0 := Hello dxa, 1 := Ready c) \<and> agrees_with N B rnd \<rho>2 c \<and>
      (\<exists>t. server_step N B rnd cert st s t \<and> s_sessions t 0 = Ended) \<and>
      (\<forall>t. server_step N B rnd cert st s t \<and> s_sessions t 0 \<noteq> Hello dxa \<longrightarrow> s_fatal t \<noteq> None)) \<and>
    (\<exists>hs c hs' dx'. start_handshake N zero_HandshakeState = Some hs \<and>
      responder_rest duplex_Read duplex_Write N B rnd hs dxa cert st \<rho>3 = Some (Inr c, hs', dx'))"
proof (intro conjI)
  obtain tr1 where r1: "responds N B rnd \<rho>3 cert st (SerializeEllswiftBytes e1) tr1"
    "initiates N B rnd \<rho>1 cert st (SerializeEllswiftBytes e1) tr1"
    using handshake_runs [OF assms(1,2,4,5,6,8,9)] .
  obtain tr2 where r2: "responds N B rnd \<rho>3 cert st (SerializeEllswiftBytes e2) tr2"
    "initiates N B rnd \<rho>2 cert st (SerializeEllswiftBytes e2) tr2"
    using handshake_runs [OF assms(1,2,4,5,7,8,9)] .
  obtain c1 s1 where s1: "shakes_hands N B rnd cert st server_init 0 dxa c1 s1" "running s1" "agrees_with N B rnd \<rho>1 c1"
    using accept_and_shake [OF r1 assms(10,11), of server_init 0] by (auto simp: server_init_def running_def)
  then have "s_sessions s1 1 = Idle" by (auto simp: shakes_hands_def server_init_def)
  from accept_and_shake [OF r2 assms(12,13) s1(2) this] s1
  show "\<exists>s1 s2 c1 c2. shakes_hands N B rnd cert st server_init 0 dxa c1 s1 \<and> agrees_with N B rnd \<rho>1 c1 \<and>
      shakes_hands N B rnd cert st s1 1 dxb c2 s2 \<and> agrees_with N B rnd \<rho>2 c2 \<and> running s2" by blast
  have in1: "concat (dx_in dxa) = SerializeEllswiftBytes e1 @ []"
    and in2: "concat (dx_in dxb) = SerializeEllswiftBytes e2 @ []" using assms(10,12) by simp_all
  have "length (SerializeEllswiftBytes e1) = 64" by (simp add: SerializeEllswiftBytes_def)
  from two_clients_together [OF assms(1-3) r2 in1 this in2 assms(11,13)]
  show "\<exists>s c. (server_step N B rnd cert st)\<^sup>*\<^sup>* server_init s \<and> running s \<and>
      s_sessions s = (s_sessions server_init)(0 := Hello dxa, 1 := Ready c) \<and> agrees_with N B rnd \<rho>2 c \<and>
      (\<exists>t. server_step N B rnd cert st s t \<and> s_sessions t 0 = Ended) \<and>
      (\<forall>t. server_step N B rnd cert st s t \<and> s_sessions t 0 \<noteq> Hello dxa \<longrightarrow> s_fatal t \<noteq> None)" .
  obtain hs where hs: "start_handshake N zero_HandshakeState = Some hs" by (simp add: start_handshake_eq)
  from shake_started [OF r1(1) in1 hs] hs
  show "\<exists>hs c hs' dx'. start_handshake N zero_HandshakeState = Some hs \<and>
      responder_rest duplex_Read duplex_Write N B rnd hs dxa cert st \<rho>3 = Some (Inr c, hs', dx')" by blast
qed

theorem server_two_clients_witness:
  "\<exists>s1 s2 c1 c2 s t dxa. running s2 \<and> s_sessions s2 0 = Ready c1 \<and> s_sessions s2 1 = Ready c2 \<and>
     shakes_hands sample_noise sample_curve sample_random sample_cert (sample_key 9) server_init 0 dxa c1 s1 \<and>
     (server_step sample_noise sample_curve sample_random sample_cert (sample_key 9))\<^sup>*\<^sup>* server_init s \<and>
     running s \<and> s_sessions s 0 = Hello dxa \<and>
     server_step sample_noise sample_curve sample_random sample_cert (sample_key 9) s t \<and> s_fatal t \<noteq> None"
proof -
  let ?dx = "\<lambda>n. \<lparr>dx_in = [SerializeEllswiftBytes (sample_key n)], dx_out = []\<rparr>"
  let ?S = "server_step sample_noise sample_curve sample_random sample_cert (sample_key 9)"
  have n: "maxNoiseNonce sample_noise \<noteq> 1" by (simp add: sample_nonces)
  have dx: "concat (dx_in (?dx i)) = SerializeEllswiftBytes (sample_key i)" "dx_out (?dx i) = []" for i by simp_all
  note both = server_two_clients [OF sample_noise_ok n sample_curve_ok sample_ecdh_ok sample_NewKeypair [of 1]
      sample_NewKeypair [of 2] sample_NewKeypair [of 5] sample_key_ok [of 9] dx dx, of sample_cert]
  from conjunct1 [OF both] obtain s1 s2 c1 c2 where
    1: "shakes_hands sample_noise sample_curve sample_random sample_cert (sample_key 9) server_init 0 (?dx 1) c1 s1"
      "shakes_hands sample_noise sample_curve sample_random sample_cert (sample_key 9) s1 1 (?dx 2) c2 s2" "running s2"
    by blast
  then have r: "s_sessions s2 0 = Ready c1" "s_sessions s2 1 = Ready c2" by (auto simp: shakes_hands_def)
  from conjunct1 [OF conjunct2 [OF both]] obtain s c t where
    s: "?S\<^sup>*\<^sup>* server_init s" "running s" "s_sessions s = (s_sessions server_init)(0 := Hello (?dx 1), 1 := Ready c)"
      "?S s t" "s_sessions t 0 = Ended" "?S s t \<and> s_sessions t 0 \<noteq> Hello (?dx 1) \<longrightarrow> s_fatal t \<noteq> None"
    by blast
  then have "s_sessions s 0 = Hello (?dx 1)" "s_fatal t \<noteq> None" by simp_all
  with 1 r s(1,2,4) show ?thesis by blast
qed

section \<open>The logging client\<close>

text \<open>
  C12. Whatever the server sends and however the two goroutines of the client take turns,
  until an error or a panic ends it: after the bytes of the handshake it has sent its
  first frames in order, and after the signal one more frame exactly if a channel was
  opened, which is the \<open>CloseChannel\<close> message with that channel's number. Each frame is
  sealed under nonces of its own.
\<close>

theorem logger_protocol:
  assumes "keyed (sv_Send conn) g" and "cs_n (sv_Send conn) = 0" and "nonces_for N 0 3"
    and "length (cfg_poolhost cfg) \<le> 255" and "cfg_addr cfg = Some a" and "length (EncodeAddress a) \<le> 244"
    and "logger_frames EncodeAddress cfg = Some frames"
    and "(logger_step N)\<^sup>*\<^sup>* (logger_init conn frames) s" and "l_fatal s = None" and "\<not> l_panicked s"
  shows "\<exists>f1 f2 sent. frames = [Some f1, Some f2] \<and> - 1 \<le> l_chanid s \<and>
    dx_out (sv_NetConn (l_conn s)) = dx_out (sv_NetConn conn) @ sealed_frames N g 0 sent \<and>
    (case l_main s of
       Sends rest \<Rightarrow> frames = map Some sent @ rest
     | Wait_signal \<Rightarrow> sent = [f1, f2]
     | Closing \<Rightarrow> sent = [f1, f2] \<and> l_chanid s \<noteq> - 1
     | Closed \<Rightarrow> if l_chanid s = - 1 then sent = [f1, f2]
         else \<exists>f3. sent = [f1, f2, f3] \<and> fr_MessageType f3 = MessageCloseChannel \<and>
           Frame_ToParams CloseChannel_Decode f3 m0 = Some (closemsg (l_chanid s), None) \<and>
           uint (cc_ChannelID (closemsg (l_chanid s))) = l_chanid s)"
proof -
  obtain f1 f2 where f: "frames = map Some [f1, f2]" "one_chunk f1" "one_chunk f2"
    using logger_frames_ok [where EncodeAddress = EncodeAddress, OF assms(4-6)] assms(7) by auto
  have "logger_ok N g conn [f1, f2]"
    using assms(1-3) f(2,3) by (simp add: logger_ok_def eval_nat_numeral)
  then have "logger_sent N g (dx_out (sv_NetConn conn)) [f1, f2] s"
    using logger.reachable_inv [OF assms(8) [unfolded f(1)], of g] assms(9,10) by (simp add: logger_inv_def)
  then obtain sent where sent: "- 1 \<le> l_chanid s" "l_chanid s < 2 ^ 32"
    "dx_out (sv_NetConn (l_conn s)) = dx_out (sv_NetConn conn) @ sealed_frames N g 0 sent"
    "case l_main s of Sends rest \<Rightarrow> rest \<noteq> [] \<and> map Some [f1, f2] = map Some sent @ rest
      | Wait_signal \<Rightarrow> sent = [f1, f2]
      | Closing \<Rightarrow> sent = [f1, f2] \<and> l_chanid s > -1
      | Closed \<Rightarrow> sent = [f1, f2] @ (if l_chanid s > -1 then [close_frame (l_chanid s)] else [])"
    unfolding logger_sent_def by blast
  show ?thesis
    using sent f(1) close_frame_message [of "l_chanid s"]
    by (intro exI [of _ f1] exI [of _ f2] exI [of _ sent]) (auto split: logger_main.splits)
qed

text \<open>The two frames of a client with the sample settings.\<close>

lemma sample_frames:
  obtains f1 f2 where "logger_frames (\<lambda>a. a) sample_Settings = Some (map Some [f1, f2])"
    and "one_chunk f1" and "one_chunk f2"
  using logger_frames_ok [where EncodeAddress = "\<lambda>a. a", OF sample_Settings_ok] by auto

theorem logger_protocol_witness:
  "\<exists>s f1 f2 sent. logger_ends sample_noise sample_conn [Some f1, Some f2] s \<and>
     dx_out (sv_NetConn (l_conn s)) = sealed_frames sample_noise (replicate 32 0) 0 sent \<and>
     f1 \<in> set sent \<and> f2 \<in> set sent"
proof -
  obtain f1 f2 where f: "logger_frames (\<lambda>a. a) sample_Settings = Some (map Some [f1, f2])" "one_chunk f1" "one_chunk f2"
    by (rule sample_frames)
  have k: "keyed (sv_Send sample_conn) (replicate 32 0)" "cs_n (sv_Send sample_conn) = 0"
    by (simp_all add: sample_conn_def sample_cipher_ok)
  have "logger_ok sample_noise (replicate 32 0) sample_conn [f1, f2]"
    using k f sample_nonces_for by (simp add: logger_ok_def eval_nat_numeral)
  from logger_can_close [OF this] obtain s where
    s: "logger_ends sample_noise sample_conn (map Some [f1, f2]) s" ..
  note e = s [unfolded logger_ends_def]
  from logger_protocol [where EncodeAddress = "\<lambda>a. a", OF k sample_nonces_for sample_Settings_ok f(1),
      of s] e s show ?thesis
    by (fastforce simp: sample_conn_def split: if_splits)
qed

text \<open>
  C13. The client, without an authority key and with settings whose two messages can be
  framed, against the example server: the handshakes finish on both sides, and the client can run to its end. However it runs to
  it, what it has sent after the handshake is read by the server, cut in any way, as exactly
  two frames and then the end of the input: the client's \<open>SetupConnection\<close> and its
  \<open>OpenExtendedMiningChannel\<close> message. It closes no channel, because nothing answers it: the
  server's goroutine reads the two frames and returns without having written anything.
\<close>

theorem logger_meets_server:
  fixes N :: "('g, 'k) Noise_Lib" and B :: "('k, 'q, 'j, 'f) Btcec"
  assumes "aead_ok N" and "maxNoiseNonce N \<noteq> 0" and "nonces_for N 0 3" and "btcec_ok B" and "ecdh_ok N B"
    and "NewKeypair B rnd \<rho>1 = Some (e1, \<rho>1')" and "NewKeypair B rnd \<rho>2 = Some (e2, \<rho>2')" and "keypair_ok B st"
    and "length (cfg_poolhost cfg) \<le> 255" and "cfg_addr cfg = Some a" and "length (EncodeAddress a) \<le> 244"
    and "concat (dx_in rR) = SerializeEllswiftBytes e1" and "dx_out rR = []"
  shows "\<exists>recvR sendR hsR rR' f1 f2 openchan. logger_frames EncodeAddress cfg = Some [Some f1, Some f2] \<and>
    openchanmsg EncodeAddress cfg 0 = Some openchan \<and>
    fr_MessageType f1 = MessageSetupConnection \<and> fr_MessageType f2 = MessageOpenExtendedMiningChannel \<and>
    Frame_ToParams SetupConnection_Decode f1 m1 = Some (setupmsg cfg, None) \<and>
    Frame_ToParams OpenExtendedMiningChannel_Decode f2 m2 = Some (openchan, None) \<and>
    PerformHandshakeResponder duplex_Read duplex_Write N B rnd zero_HandshakeState rR cert st \<rho>2 =
      Some (Inr (recvR, sendR), hsR, rR') \<and>
    (\<forall>rI. concat (dx_in rI) = dx_out rR' \<longrightarrow>
      (\<exists>c. client_connect duplex_Read duplex_Write XSwiftEC CheckDecode N B S rnd now [] rI \<rho>1 = Some (Inr c) \<and>
        (\<exists>s. logger_ends N c [Some f1, Some f2] s) \<and>
        (\<forall>s chunks d. logger_ends N c [Some f1, Some f2] s \<and>
            concat chunks = drop (length (dx_out (sv_NetConn c))) (dx_out (sv_NetConn (l_conn s))) \<and>
            d = \<lparr>sv_NetConn = rR'\<lparr>dx_in := chunks\<rparr>, sv_Send = sendR, sv_Recv = recvR\<rparr> \<longrightarrow>
          l_chanid s = - 1 \<and> reads_frames N d [f1, f2] \<and>
          (\<exists>d'. serve_conn duplex_Read N d = Some (Returns, d') \<and> dx_out (sv_NetConn d') = dx_out rR'))))"
proof -
  obtain f1 f2 where f: "logger_frames EncodeAddress cfg = Some [Some f1, Some f2]" "one_chunk f1" "one_chunk f2"
    using logger_frames_ok [where EncodeAddress = EncodeAddress, OF assms(9-11)] by auto
  obtain om where m: "openchanmsg EncodeAddress cfg 0 = Some om" "fr_MessageType f1 = MessageSetupConnection"
    "fr_MessageType f2 = MessageOpenExtendedMiningChannel"
    "Frame_ToParams SetupConnection_Decode f1 m1 = Some (setupmsg cfg, None)"
    "Frame_ToParams OpenExtendedMiningChannel_Decode f2 m2 = Some (om, None)"
    using logger_frames_messages [OF f(1)] by metis
  obtain tr where tr: "responds N B rnd \<rho>2 cert st (SerializeEllswiftBytes e1) tr"
      "initiates N B rnd \<rho>1 cert st (SerializeEllswiftBytes e1) tr"
    using handshake_runs [OF assms(1,2,4-8)] .
  obtain c1 c2 where c: "transport N tr = (c1, c2)" by fastforce
  obtain g where g: "keyed c1 g" "cs_n c1 = 0" using transport_keyed [OF assms(1), of tr] c by auto
  obtain rR' where R: "PerformHandshakeResponder duplex_Read duplex_Write N B rnd zero_HandshakeState rR cert st \<rho>2 =
      Some (Inr (c1, c2), finished zero_HandshakeState tr, rR')" "dx_out rR' = tr_reply tr"
    using tr(1) [unfolded responds_def, rule_format, of rR "[]" zero_HandshakeState] assms(12,13) c by auto
  have conn: "\<exists>c. client_connect duplex_Read duplex_Write XSwiftEC CheckDecode N B S rnd now [] rI \<rho>1 = Some (Inr c) \<and>
      sv_Send c = c1 \<and> concat (dx_in (sv_NetConn c)) = []" if "concat (dx_in rI) = dx_out rR'" for rI
    using tr(2) [unfolded initiates_def, rule_format, of rI "[]" zero_HandshakeState] that R(2) c
    by (auto simp: client_connect_def Let_def)
  have ok: "logger_ok N g c [f1, f2]" if "sv_Send c = c1" for c
    using g f assms(3) that by (simp add: logger_ok_def eval_nat_numeral)
  have "\<exists>c. client_connect duplex_Read duplex_Write XSwiftEC CheckDecode N B S rnd now [] rI \<rho>1 = Some (Inr c) \<and>
      (\<exists>s. logger_ends N c [Some f1, Some f2] s) \<and>
      (\<forall>s chunks d. logger_ends N c [Some f1, Some f2] s \<and>
          concat chunks = drop (length (dx_out (sv_NetConn c))) (dx_out (sv_NetConn (l_conn s))) \<and>
          d = \<lparr>sv_NetConn = rR'\<lparr>dx_in := chunks\<rparr>, sv_Send = c2, sv_Recv = c1\<rparr> \<longrightarrow>
        l_chanid s = - 1 \<and> reads_frames N d [f1, f2] \<and>
        (\<exists>d'. serve_conn duplex_Read N d = Some (Returns, d') \<and> dx_out (sv_NetConn d') = dx_out rR'))"
    if rI: "concat (dx_in rI) = dx_out rR'" for rI
  proof -
    obtain c where cc: "client_connect duplex_Read duplex_Write XSwiftEC CheckDecode N B S rnd now [] rI \<rho>1 = Some (Inr c)"
      "sv_Send c = c1" "concat (dx_in (sv_NetConn c)) = []" using conn [OF rI] by blast
    note run = quiet_run_served [OF assms(1) ok [OF cc(2)] m(2) cc(3), of _ "\<lparr>sv_NetConn = rR'\<lparr>dx_in := _\<rparr>, sv_Send = c2, sv_Recv = c1\<rparr>"]
    from logger_can_close [OF ok [OF cc(2)]] cc run show ?thesis by (intro exI [of _ c]) fastforce
  qed
  with f(1) m R(1) show ?thesis by blast
qed

theorem logger_meets_server_witness:
  "\<exists>recvR sendR rR' f1 f2 c s d. client_connect duplex_Read duplex_Write (\<lambda>u t. Inr zero_array) sample_Decode sample_noise
       sample_curve sample_schnorr sample_random 15 [] \<lparr>dx_in = [dx_out rR'], dx_out = []\<rparr> 1 = Some (Inr c) \<and>
     Frame_ToParams SetupConnection_Decode f1 (setupmsg sample_Settings) = Some (setupmsg sample_Settings, None) \<and>
     logger_ends sample_noise c [Some f1, Some f2] s \<and> l_chanid s = - 1 \<and>
     sv_NetConn d = rR'\<lparr>dx_in := [drop (length (dx_out (sv_NetConn c))) (dx_out (sv_NetConn (l_conn s)))]\<rparr> \<and>
     sv_Send d = sendR \<and> sv_Recv d = recvR \<and> reads_frames sample_noise d [f1, f2] \<and>
     (\<exists>d'. serve_conn duplex_Read sample_noise d = Some (Returns, d'))"
proof -
  let ?rI = "\<lambda>r. \<lparr>dx_in = [dx_out r], dx_out = []\<rparr>"
  let ?rR = "\<lparr>dx_in = [SerializeEllswiftBytes (sample_key 1)], dx_out = []\<rparr>"
  have rR: "concat (dx_in ?rR) = SerializeEllswiftBytes (sample_key 1)" "dx_out ?rR = []" by simp_all
  obtain recvR sendR rR' f1 f2 where f1: "Frame_ToParams SetupConnection_Decode f1 (setupmsg sample_Settings) =
      Some (setupmsg sample_Settings, None)"
    and all: "\<forall>rI. concat (dx_in rI) = dx_out rR' \<longrightarrow>
      (\<exists>c. client_connect duplex_Read duplex_Write (\<lambda>u t. Inr zero_array) sample_Decode sample_noise
          sample_curve sample_schnorr sample_random 15 [] rI 1 = Some (Inr c) \<and>
        (\<exists>s. logger_ends sample_noise c [Some f1, Some f2] s) \<and>
        (\<forall>s chunks d. logger_ends sample_noise c [Some f1, Some f2] s \<and>
            concat chunks = drop (length (dx_out (sv_NetConn c))) (dx_out (sv_NetConn (l_conn s))) \<and>
            d = \<lparr>sv_NetConn = rR'\<lparr>dx_in := chunks\<rparr>, sv_Send = sendR, sv_Recv = recvR\<rparr> \<longrightarrow>
          l_chanid s = - 1 \<and> reads_frames sample_noise d [f1, f2] \<and>
          (\<exists>d'. serve_conn duplex_Read sample_noise d = Some (Returns, d') \<and> dx_out (sv_NetConn d') = dx_out rR')))"
    using logger_meets_server [where EncodeAddress = "\<lambda>a. a" and XSwiftEC = "\<lambda>u t. Inr zero_array" and CheckDecode = sample_Decode and S = sample_schnorr and
      now = 15 and ?m1.0 = "setupmsg sample_Settings" and
      ?m2.0 = "the (openchanmsg (\<lambda>a. a) sample_Settings 0)" and cert = sample_cert, OF sample_noise_ok sample_nonces_for sample_curve_ok
      sample_ecdh_ok sample_NewKeypair [of 1] sample_NewKeypair [of 5] sample_key_ok [of 9] sample_Settings_ok rR] by blast
  have "concat (dx_in (?rI rR')) = dx_out rR'" by simp
  then obtain c s where c: "client_connect duplex_Read duplex_Write (\<lambda>u t. Inr zero_array) sample_Decode sample_noise
      sample_curve sample_schnorr sample_random 15 [] (?rI rR') 1 = Some (Inr c)"
    "logger_ends sample_noise c [Some f1, Some f2] s"
    "\<And>chunks d. concat chunks = drop (length (dx_out (sv_NetConn c))) (dx_out (sv_NetConn (l_conn s))) \<Longrightarrow>
       d = \<lparr>sv_NetConn = rR'\<lparr>dx_in := chunks\<rparr>, sv_Send = sendR, sv_Recv = recvR\<rparr> \<Longrightarrow>
       l_chanid s = - 1 \<and> reads_frames sample_noise d [f1, f2] \<and>
       (\<exists>d'. serve_conn duplex_Read sample_noise d = Some (Returns, d') \<and> dx_out (sv_NetConn d') = dx_out rR')"
    using all by blast
  let ?sent = "drop (length (dx_out (sv_NetConn c))) (dx_out (sv_NetConn (l_conn s)))"
  let ?d = "\<lparr>sv_NetConn = rR'\<lparr>dx_in := [?sent]\<rparr>, sv_Send = sendR, sv_Recv = recvR\<rparr>"
  have "l_chanid s = - 1 \<and> reads_frames sample_noise ?d [f1, f2] \<and>
      (\<exists>d'. serve_conn duplex_Read sample_noise ?d = Some (Returns, d') \<and> dx_out (sv_NetConn d') = dx_out rR')"
    by (rule c(3)) simp_all
  then show ?thesis
    using f1 c(1,2) by (intro exI [of _ recvR] exI [of _ sendR] exI [of _ rR'] exI [of _ f1] exI [of _ f2] exI [of _ c]
        exI [of _ s] exI [of _ ?d]) auto
qed

section \<open>The key grinder\<close>

text \<open>
  C16. Whatever the four goroutines of the grinder and its \<open>main\<close> do by turns: a result that
  \<open>main\<close> has collected is a key pair that can be made again from the printed values, whose
  text form has the wanted string in its place, and whose encoding decodes to it; no more
  results than asked for are collected, and \<open>main\<close> ends only after all goroutines.
\<close>

theorem grinder_results:
  assumes "btcec_ok B" and "(grind_step B CheckEncode rnd)\<^sup>*\<^sup>* grind_init s" and "res \<in> set (g_coll s)"
  shows "(\<exists>kp pk b. NewKeypairFrom B (Array (r_privKey res)) (r_auxRand res) (r_caseNum res) = Some (Inr kp) \<and>
      PublicKey kp = Some pk \<and> r_pubKey res = SerializeAuthorityKey CheckEncode pk \<and>
      take (length grind_str) (drop 2 (r_pubKey res)) = grind_str \<and>
      report_result B res = Some (b, None) \<and> length b = 65 \<and>
      Keypair_Decode B zero_Keypair (Some b) = Some (kp, None)) \<and>
    length (g_coll s) \<le> maxResults \<and> (g_main s = Finished \<longrightarrow> (\<forall>i < grinders. g_workers s i = Exited))"
proof -
  have inv: "grind_inv B CheckEncode rnd s" by (rule grinder.reachable_inv [OF assms(2)])
  then have "found B CheckEncode rnd res" using assms(3) by (simp add: grind_inv_def)
  from found_report [OF assms(1) this, of zero_Keypair] inv show ?thesis
    by (simp add: grind_inv_def)
qed

theorem grinder_results_witness:
  "\<exists>res kp b. (grind_step sample_curve sample_text sample_random)\<^sup>*\<^sup>* grind_init (blocked_state res) \<and>
     report_result sample_curve res = Some (b, None) \<and>
     Keypair_Decode sample_curve zero_Keypair (Some b) = Some (kp, None)"
proof -
  obtain res where "grinder_try sample_curve sample_text sample_random (length grind_str) grind_str 0 0 0 =
      Some (Hit res, 0 + 3)" using sample_hit by blast
  then have r: "(grind_step sample_curve sample_text sample_random)\<^sup>*\<^sup>* grind_init (blocked_state res)"
    by (rule blocked_reachable [OF sample_curve_ok])
  from grinder_results [OF sample_curve_ok r, of res] r show ?thesis
    by (auto simp: blocked_state_def)
qed

text \<open>
  C17. After \<open>main\<close> has cancelled them, the goroutines stop by themselves: at most 15 steps
  are left, and they end with the program finished, with a panic, or with a goroutine that
  cannot send to the full channel. If the results that may still come fit the channel, the
  program finishes or panics.
\<close>

theorem grinder_after_cancel:
  assumes "\<forall>n. \<exists>el \<rho> y. grinder_try B CheckEncode rnd (length grind_str) grind_str n el \<rho> = Some y"
    and "(grind_step B CheckEncode rnd)\<^sup>*\<^sup>* grind_init s" and "g_cancelled s"
    and "(grind_step B CheckEncode rnd ^^ n) s t"
  shows "n \<le> 15 \<and> (\<exists>u. (grind_step B CheckEncode rnd)\<^sup>*\<^sup>* t u \<and> (\<forall>v. \<not> grind_step B CheckEncode rnd u v)) \<and>
    ((\<forall>v. \<not> grind_step B CheckEncode rnd t v) \<longrightarrow> g_panicked t \<or> g_main t = Finished \<or>
      maxResults \<le> length (g_chan t) \<and> (\<exists>i < grinders. \<exists>n res. g_workers t i = Sending n res)) \<and>
    (pending s \<le> maxResults \<and> (\<forall>v. \<not> grind_step B CheckEncode rnd t v) \<longrightarrow> g_panicked t \<or> g_main t = Finished)"
proof -
  have s: "stopping s"
    using grinder.reachable_inv [OF assms(2)] assms(3) by (simp add: grind_inv_def stopping_def)
  have t: "stopping t" "n + steps_left t \<le> steps_left s"
    using cancelled.run_bounded [OF s assms(4)] by simp_all
  have n: "n \<le> 15" using t(2) steps_left_le [of s] by linarith
  have stuck: "maxResults \<le> length (g_chan t) \<and> (\<exists>i < grinders. \<exists>n res. g_workers t i = Sending n res)"
    if "\<forall>v. \<not> grind_step B CheckEncode rnd t v" "\<not> g_panicked t" "g_main t \<noteq> Finished"
    using stopping_stuck [of B CheckEncode rnd t] assms(1) t(1) that by blast
  have "pending t \<le> maxResults" if "pending s \<le> maxResults"
    using uncrowded.run_bounded [OF _ assms(4)] s that by blast
  then have fits: "g_panicked t \<or> g_main t = Finished"
    if "pending s \<le> maxResults" "\<forall>v. \<not> grind_step B CheckEncode rnd t v"
    using stuck blocked_crowded [of t] that by (metis not_le past_select.simps(2))
  show ?thesis
    using n stuck fits cancelled.reaches_end [OF t(1), of B CheckEncode rnd] by blast
qed

theorem grinder_after_cancel_witness:
  "\<exists>res. g_cancelled (blocked_state res) \<and> maxResults \<le> length (g_chan (blocked_state res)) \<and>
     (\<exists>i < grinders. \<exists>n res'. g_workers (blocked_state res) i = Sending n res')"
proof -
  obtain res where "grinder_try sample_curve sample_text sample_random (length grind_str) grind_str 0 0 0 =
      Some (Hit res, 0 + 3)" using sample_hit by blast
  then have r: "(grind_step sample_curve sample_text sample_random)\<^sup>*\<^sup>* grind_init (blocked_state res)"
    by (rule blocked_reachable [OF sample_curve_ok])
  have tries: "\<forall>n. \<exists>el \<rho> y. grinder_try sample_curve sample_text sample_random (length grind_str) grind_str n el \<rho> = Some y"
    using sample_hit by blast
  have c: "g_cancelled (blocked_state res)" "\<not> g_panicked (blocked_state res)"
    "g_main (blocked_state res) \<noteq> Finished" by (simp_all add: blocked_state_def)
  from grinder_after_cancel [OF tries r c(1), of 0 "blocked_state res"] c
    blocked_stuck [of sample_curve sample_text sample_random res] show ?thesis
    by auto
qed

text \<open>
  C18. The program can hang: when three goroutines have found a key before the first result
  is taken, one fills the channel that nobody reads any more, the other blocks in its
  send, and \<open>main\<close>, after it has printed its result, waits for it: no step is left, unless
  Go's runtime notices the deadlock and aborts the program.
\<close>

theorem grinder_deadlock:
  assumes "btcec_ok B"
    and "grinder_try B CheckEncode rnd (length grind_str) grind_str 0 el \<rho> = Some (Hit res, \<rho>')"
  shows "\<exists>s. (grind_step B CheckEncode rnd)\<^sup>*\<^sup>* grind_init s \<and> g_coll s = [res] \<and> g_cancelled s \<and>
    g_main s = Waiting \<and> \<not> g_panicked s \<and> (\<forall>t. \<not> grind_step B CheckEncode rnd s t)"
  using blocked_reachable [OF assms] blocked_stuck [of B CheckEncode rnd res]
  by (intro exI [of _ "blocked_state res"]) (simp add: blocked_state_def)

theorem grinder_deadlock_witness:
  "\<exists>s res. (grind_step sample_curve sample_text sample_random)\<^sup>*\<^sup>* grind_init s \<and> g_coll s = [res] \<and>
     g_main s = Waiting \<and> (\<forall>t. \<not> grind_step sample_curve sample_text sample_random s t)"
proof -
  obtain res where h: "grinder_try sample_curve sample_text sample_random (length grind_str) grind_str 0 0 0 =
      Some (Hit res, 0 + 3)" using sample_hit by blast
  from grinder_deadlock [OF sample_curve_ok h] show ?thesis by blast
qed

end
